(* ===== verification/Tasker_Prelude.thy ===== *)
theory Tasker_Prelude
  imports "HOL-Library.Multiset"
begin

text \<open>
  Shared vocabulary of the development: Go's 64-bit integers, the outcome of a call that may
  panic, the chain of middlewares (the same loop occurs in \<^verbatim>\<open>tasker.go\<close>, \<^verbatim>\<open>pool.go\<close> and
  \<^verbatim>\<open>web/web.go\<close>), the semantics of a single-table \<^verbatim>\<open>UPDATE\<close>, and the collections of
  rewrite rules the component theories extend.
\<close>

named_theorems go_simps \<open>unfolding rules of the modelled Go operations\<close>
named_theorems row_simps \<open>what an operation writes into the fields of one job row\<close>
named_theorems inv_intros \<open>preservation of the component invariants\<close>


section \<open>Go's 64-bit signed integers\<close>

text \<open>
  \<^verbatim>\<open>int\<close>, \<^verbatim>\<open>int64\<close> and \<^verbatim>\<open>time.Duration\<close> are 64-bit two's complement on the supported
  platforms; \<open>int64\<close> reduces a mathematical integer to that range, so \<open>int64 (a + b)\<close> is Go's
  wrapping addition.
\<close>

definition int64 :: "int \<Rightarrow> int" where
  "int64 x = signed_take_bit 63 x"

lemma int64_id [simp]: "- (2 ^ 63) \<le> x \<Longrightarrow> x < 2 ^ 63 \<Longrightarrow> int64 x = x"
  unfolding int64_def by (simp add: signed_take_bit_int_eq_self)

lemma int64_bounds: "- (2 ^ 63) \<le> int64 x" "int64 x < 2 ^ 63"
  unfolding int64_def
  by (rule signed_take_bit_int_greater_eq_minus_exp, rule signed_take_bit_int_less_exp)

lemma int64_idem [simp]: "int64 (int64 x) = int64 x"
  by (rule int64_id) (simp_all add: int64_bounds [simplified])

lemma int64_cong_mod: "(x - y) mod 2 ^ 64 = 0 \<Longrightarrow> int64 x = int64 y"
proof -
  assume "(x - y) mod 2 ^ 64 = 0"
  then have "x mod 2 ^ 64 = y mod 2 ^ 64"
    by (metis mod_eq_dvd_iff mod_0_imp_dvd)
  then have "take_bit 64 x = take_bit 64 y"
    by (simp add: take_bit_eq_mod)
  then show ?thesis
    unfolding int64_def
    by (simp add: signed_take_bit_eq_iff_take_bit_eq)
qed

lemma int64_mod_eq: "(int64 x - x) mod 2 ^ 64 = 0"
proof -
  have "take_bit 64 (signed_take_bit 63 x) = take_bit 64 x"
    by (simp add: take_bit_signed_take_bit)
  then show ?thesis
    unfolding int64_def take_bit_eq_mod by (metis mod_eq_dvd_iff dvd_imp_mod_0)
qed

lemma int64_add_left [simp]: "int64 (int64 x + y) = int64 (x + y)"
  by (rule int64_cong_mod) (use int64_mod_eq [of x] in \<open>simp add: algebra_simps\<close>)

lemma int64_add_right [simp]: "int64 (x + int64 y) = int64 (x + y)"
  by (metis add.commute int64_add_left)

lemma int64_mult_left [simp]: "int64 (int64 x * y) = int64 (x * y)"
proof (rule int64_cong_mod)
  have "2 ^ 64 dvd int64 x - x"
    using int64_mod_eq [of x] by (simp add: mod_0_imp_dvd)
  then have "2 ^ 64 dvd (int64 x - x) * y" by (rule dvd_mult2)
  then show "(int64 x * y - x * y) mod 2 ^ 64 = 0"
    by (simp add: left_diff_distrib)
qed

lemma int64_mult_right [simp]: "int64 (x * int64 y) = int64 (x * y)"
  by (metis mult.commute int64_mult_left)

text \<open>
  \<^verbatim>\<open>1 << n\<close> with a signed shift count: a negative count panics, a count of 64 or more gives 0
  (which the reduction does by itself).
\<close>

definition shl_one :: "int \<Rightarrow> int option" where
  "shl_one n = (if n < 0 then None else Some (int64 (2 ^ nat n)))"

lemma shl_one_None_iff [simp]: "shl_one n = None \<longleftrightarrow> n < 0"
  by (simp add: shl_one_def)

text \<open>The decimal text of a number.\<close>

fun decimal :: "nat \<Rightarrow> string" where
  "decimal n = (if n < 10 then [char_of (48 + n)] else decimal (n div 10) @ [char_of (48 + n mod 10)])"

declare decimal.simps [simp del]


section \<open>Calls that may panic, and middleware chains\<close>

text \<open>
  A Go call that returns an \<^verbatim>\<open>error\<close> either returns (with \<open>None\<close> for \<^verbatim>\<open>nil\<close>) or panics with
  a value. A handler acts on a state, which holds everything it may write.
\<close>

datatype ('v, 'p) outcome = Ret 'v | Panic 'p

type_synonym ('s, 'v, 'p) act = "'s \<Rightarrow> ('v, 'p) outcome \<times> 's"

text \<open>
  The loop \<^verbatim>\<open>for i := len(mws) - 1; i >= 0; i--\<close> that wraps \<^verbatim>\<open>next\<close> in \<^verbatim>\<open>mws[i]\<close>:
  \<open>wrap_from mws i h\<close> has wrapped the middlewares from index \<open>i\<close> on and goes on with
  \<open>i - 1\<close>.
\<close>

fun wrap_from :: "('h \<Rightarrow> 'h) list \<Rightarrow> nat \<Rightarrow> 'h \<Rightarrow> 'h" where
  "wrap_from mws 0 h = h"
| "wrap_from mws (Suc i) h = wrap_from mws i ((mws ! i) h)"

definition wrap_all :: "('h \<Rightarrow> 'h) list \<Rightarrow> 'h \<Rightarrow> 'h" where
  "wrap_all mws h = wrap_from mws (length mws) h"

lemma wrap_from_take: "i \<le> length mws \<Longrightarrow> wrap_from mws i h = foldr (\<lambda>m k. m k) (take i mws) h"
  by (induction i arbitrary: h) (auto simp: take_Suc_conv_app_nth)

lemma wrap_all_foldr: "wrap_all mws h = foldr (\<lambda>m k. m k) mws h"
  by (simp add: wrap_all_def wrap_from_take)

lemma wrap_all_Nil [simp]: "wrap_all [] h = h"
  by (simp add: wrap_all_foldr)

lemma wrap_all_Cons [simp]: "wrap_all (m # ms) h = m (wrap_all ms h)"
  by (simp add: wrap_all_foldr)

lemma wrap_all_append: "wrap_all (ms @ ns) h = wrap_all ms (wrap_all ns h)"
  by (simp add: wrap_all_foldr)

lemma wrap_all_transparent:
  "(\<And>m k. m \<in> set ms \<Longrightarrow> m k = k) \<Longrightarrow> wrap_all ms h = h"
  by (induction ms) auto

lemma wrap_all_invariant:
  assumes "P h" and "\<And>m k. m \<in> set ms \<Longrightarrow> P k \<Longrightarrow> P (m k)"
  shows "P (wrap_all ms h)"
  using assms by (induction ms) auto


section \<open>Tables\<close>

text \<open>
  \<^verbatim>\<open>UPDATE t SET f WHERE p\<close> on a table kept as the list of its rows, and the number of rows
  it matches.
\<close>

definition update_where :: "('r \<Rightarrow> bool) \<Rightarrow> ('r \<Rightarrow> 'r) \<Rightarrow> 'r list \<Rightarrow> 'r list" where
  "update_where p f t = map (\<lambda>r. if p r then f r else r) t"

definition count_where :: "('r \<Rightarrow> bool) \<Rightarrow> 'r list \<Rightarrow> nat" where
  "count_where p t = length (filter p t)"

lemma length_update_where [simp]: "length (update_where p f t) = length t"
  by (simp add: update_where_def)

lemma update_where_Nil [simp]: "update_where p f [] = []"
  by (simp add: update_where_def)

lemma update_where_Cons [simp]:
  "update_where p f (r # t) = (if p r then f r else r) # update_where p f t"
  by (simp add: update_where_def)

lemma set_update_where: "set (update_where p f t) = (\<lambda>r. if p r then f r else r) ` set t"
  by (simp add: update_where_def)

lemma update_where_none [simp]: "\<forall>r \<in> set t. \<not> p r \<Longrightarrow> update_where p f t = t"
  by (simp add: update_where_def map_idI)

lemma map_update_where:
  "(\<And>r. p r \<Longrightarrow> k (f r) = k r) \<Longrightarrow> map k (update_where p f t) = map k t"
  by (simp add: update_where_def)

lemma count_where_0_iff [simp]: "count_where p t = 0 \<longleftrightarrow> (\<forall>r \<in> set t. \<not> p r)"
  by (simp add: count_where_def filter_empty_conv)

lemma count_where_pos_iff [simp]: "0 < count_where p t \<longleftrightarrow> (\<exists>r \<in> set t. p r)"
  by (simp add: count_where_def filter_empty_conv)

text \<open>Looking a row up by a key, and what an update does to the row found.\<close>

definition find_key :: "('r \<Rightarrow> 'k) \<Rightarrow> 'k \<Rightarrow> 'r list \<Rightarrow> 'r option" where
  "find_key key k t = find (\<lambda>r. key r = k) t"

lemma find_key_Nil [simp]: "find_key key k [] = None"
  by (simp add: find_key_def)

lemma find_key_Cons [simp]:
  "find_key key k (r # t) = (if key r = k then Some r else find_key key k t)"
  by (simp add: find_key_def)

lemma find_key_None_iff: "find_key key k t = None \<longleftrightarrow> k \<notin> key ` set t"
  by (induction t) auto

lemma find_key_SomeD: "find_key key k t = Some r \<Longrightarrow> r \<in> set t \<and> key r = k"
  by (induction t) (auto split: if_splits)

lemma find_key_Some_iff:
  "distinct (map key t) \<Longrightarrow> find_key key k t = Some r \<longleftrightarrow> r \<in> set t \<and> key r = k"
  by (induction t) (auto simp: image_iff)

lemma find_key_update_where:
  assumes "\<And>r. key (f r) = key r"
  shows "find_key key k (update_where p f t) =
    map_option (\<lambda>r. if p r then f r else r) (find_key key k t)"
  using assms by (induction t) auto

lemma find_key_update_other:
  assumes "\<And>r. key (f r) = key r" and "\<And>r. p r \<Longrightarrow> key r \<noteq> k"
  shows "find_key key k (update_where p f t) = find_key key k t"
  using assms by (induction t) auto

lemma find_key_append:
  "find_key key k (s @ t) = (case find_key key k s of None \<Rightarrow> find_key key k t | Some r \<Rightarrow> Some r)"
  by (induction s) auto

lemma find_key_filter:
  "distinct (map key t) \<Longrightarrow>
    find_key key k (filter p t) =
      (case find_key key k t of None \<Rightarrow> None | Some r \<Rightarrow> if p r then Some r else None)"
proof (induction t)
  case Nil
  then show ?case by simp
next
  case (Cons a t)
  then have fresh: "key a \<notin> key ` set t" by simp
  then have "find_key key (key a) t = None" "find_key key (key a) (filter p t) = None"
    by (simp_all only: find_key_None_iff) auto
  with Cons show ?case by (cases "key a = k") auto
qed

lemma filter_key_unique:
  "distinct (map key t) \<Longrightarrow> find_key key k t = Some r \<Longrightarrow> filter (\<lambda>r. key r = k) t = [r]"
proof (induction t)
  case (Cons a t)
  then show ?case by (cases "key a = k") (auto simp: filter_empty_conv image_iff)
qed simp

text \<open>The first \<open>n\<close> elements of a list, for a Go bound that may be negative.\<close>

definition limit :: "int \<Rightarrow> 'a list \<Rightarrow> 'a list" where
  "limit n xs = take (nat n) xs"

lemma set_limit_subset: "set (limit n xs) \<subseteq> set xs"
  by (simp add: limit_def set_take_subset)

lemma length_limit_le: "0 \<le> n \<Longrightarrow> int (length (limit n xs)) \<le> n"
  by (simp add: limit_def)

lemma distinct_limit: "distinct xs \<Longrightarrow> distinct (limit n xs)"
  by (simp add: limit_def)

text \<open>
  The first \<open>n\<close> elements of a list in the order of a key that tells them apart: a set of that size,
  all of whose elements come before the others.
\<close>

definition least_by :: "('a \<Rightarrow> 'k::linorder) \<Rightarrow> nat \<Rightarrow> 'a set \<Rightarrow> 'a set \<Rightarrow> bool" where
  "least_by k n C A \<longleftrightarrow> C \<subseteq> A \<and> card C = min n (card A) \<and> (\<forall>x \<in> C. \<forall>y \<in> A - C. k x < k y)"

lemma take_sort_key_least:
  assumes "distinct xs" "inj_on k (set xs)"
  shows "least_by k n (set (take n (sort_key k xs))) (set xs)"
proof -
  let ?ys = "sort_key k xs"
  have sub: "set (take n ?ys) \<subseteq> set xs" using set_take_subset [of n ?ys] by simp
  have "k x < k y" if "x \<in> set (take n ?ys)" "y \<in> set xs - set (take n ?ys)" for x y
  proof -
    have "y \<in> set (drop n ?ys)" using that(2) set_append [of "take n ?ys" "drop n ?ys"] by auto
    moreover have "sorted (map k (take n ?ys) @ map k (drop n ?ys))"
      by (simp only: map_append [symmetric] append_take_drop_id sorted_sort_key)
    ultimately have "k x \<le> k y" using that(1) by (auto simp: sorted_append)
    moreover have "x \<noteq> y" using that by auto
    ultimately show ?thesis using assms(2) that sub by (metis DiffD1 inj_onD order_le_less subsetD)
  qed
  moreover have "card (set (take n ?ys)) = min n (card (set xs))"
    using assms(1) by (simp add: distinct_card min.commute)
  ultimately show ?thesis using sub by (simp add: least_by_def)
qed

lemma least_by_one:
  assumes "least_by f 1 C A" and "A \<noteq> {}" and "finite A"
  obtains x where "C = {x}" "x \<in> A" "\<forall>y \<in> A. y \<noteq> x \<longrightarrow> f x < f y"
proof -
  have "card C = 1" using assms by (simp add: least_by_def) (metis One_nat_def Suc_leI card_gt_0_iff min.absorb1)
  then obtain x where "C = {x}" by (auto simp: card_1_singleton_iff)
  with assms(1) that show ?thesis by (auto simp: least_by_def)
qed

lemma distinct_map_perm: "mset xs = mset ys \<Longrightarrow> distinct (map f xs) \<longleftrightarrow> distinct (map f ys)"
  by (metis mset_eq_imp_distinct_iff mset_map)

lemma map_sort_key:
  "(\<And>x. x \<in> set xs \<Longrightarrow> h x = g (f x)) \<Longrightarrow> map f (sort_key h xs) = sort_key g (map f xs)"
proof (induction xs)
  case (Cons x xs)
  have "map f (insort_key h x ys) = insort_key g (f x) (map f ys)" if "set ys \<subseteq> set xs" for ys
    using that Cons.prems by (induction ys) auto
  with Cons show ?case by simp
qed simp

lemma sort_key_strict:
  assumes "distinct xs" "inj_on k (set xs)"
  shows "sorted_wrt (\<lambda>x y. k x < k y) (sort_key k xs)"
proof -
  have "distinct (map k (sort_key k xs))" using assms by (simp add: distinct_map)
  then have "sorted_wrt (<) (map k (sort_key k xs))" by (simp add: strict_sorted_iff)
  then show ?thesis by (simp add: sorted_wrt_map)
qed

end
