(* ===== verification/Tasker_Types.thy ===== *)
theory Tasker_Types
  imports Tasker_Prelude
begin

text \<open>
  The data of \<^verbatim>\<open>types.go\<close> and \<^verbatim>\<open>errors.go\<close>: job states, errors, the job row, nodes and
  filters. Instants and durations are nanoseconds (\<^verbatim>\<open>time.Time\<close> read as \<^verbatim>\<open>UnixNano\<close>,
  \<^verbatim>\<open>time.Duration\<close>); byte slices and strings are lists of characters; a pointer or a nil-able
  value is an option.
\<close>

type_synonym time = int
type_synonym duration = int
type_synonym bytes = string
type_synonym job_id = nat
type_synonym node_id = string
type_synonym queue_name = string

abbreviation Microsecond :: duration where "Microsecond \<equiv> 1000"
abbreviation Millisecond :: duration where "Millisecond \<equiv> 1000000"
abbreviation Second :: duration where "Second \<equiv> 1000000000"
abbreviation Minute :: duration where "Minute \<equiv> 60000000000"
abbreviation Hour :: duration where "Hour \<equiv> 3600000000000"


section \<open>Job states\<close>

text \<open>
  \<^verbatim>\<open>State\<close> is a Go string with eight named values. \<open>StateOther\<close> stands for every other
  string; \<open>state_of_string\<close> never builds it from one of the eight names.
\<close>

datatype State =
    StatePending | StateScheduled | StateAvailable | StateRunning
  | StateCompleted | StateRetryable | StateFailed | StateCancelled
  | StateOther string

fun string_of_state :: "State \<Rightarrow> string" where
  "string_of_state StatePending = ''pending''"
| "string_of_state StateScheduled = ''scheduled''"
| "string_of_state StateAvailable = ''available''"
| "string_of_state StateRunning = ''running''"
| "string_of_state StateCompleted = ''completed''"
| "string_of_state StateRetryable = ''retryable''"
| "string_of_state StateFailed = ''failed''"
| "string_of_state StateCancelled = ''cancelled''"
| "string_of_state (StateOther s) = s"

definition named_states :: "State list" where
  "named_states = [StatePending, StateScheduled, StateAvailable, StateRunning,
     StateCompleted, StateRetryable, StateFailed, StateCancelled]"

definition state_of_string :: "string \<Rightarrow> State" where
  "state_of_string s =
     (case find_key string_of_state s named_states of None \<Rightarrow> StateOther s | Some st \<Rightarrow> st)"

text \<open>\<^verbatim>\<open>State.Valid\<close>: the \<^verbatim>\<open>switch\<close> lists the eight names.\<close>

definition State_Valid :: "State \<Rightarrow> bool" where
  "State_Valid s \<longleftrightarrow>
     s = StatePending \<or> s = StateScheduled \<or> s = StateAvailable \<or> s = StateRunning \<or>
     s = StateCompleted \<or> s = StateRetryable \<or> s = StateFailed \<or> s = StateCancelled"

definition State_Terminal :: "State \<Rightarrow> bool" where
  "State_Terminal s \<longleftrightarrow> s = StateCompleted \<or> s = StateFailed \<or> s = StateCancelled"

lemma string_of_state_of_string [simp]: "string_of_state (state_of_string s) = s"
  by (simp add: state_of_string_def split: option.split) (blast dest: find_key_SomeD)

lemma set_named_states: "set named_states = Collect State_Valid"
  by (auto simp: named_states_def State_Valid_def)

lemma state_of_string_of_state: "State_Valid st \<Longrightarrow> state_of_string (string_of_state st) = st"
  by (cases st) (simp_all add: State_Valid_def state_of_string_def named_states_def)

lemma State_Valid_state_of_string:
  "State_Valid (state_of_string s) \<longleftrightarrow> s \<in> string_of_state ` set named_states"
proof (cases "find_key string_of_state s named_states")
  case None
  then have "s \<notin> string_of_state ` set named_states"
    by (simp only: find_key_None_iff not_False_eq_True)
  with None show ?thesis
    by (simp add: state_of_string_def State_Valid_def)
next
  case (Some st)
  have st: "st \<in> set named_states" "string_of_state st = s"
    using find_key_SomeD [OF Some] by blast+
  then have "State_Valid (state_of_string s)"
    using Some by (simp add: state_of_string_def set_named_states)
  moreover have "s \<in> string_of_state ` set named_states"
    using st by blast
  ultimately show ?thesis by blast
qed


section \<open>Errors\<close>

text \<open>
  The sentinel errors of \<^verbatim>\<open>errors.go\<close>; \<open>Errorf\<close> is an error made from a text, \<open>Wrapf p e\<close>
  is \<^verbatim>\<open>fmt.Errorf("p: %w", e)\<close>.
\<close>

datatype error =
    ErrJobNotFound | ErrJobAlreadyExists | ErrInvalidTransition | ErrJobNotClaimed
  | ErrQueueNotFound | ErrWorkerPoolStopped | ErrInvalidPayload | ErrJobTimedOut
  | ErrJobPanicked | ErrMaxRetriesExceeded | ErrNodeNotFound
  | Errorf string | Wrapf string error

fun error_text :: "error \<Rightarrow> string" where
  "error_text ErrJobNotFound = ''job not found''"
| "error_text ErrJobAlreadyExists = ''job already exists''"
| "error_text ErrInvalidTransition = ''invalid state transition''"
| "error_text ErrJobNotClaimed = ''job not claimed by this worker''"
| "error_text ErrQueueNotFound = ''queue not found''"
| "error_text ErrWorkerPoolStopped = ''worker pool is stopped''"
| "error_text ErrInvalidPayload = ''invalid job payload''"
| "error_text ErrJobTimedOut = ''job execution timed out''"
| "error_text ErrJobPanicked = ''job execution panicked''"
| "error_text ErrMaxRetriesExceeded = ''max retries exceeded''"
| "error_text ErrNodeNotFound = ''node not found''"
| "error_text (Errorf s) = s"
| "error_text (Wrapf p e) = p @ '': '' @ error_text e"


section \<open>Rows, filters, nodes\<close>

record AttemptError =
  ae_Attempt :: int
  ae_Error :: string
  ae_Timestamp :: time
  ae_Stack :: string

record JobRow =
  ID :: job_id
  UUID :: string
  Queue :: queue_name
  Kind :: string
  Payload :: bytes
  State :: State
  Priority :: int
  Attempt :: int
  MaxAttempts :: int
  AttemptedBy :: "node_id list"
  AttemptedAt :: "time option"
  Errors :: "AttemptError list"
  Output :: "bytes option"
  Tags :: "string list option"
  ScheduledAt :: time
  CreatedAt :: time
  StartedAt :: "time option"
  CompletedAt :: "time option"
  FinalizedAt :: "time option"
  NodeID :: node_id
  BatchID :: string
  Timeout :: duration
  Metadata :: "(string \<rightharpoonup> string) option"
  UniqueKey :: string

text \<open>Go's zero value \<^verbatim>\<open>JobRow{}\<close>, which every literal of the code starts from.\<close>

definition zero_row :: JobRow where
  "zero_row = \<lparr>ID = 0, UUID = [], Queue = [], Kind = [], Payload = [], State = StateOther [],
     Priority = 0, Attempt = 0, MaxAttempts = 0, AttemptedBy = [], AttemptedAt = None, Errors = [],
     Output = None, Tags = None, ScheduledAt = 0, CreatedAt = 0, StartedAt = None,
     CompletedAt = None, FinalizedAt = None, NodeID = [], BatchID = [], Timeout = 0,
     Metadata = None, UniqueKey = []\<rparr>"

record NodeInfo =
  ni_ID :: node_id
  ni_Host :: string
  ni_Port :: int
  ni_Queues :: "queue_name list"
  ni_Workers :: int
  ni_Status :: string
  ni_StartedAt :: time
  ni_LastHeartbeat :: time
  ni_Version :: string

record JobFilter =
  jf_States :: "State list"
  jf_Queues :: "queue_name list"
  jf_Kinds :: "string list"
  jf_Tags :: "string list"
  jf_Search :: string
  jf_Limit :: int
  jf_Offset :: int
  jf_OrderBy :: string
  jf_Order :: string

definition NodeLivenessWindow :: duration where
  "NodeLivenessWindow = 30 * Second"

end
