(* ===== verification/State_Machine.thy ===== *)
theory State_Machine
  imports Tasker_Types
begin

text \<open>
  \<^verbatim>\<open>state_machine.go\<close> and the backoff configurations of \<^verbatim>\<open>job.go\<close>: the transition table,
  the state a finished execution leads to, and the delay before a retry. Durations wrap at
  64 bits as Go's do; a negative shift count panics (\<open>None\<close>).
\<close>


section \<open>The transition table\<close>

definition validTransitions :: "State \<rightharpoonup> State list" where
  "validTransitions =
     [StatePending \<mapsto> [StateAvailable, StateCancelled],
      StateScheduled \<mapsto> [StateAvailable, StateCancelled],
      StateAvailable \<mapsto> [StateRunning, StateCancelled],
      StateRunning \<mapsto> [StateCompleted, StateRetryable, StateFailed],
      StateRetryable \<mapsto> [StateAvailable, StateCancelled],
      StateCompleted \<mapsto> [StateAvailable],
      StateFailed \<mapsto> [StateAvailable],
      StateCancelled \<mapsto> []]"

definition Transition_Valid :: "State \<Rightarrow> State \<Rightarrow> bool" where
  "Transition_Valid from to =
     (case validTransitions from of
        None \<Rightarrow> False
      | Some allowed \<Rightarrow> list_ex (\<lambda>s. s = to) allowed)"

definition ValidateTransition :: "State \<Rightarrow> State \<Rightarrow> error option" where
  "ValidateTransition from to =
     (if \<not> Transition_Valid from to
      then Some (Errorf (''invalid state transition: '' @ string_of_state from @ '' -> '' @ string_of_state to))
      else None)"

definition ShouldRequeue :: "duration \<Rightarrow> bool" where
  "ShouldRequeue nodeTimeout \<longleftrightarrow> 0 < nodeTimeout"


section \<open>Backoff\<close>

datatype BackoffStrategy = BackoffExponential | BackoffFibonacci | BackoffFixed | BackoffOther string

record BackoffConfig =
  Strategy :: BackoffStrategy
  Base :: duration
  MaxDelay :: duration

definition DefaultBackoff :: BackoffConfig where
  "DefaultBackoff = \<lparr>Strategy = BackoffExponential, Base = 2 * Second, MaxDelay = 24 * Hour\<rparr>"

definition FibonacciBackoff :: BackoffConfig where
  "FibonacciBackoff = \<lparr>Strategy = BackoffFibonacci, Base = 1 * Second, MaxDelay = 24 * Hour\<rparr>"

text \<open>The loop of \<^verbatim>\<open>fibonacci\<close>: \<^verbatim>\<open>for i := 2; i <= n; i++ { a, b = b, a+b }\<close>.\<close>

function fib_loop :: "int \<Rightarrow> int \<Rightarrow> int \<Rightarrow> int \<Rightarrow> int" where
  "fib_loop i n a b = (if i \<le> n then fib_loop (i + 1) n b (int64 (a + b)) else b)"
  by pat_completeness auto
termination
  by (relation "measure (\<lambda>(i, n, a, b). nat (n + 1 - i))") auto

declare fib_loop.simps [simp del]

definition fibonacci :: "int \<Rightarrow> int" where
  "fibonacci n = (if n \<le> 1 then n else fib_loop 2 n 0 1)"

definition cap_delay :: "duration \<Rightarrow> duration \<Rightarrow> duration" where
  "cap_delay maxDelay delay = (if delay > maxDelay then maxDelay else delay)"

definition exponential_delay :: "duration \<Rightarrow> duration \<Rightarrow> int \<Rightarrow> duration option" where
  "exponential_delay base maxDelay nextAttempt =
     (case shl_one (int64 (nextAttempt - 1)) of
        None \<Rightarrow> None
      | Some m \<Rightarrow> Some (cap_delay maxDelay (int64 (base * m))))"

definition computeBackoffWithConfig :: "BackoffConfig \<Rightarrow> int \<Rightarrow> duration option" where
  "computeBackoffWithConfig cfg nextAttempt =
     (let maxDelay = MaxDelay cfg; base = Base cfg in
      case Strategy cfg of
        BackoffExponential \<Rightarrow> exponential_delay base maxDelay nextAttempt
      | BackoffFibonacci \<Rightarrow> Some (cap_delay maxDelay (int64 (fibonacci nextAttempt * base)))
      | BackoffFixed \<Rightarrow> Some (if base > maxDelay then maxDelay else base)
      | BackoffOther _ \<Rightarrow> exponential_delay base maxDelay nextAttempt)"

definition computeBackoff :: "JobRow \<Rightarrow> int \<Rightarrow> duration option" where
  "computeBackoff job nextAttempt = computeBackoffWithConfig DefaultBackoff nextAttempt"

text \<open>
  \<^verbatim>\<open>ComputeNextState\<close>; \<open>None\<close> is the panic of the backoff computation.
\<close>

definition ComputeNextState :: "JobRow \<Rightarrow> error option \<Rightarrow> (State \<times> duration) option" where
  "ComputeNextState job err =
     (case err of
        None \<Rightarrow> Some (StateCompleted, 0)
      | Some _ \<Rightarrow>
          let maxAttempts = (if MaxAttempts job \<le> 0 then 3 else MaxAttempts job);
              nextAttempt = int64 (Attempt job + 1)
          in if nextAttempt > maxAttempts then Some (StateFailed, 0)
             else map_option (\<lambda>backoff. (StateRetryable, backoff)) (computeBackoff job nextAttempt))"


section \<open>Lemmas\<close>

lemma Transition_Valid_simps [simp]:
  "Transition_Valid StatePending t \<longleftrightarrow> t = StateAvailable \<or> t = StateCancelled"
  "Transition_Valid StateScheduled t \<longleftrightarrow> t = StateAvailable \<or> t = StateCancelled"
  "Transition_Valid StateAvailable t \<longleftrightarrow> t = StateRunning \<or> t = StateCancelled"
  "Transition_Valid StateRunning t \<longleftrightarrow> t = StateCompleted \<or> t = StateRetryable \<or> t = StateFailed"
  "Transition_Valid StateRetryable t \<longleftrightarrow> t = StateAvailable \<or> t = StateCancelled"
  "Transition_Valid StateCompleted t \<longleftrightarrow> t = StateAvailable"
  "Transition_Valid StateFailed t \<longleftrightarrow> t = StateAvailable"
  "\<not> Transition_Valid StateCancelled t"
  "\<not> Transition_Valid (StateOther x) t"
  by (auto simp: Transition_Valid_def validTransitions_def)

lemma Transition_Valid_into_Valid: "Transition_Valid s t \<Longrightarrow> State_Valid s \<and> State_Valid t"
  by (cases s) (auto simp: State_Valid_def)

text \<open>The Fibonacci numbers, and the loop's invariant: after the steps up to \<open>i\<close> the pair holds
  the reductions of two consecutive ones.\<close>

fun fib :: "nat \<Rightarrow> int" where
  "fib 0 = 0"
| "fib (Suc 0) = 1"
| "fib (Suc (Suc n)) = fib n + fib (Suc n)"

lemma fib_loop_steps:
  "fib_loop (int k + 2) (int k + 1 + int d) (int64 (fib k)) (int64 (fib (Suc k))) =
    int64 (fib (Suc k + d))"
proof (induction d arbitrary: k)
  case 0
  show ?case by (subst fib_loop.simps) simp
next
  case (Suc d)
  have step: "int64 (int64 (fib k) + int64 (fib (Suc k))) = int64 (fib (Suc (Suc k)))"
    by simp
  have "fib_loop (int k + 2) (int k + 1 + int (Suc d)) (int64 (fib k)) (int64 (fib (Suc k))) =
      fib_loop (int (Suc k) + 2) (int (Suc k) + 1 + int d) (int64 (fib (Suc k))) (int64 (fib (Suc (Suc k))))"
    by (subst fib_loop.simps) (simp add: step algebra_simps)
  also have "\<dots> = int64 (fib (Suc k + Suc d))"
    using Suc.IH [of "Suc k"] by simp
  finally show ?case .
qed

lemma fibonacci_eq_fib: "fibonacci (int n) = int64 (fib n)"
proof (cases "n \<le> 1")
  case True
  then have "n = 0 \<or> n = 1" by auto
  then show ?thesis by (auto simp: fibonacci_def)
next
  case False
  then obtain d where n: "n = Suc (Suc d)"
    by (metis One_nat_def Suc_leI le0 le_SucE less_Suc_eq_le not_less_eq_eq old.nat.exhaust)
  have "fib_loop 2 (int n) 0 1 = int64 (fib n)"
    using fib_loop_steps [of 0 "Suc d"] by (simp add: n)
  with False show ?thesis by (simp add: fibonacci_def)
qed

lemma fib_nonneg: "0 \<le> fib n"
  by (induction n rule: fib.induct) auto

lemma fib_mono_Suc: "fib n \<le> fib (Suc n)"
  by (cases n) (auto simp: fib_nonneg)

lemma fib_mono: "m \<le> n \<Longrightarrow> fib m \<le> fib n"
  by (rule lift_Suc_mono_le [of fib]) (auto intro: fib_mono_Suc)

fun fib_pair :: "nat \<Rightarrow> int \<times> int" where
  "fib_pair 0 = (0, 1)"
| "fib_pair (Suc n) = (case fib_pair n of (a, b) \<Rightarrow> (b, a + b))"

lemma fib_pair_eq: "fib_pair n = (fib n, fib (Suc n))"
  by (induction n) auto

lemma fib_92: "fib 92 = 7540113804746346429"
proof -
  have "fst (fib_pair 92) = 7540113804746346429" by code_simp
  then show ?thesis by (simp add: fib_pair_eq)
qed

lemma exponential_delay_exact:
  assumes "1 \<le> n" "0 < base" "base * 2 ^ nat (n - 1) < 2 ^ 63"
  shows "exponential_delay base maxDelay n = Some (min (base * 2 ^ nat (n - 1)) maxDelay)"
proof -
  have "1 * 2 ^ nat (n - 1) \<le> base * 2 ^ nat (n - 1)"
    using assms(2) by (intro mult_right_mono) auto
  with assms(3) have pow: "(2::int) ^ nat (n - 1) < 2 ^ 63" by linarith
  then have "nat (n - 1) < 63"
    by (rule power_less_imp_less_exp [rotated]) simp
  then have n1: "int64 (n - 1) = n - 1" using assms(1) by (intro int64_id) auto
  have m: "int64 (2 ^ nat (n - 1)) = 2 ^ nat (n - 1)"
    by (rule int64_id [OF _ pow]) (rule order.trans [of _ 0], simp_all)
  have "int64 (base * 2 ^ nat (n - 1)) = base * 2 ^ nat (n - 1)"
    by (rule int64_id [OF _ assms(3)]) (use assms(2) in \<open>auto intro: order.trans [of _ 0]\<close>)
  with n1 m assms(1) show ?thesis
    by (auto simp: exponential_delay_def shl_one_def cap_delay_def)
qed

lemma exponential_delay_None_iff:
  "- (2 ^ 63) < n \<Longrightarrow> n < 2 ^ 63 \<Longrightarrow> exponential_delay base maxDelay n = None \<longleftrightarrow> n < 1"
  by (auto simp: exponential_delay_def shl_one_def split: option.splits)

lemma cap_delay_le: "cap_delay m d \<le> m"
  by (simp add: cap_delay_def)

lemma computeBackoffWithConfig_le:
  "computeBackoffWithConfig cfg n = Some d \<Longrightarrow> d \<le> MaxDelay cfg"
  by (auto simp: computeBackoffWithConfig_def exponential_delay_def cap_delay_le Let_def
      split: BackoffStrategy.splits option.splits if_splits)

lemma exponential_delay_wraps:
  assumes "1 \<le> n" "n < 2 ^ 63" "2 ^ 64 dvd base * 2 ^ nat (n - 1)" "0 \<le> maxDelay"
  shows "exponential_delay base maxDelay n = Some 0"
proof -
  have "int64 (base * 2 ^ nat (n - 1)) = int64 0"
    by (rule int64_cong_mod) (use assms(3) in \<open>simp add: dvd_eq_mod_eq_0\<close>)
  then show ?thesis
    using assms by (simp add: exponential_delay_def shl_one_def cap_delay_def)
qed

lemma ComputeNextState_None: "ComputeNextState job None = Some (StateCompleted, 0)"
  by (simp add: ComputeNextState_def)

lemma computeBackoff_Default:
  "computeBackoff job n = exponential_delay (2 * Second) (24 * Hour) n"
  by (simp add: computeBackoff_def computeBackoffWithConfig_def DefaultBackoff_def)

text \<open>
  A failed execution is retried exactly while attempts remain; \<open>effective_max\<close> is the bound with
  the default for a row that carries none.
\<close>

definition effective_max :: "JobRow \<Rightarrow> int" where
  "effective_max job = (if MaxAttempts job \<le> 0 then 3 else MaxAttempts job)"

lemma ComputeNextState_Some:
  assumes "0 \<le> Attempt job" "Attempt job < 2 ^ 63 - 1"
  shows "ComputeNextState job (Some e) =
    (if Attempt job < effective_max job
     then map_option (Pair StateRetryable) (exponential_delay (2 * Second) (24 * Hour) (Attempt job + 1))
     else Some (StateFailed, 0))"
proof -
  have "int64 (Attempt job + 1) = Attempt job + 1"
    using assms by (intro int64_id) auto
  then show ?thesis
    by (auto simp: ComputeNextState_def effective_max_def computeBackoff_Default Let_def)
qed


section \<open>Properties\<close>

text \<open>
  Whatever the outcome of an execution, the state \<^verbatim>\<open>ComputeNextState\<close> chooses is one the
  transition table allows from \<^verbatim>\<open>running\<close>; it is \<^verbatim>\<open>completed\<close> exactly when there is no error, and
  after an error on attempt \<open>k \<ge> 0\<close> it is \<^verbatim>\<open>retryable\<close> exactly when \<open>k\<close> is below the row's maximum
  (3 when the row carries none), and never a panic.
\<close>

theorem next_state_decides_retry:
  assumes "0 \<le> Attempt job" and "Attempt job < 2 ^ 63 - 1"
  shows "\<exists>st d. ComputeNextState job err = Some (st, d) \<and> Transition_Valid StateRunning st \<and>
    (st = StateCompleted \<longleftrightarrow> err = None) \<and>
    (st = StateRetryable \<longleftrightarrow> err \<noteq> None \<and> Attempt job < effective_max job) \<and>
    d \<le> 24 * Hour \<and> (st \<noteq> StateRetryable \<longrightarrow> d = 0)"
proof (cases err)
  case None
  then show ?thesis by (simp add: ComputeNextState_None)
next
  case (Some e)
  have "exponential_delay (2 * Second) (24 * Hour) (Attempt job + 1) \<noteq> None"
    using assms by (simp add: exponential_delay_None_iff)
  then obtain d where d: "exponential_delay (2 * Second) (24 * Hour) (Attempt job + 1) = Some d"
    by blast
  then have "d \<le> 24 * Hour"
    by (auto simp: exponential_delay_def cap_delay_le split: option.splits)
  with d Some show ?thesis
    using ComputeNextState_Some [OF assms] by auto
qed

theorem next_state_decides_retry_witness:
  "\<exists>d. ComputeNextState (zero_row\<lparr>Attempt := 1, MaxAttempts := 3\<rparr>) (Some ErrJobTimedOut) = Some (StateRetryable, d)"
proof -
  let ?job = "zero_row\<lparr>Attempt := 1, MaxAttempts := 3\<rparr>"
  have "0 \<le> Attempt ?job" "Attempt ?job < 2 ^ 63 - 1" by simp_all
  from next_state_decides_retry [OF this, of "Some ErrJobTimedOut"] show ?thesis
    by (auto simp: effective_max_def)
qed

text \<open>
  While \<open>2s \<cdot> 2\<^bsup>n-1\<^esup>\<close> fits in a 64-bit duration (up to attempt 33) the default backoff is
  exactly that delay, capped at 24 hours: positive, at most the cap, and never shorter than the
  delay of an earlier attempt.
\<close>

theorem default_backoff_exact:
  assumes "1 \<le> m" and "m \<le> n" and "n \<le> 33"
  shows "computeBackoff job n = Some (min (2 * Second * 2 ^ nat (n - 1)) (24 * Hour)) \<and>
    0 < the (computeBackoff job n) \<and> the (computeBackoff job m) \<le> the (computeBackoff job n)"
proof -
  have exact: "computeBackoff job k = Some (min (2 * Second * 2 ^ nat (k - 1)) (24 * Hour))"
    if "1 \<le> k" "k \<le> 33" for k
  proof -
    have "(2::int) ^ nat (k - 1) \<le> 2 ^ 32"
      by (rule power_increasing) (use that in auto)
    then have "2 * Second * 2 ^ nat (k - 1) < 2 ^ 63" by simp
    with that show ?thesis
      unfolding computeBackoff_Default by (intro exponential_delay_exact) auto
  qed
  have "(2::int) ^ nat (m - 1) \<le> 2 ^ nat (n - 1)"
    by (rule power_increasing) (use assms in auto)
  then have "min (2 * Second * 2 ^ nat (m - 1)) (24 * Hour) \<le> min (2 * Second * 2 ^ nat (n - 1)) (24 * Hour)"
    by (intro min.mono) auto
  with assms show ?thesis by (simp add: exact)
qed

theorem default_backoff_exact_witness:
  "computeBackoff zero_row 4 = Some (16 * Second)"
  using default_backoff_exact [of 1 4] by simp

text \<open>
  Property C38. Beyond that the product wraps before the cap is applied: at attempt 34 the delay is
  negative, and from attempt 55 on it is zero for every job, so a job that allows that many
  attempts is retried without any delay.
\<close>

theorem default_backoff_wraps:
  "(\<exists>d. computeBackoff job 34 = Some d \<and> d < 0) \<and>
   (55 \<le> n \<longrightarrow> n < 2 ^ 63 \<longrightarrow> computeBackoff job n = Some 0)"
proof (intro conjI impI)
  have "int64 (2 * Second * 2 ^ 33) = 2 * Second * 2 ^ 33 - 2 ^ 64"
    by (simp add: int64_def signed_take_bit_eq_take_bit_minus bit_iff_odd take_bit_eq_mod)
  then show "\<exists>d. computeBackoff job 34 = Some d \<and> d < 0"
    by (simp add: computeBackoff_Default exponential_delay_def shl_one_def cap_delay_def)
next
  assume n: "55 \<le> n" "n < 2 ^ 63"
  have "nat (n - 1) = 54 + nat (n - 55)" using n by simp
  then have "2 * Second * 2 ^ nat (n - 1) = 2 ^ 64 * (1953125 * 2 ^ nat (n - 55))"
    by (simp add: power_add)
  then have "(2::int) ^ 64 dvd 2 * Second * 2 ^ nat (n - 1)" by (rule dvdI)
  with n show "computeBackoff job n = Some 0"
    unfolding computeBackoff_Default by (intro exponential_delay_wraps) auto
qed

theorem default_backoff_wraps_witness: "computeBackoff zero_row 60 = Some 0"
  using default_backoff_wraps [of zero_row 60] by simp

text \<open>
  \<^verbatim>\<open>fibonacci\<close>'s loop computes the Fibonacci numbers modulo 64-bit wrap-around, and exactly
  up to the 92nd, the last that fits; the delay of a Fibonacci backoff never exceeds its maximum.
\<close>

theorem fibonacci_correct:
  "fibonacci (int n) = int64 (fib n) \<and> (n \<le> 92 \<longrightarrow> fibonacci (int n) = fib n) \<and>
   (computeBackoffWithConfig (cfg\<lparr>Strategy := BackoffFibonacci\<rparr>) k = Some d \<longrightarrow> d \<le> MaxDelay cfg)"
proof (intro conjI impI)
  show "fibonacci (int n) = int64 (fib n)" by (rule fibonacci_eq_fib)
  show "fibonacci (int n) = fib n" if "n \<le> 92"
    using fib_mono [OF that] fib_92 fib_nonneg [of n]
    unfolding fibonacci_eq_fib by (intro int64_id) auto
  show "d \<le> MaxDelay cfg"
    if "computeBackoffWithConfig (cfg\<lparr>Strategy := BackoffFibonacci\<rparr>) k = Some d"
    using computeBackoffWithConfig_le [OF that] by simp
qed

theorem fibonacci_correct_witness: "fibonacci 10 = 55"
  using fibonacci_correct [of 10] by (simp add: eval_nat_numeral)

end
