(* ===== verification/Driver_Contract.thy ===== *)
theory Driver_Contract
  imports State_Machine
begin

text \<open>
  The contract of the \<^verbatim>\<open>Driver\<close> interface (\<^verbatim>\<open>driver.go\<close>) as far as the life of a job goes: an
  abstract automaton over the state, the attempt counter and the attempt limit of one row, the
  calls that move a row through it, and the locale \<open>job_store\<close> of stores whose calls follow the
  automaton. The clients' guarantees (how often a job is handed out, which states are final,
  which jobs can never run) are proved once in the locale and hold for every store that
  interprets it; \<^verbatim>\<open>Sql_Driver\<close> and \<^verbatim>\<open>Redis_Driver\<close> do.
\<close>


section \<open>The life of a job\<close>

record life =
  l_state :: State
  l_attempt :: int
  l_max :: int

definition life_of :: "JobRow \<Rightarrow> life" where
  "life_of r = \<lparr>l_state = State r, l_attempt = Attempt r, l_max = MaxAttempts r\<rparr>"

lemma life_of_sel [simp]:
  "l_state (life_of r) = State r" "l_attempt (life_of r) = Attempt r" "l_max (life_of r) = MaxAttempts r"
  by (simp_all add: life_of_def)

lemma life_of_eq_iff:
  "life_of r = life_of r' \<longleftrightarrow> State r = State r' \<and> Attempt r = Attempt r' \<and> MaxAttempts r = MaxAttempts r'"
  by (simp add: life_of_def)

datatype life_event = LClaim | LComplete | LFail | LScheduleRetry | LRetry | LCancel | LRequeue

definition waiting :: "State \<Rightarrow> bool" where
  "waiting s \<longleftrightarrow> s = StateAvailable \<or> s = StateScheduled \<or> s = StateRetryable"

fun life_step :: "life_event \<Rightarrow> life \<Rightarrow> life option" where
  "life_step LClaim l =
     (if waiting (l_state l) \<and> l_attempt l < l_max l
      then Some (l\<lparr>l_state := StateRunning, l_attempt := l_attempt l + 1\<rparr>) else None)"
| "life_step LComplete l =
     (if l_state l = StateRunning then Some (l\<lparr>l_state := StateCompleted\<rparr>) else None)"
| "life_step LFail l =
     (if l_state l = StateRunning \<or> l_state l = StateRetryable
      then Some (l\<lparr>l_state := StateFailed\<rparr>) else None)"
| "life_step LScheduleRetry l =
     (if l_state l = StateRunning then Some (l\<lparr>l_state := StateRetryable\<rparr>) else None)"
| "life_step LRetry l =
     (if l_state l \<in> {StateFailed, StateCompleted, StateCancelled, StateRetryable}
      then Some (l\<lparr>l_state := StateAvailable, l_attempt := 0\<rparr>) else None)"
| "life_step LCancel l =
     (if l_state l \<in> {StateAvailable, StatePending, StateScheduled, StateRetryable}
      then Some (l\<lparr>l_state := StateCancelled\<rparr>) else None)"
| "life_step LRequeue l =
     (if l_state l = StateRunning then Some (l\<lparr>l_state := StateAvailable\<rparr>) else None)"


lemma life_step_max: "life_step ev l = Some l' \<Longrightarrow> l_max l' = l_max l"
  by (cases ev) (auto split: if_splits)

lemma life_step_attempt:
  "life_step ev l = Some l' \<Longrightarrow> ev \<noteq> LRetry \<Longrightarrow>
    l_attempt l' = (if ev = LClaim then l_attempt l + 1 else l_attempt l)"
  by (cases ev) (auto split: if_splits)

lemma life_step_claim_bound:
  "life_step LClaim l = Some l' \<Longrightarrow> l_attempt l' \<le> l_max l'"
  by (auto split: if_splits)

lemma life_step_from_terminal:
  "life_step ev l = Some l' \<Longrightarrow> State_Terminal (l_state l) \<Longrightarrow> ev = LRetry"
  by (cases ev) (auto simp: State_Terminal_def waiting_def split: if_splits)

lemma life_step_from_pending:
  "life_step ev l = Some l' \<Longrightarrow> l_state l = StatePending \<Longrightarrow> ev = LCancel"
  by (cases ev) (auto simp: waiting_def split: if_splits)

lemma life_step_from_exhausted:
  "life_step ev l = Some l' \<Longrightarrow> l_state l = StateAvailable \<Longrightarrow> l_max l \<le> l_attempt l \<Longrightarrow> ev = LCancel"
  by (cases ev) (auto simp: waiting_def split: if_splits)

lemma life_step_from_running:
  "life_step ev l = Some l' \<Longrightarrow> l_state l = StateRunning \<Longrightarrow> ev \<notin> {LClaim, LRetry, LCancel}"
  by (cases ev) (auto simp: waiting_def split: if_splits)


text \<open>
  A life under a sequence of calls, each with the events it may cause: every call leaves the life alone or moves it by one of its events.
\<close>

inductive life_run :: "life_event set list \<Rightarrow> life \<Rightarrow> life \<Rightarrow> bool" where
  life_done: "life_run [] l l"
| life_stay: "life_run Es l l' \<Longrightarrow> life_run (E # Es) l l'"
| life_move: "ev \<in> E \<Longrightarrow> life_step ev l = Some l1 \<Longrightarrow> life_run Es l1 l' \<Longrightarrow> life_run (E # Es) l l'"

inductive_simps life_run_Nil_iff [simp]: "life_run [] l l'"
inductive_cases life_run_ConsE: "life_run (E # Es) l l'"

text \<open>
  The transitions of the code's table are not the ones the drivers make: five moves of a life are not in the table.
\<close>

definition beyond_table :: "(State \<times> State) set" where
  "beyond_table = {(StateScheduled, StateRunning), (StateRetryable, StateRunning), (StateRunning, StateAvailable),
     (StateRetryable, StateFailed), (StateCancelled, StateAvailable)}"

lemma life_step_edge:
  "life_step ev l = Some l' \<Longrightarrow> Transition_Valid (l_state l) (l_state l') \<or> (l_state l, l_state l') \<in> beyond_table"
  by (cases ev; cases "l_state l") (auto simp: waiting_def beyond_table_def Transition_Valid_simps split: if_splits)

lemma beyond_table_not_valid: "(a, b) \<in> beyond_table \<Longrightarrow> \<not> Transition_Valid a b"
  by (auto simp: beyond_table_def Transition_Valid_simps)


section \<open>Calls\<close>

text \<open>
  The calls of the \<^verbatim>\<open>Driver\<close> interface that write jobs, with the arguments that decide which rows
  they reach.
\<close>

datatype driver_op =
    OpEnqueue JobRow
  | OpEnqueueBatch "JobRow list"
  | OpClaim queue_name node_id int
  | OpComplete job_id "bytes option"
  | OpFail job_id "error option"
  | OpScheduleRetry job_id "error option" time
  | OpRetry job_id
  | OpRetryBatch "job_id list"
  | OpCancel job_id
  | OpCancelBatch "job_id list"
  | OpRequeueStale duration
  | OpPrune time "State list"

fun op_events :: "driver_op \<Rightarrow> job_id \<Rightarrow> life_event set" where
  "op_events (OpEnqueue _) i = {}"
| "op_events (OpEnqueueBatch _) i = {}"
| "op_events (OpClaim _ _ _) i = {LClaim}"
| "op_events (OpComplete j _) i = (if i = j then {LComplete} else {})"
| "op_events (OpFail j _) i = (if i = j then {LFail} else {})"
| "op_events (OpScheduleRetry j _ _) i = (if i = j then {LScheduleRetry} else {})"
| "op_events (OpRetry j) i = (if i = j then {LRetry} else {})"
| "op_events (OpRetryBatch js) i = (if i \<in> set js then {LRetry} else {})"
| "op_events (OpCancel j) i = (if i = j then {LCancel} else {})"
| "op_events (OpCancelBatch js) i = (if i \<in> set js then {LCancel} else {})"
| "op_events (OpRequeueStale _) i = {LRequeue}"
| "op_events (OpPrune _ _) i = {}"

text \<open>
  The rows handed to a driver for enqueueing: no state a row can only reach later, and no
  attempt made yet.
\<close>

definition enqueueable :: "JobRow \<Rightarrow> bool" where
  "enqueueable r \<longleftrightarrow> State r \<in> {StateAvailable, StateScheduled, StatePending} \<and> Attempt r = 0"

fun op_ok :: "driver_op \<Rightarrow> bool" where
  "op_ok (OpEnqueue r) = enqueueable r"
| "op_ok (OpEnqueueBatch rs) = list_all enqueueable rs"
| "op_ok _ = True"


text \<open>
  A run performs calls in sequence, as the store serialises them whichever process makes them;
  \<open>times_handed\<close> counts how often they hand out job \<open>i\<close>. \<open>avoids\<close> says that no call of a run may
  cause one of the given events on job \<open>i\<close>.
\<close>

fun run_calls :: "('c \<Rightarrow> 's \<Rightarrow> 's) \<Rightarrow> 'c list \<Rightarrow> 's \<Rightarrow> 's" where
  "run_calls exec [] s = s"
| "run_calls exec (c # cs) s = run_calls exec cs (exec c s)"

fun times_handed :: "('c \<Rightarrow> 's \<Rightarrow> 's) \<Rightarrow> ('c \<Rightarrow> 's \<Rightarrow> job_id list) \<Rightarrow> job_id \<Rightarrow> 'c list \<Rightarrow> 's \<Rightarrow> nat" where
  "times_handed exec handed i [] s = 0"
| "times_handed exec handed i (c # cs) s =
     (if i \<in> set (handed c s) then 1 else 0) + times_handed exec handed i cs (exec c s)"

definition avoids :: "('c \<Rightarrow> driver_op) \<Rightarrow> job_id \<Rightarrow> life_event set \<Rightarrow> 'c list \<Rightarrow> bool" where
  "avoids op_of i E cs \<longleftrightarrow> list_all (\<lambda>c. op_events (op_of c) i \<inter> E = {}) cs"

lemma avoids_Nil [simp]: "avoids op_of i E []"
  by (simp add: avoids_def)

lemma avoids_Cons [simp]:
  "avoids op_of i E (c # cs) \<longleftrightarrow> op_events (op_of c) i \<inter> E = {} \<and> avoids op_of i E cs"
  by (simp add: avoids_def)

definition calls_ok :: "('c \<Rightarrow> driver_op) \<Rightarrow> 'c list \<Rightarrow> bool" where
  "calls_ok op_of cs \<longleftrightarrow> list_all (\<lambda>c. op_ok (op_of c)) cs"

lemma calls_ok_Nil [simp]: "calls_ok op_of []"
  by (simp add: calls_ok_def)

lemma calls_ok_Cons [simp]: "calls_ok op_of (c # cs) \<longleftrightarrow> op_ok (op_of c) \<and> calls_ok op_of cs"
  by (simp add: calls_ok_def)


section \<open>Stores that follow the automaton\<close>

text \<open>
  \<open>row_step E r r'\<close>: the row keeps its life or takes one step by an event of \<open>E\<close>.
  \<open>store_step\<close> is what one call may do to a store with the reading function \<open>look\<close>, the invariant
  \<open>ok\<close> and the last id given out, \<open>issued\<close>: the invariant is kept, a row that is gone stays gone,
  for ids are not reused, and every row that survives takes a row step by the events at its id.
\<close>

definition row_step :: "life_event set \<Rightarrow> JobRow \<Rightarrow> JobRow \<Rightarrow> bool" where
  "row_step E r r' \<longleftrightarrow>
     life_of r' = life_of r \<or> (\<exists>ev \<in> E. life_step ev (life_of r) = Some (life_of r'))"

lemma row_step_refl [simp]: "row_step E r r"
  by (simp add: row_step_def)

definition store_step ::
    "('s \<Rightarrow> job_id \<Rightarrow> JobRow option) \<Rightarrow> ('s \<Rightarrow> bool) \<Rightarrow> ('s \<Rightarrow> nat) \<Rightarrow> (job_id \<Rightarrow> life_event set) \<Rightarrow> 's \<Rightarrow> 's \<Rightarrow> bool" where
  "store_step look ok issued E s s' \<longleftrightarrow>
     issued s \<le> issued s' \<and>
     (ok s \<longrightarrow> ok s' \<and>
        (\<forall>i. look s i = None \<longrightarrow> i \<le> issued s \<longrightarrow> look s' i = None) \<and>
        (\<forall>i r r'. look s i = Some r \<longrightarrow> look s' i = Some r' \<longrightarrow> row_step (E i) r r'))"

lemma store_step_refl [simp]: "store_step look ok issued E s s"
  by (auto simp: store_step_def)

text \<open>
  A store of jobs: \<open>exec\<close> performs a call, \<open>handed\<close> are the ids a claim gives to its caller. Every call
  is a store step by the events it may cause; whatever is handed out was claimed by that call.
\<close>

locale job_store =
  fixes look :: "'s \<Rightarrow> job_id \<Rightarrow> JobRow option"
    and inv :: "'s \<Rightarrow> bool"
    and op_of :: "'c \<Rightarrow> driver_op"
    and exec :: "'c \<Rightarrow> 's \<Rightarrow> 's"
    and handed :: "'c \<Rightarrow> 's \<Rightarrow> job_id list"
    and issued :: "'s \<Rightarrow> nat"
  assumes exec_step: "inv s \<Longrightarrow> op_ok (op_of c) \<Longrightarrow>
      store_step look inv issued (op_events (op_of c)) s (exec c s)"
    and handed_claims: "inv s \<Longrightarrow> i \<in> set (handed c s) \<Longrightarrow>
      \<exists>r r'. look s i = Some r \<and> look (exec c s) i = Some r' \<and>
        life_step LClaim (life_of r) = Some (life_of r')"
    and handed_op: "handed c s \<noteq> [] \<Longrightarrow> \<exists>q n m. op_of c = OpClaim q n m"
    and handed_distinct: "inv s \<Longrightarrow> distinct (handed c s)"
    and look_issued: "inv s \<Longrightarrow> look s i = Some r \<Longrightarrow> i \<le> issued s"
begin

lemma inv_exec: "inv s \<Longrightarrow> op_ok (op_of c) \<Longrightarrow> inv (exec c s)"
  using exec_step by (simp add: store_step_def)

lemma exec_life: "inv s \<Longrightarrow> op_ok (op_of c) \<Longrightarrow> look s i = Some r \<Longrightarrow> look (exec c s) i = Some r' \<Longrightarrow>
    row_step (op_events (op_of c) i) r r'"
  using exec_step [of s c] by (simp add: store_step_def)

lemma issued_mono: "inv s \<Longrightarrow> op_ok (op_of c) \<Longrightarrow> issued s \<le> issued (exec c s)"
  using exec_step by (simp add: store_step_def)

lemma look_gone: "inv s \<Longrightarrow> op_ok (op_of c) \<Longrightarrow> look s i = None \<Longrightarrow> i \<le> issued s \<Longrightarrow> look (exec c s) i = None"
  using exec_step by (simp add: store_step_def)

lemma run_inv: "inv s \<Longrightarrow> calls_ok op_of cs \<Longrightarrow> inv (run_calls exec cs s)"
  by (induction cs arbitrary: s) (auto simp: inv_exec)

lemma gone_never_handed:
  "inv s \<Longrightarrow> calls_ok op_of cs \<Longrightarrow> look s i = None \<Longrightarrow> i \<le> issued s \<Longrightarrow>
    times_handed exec handed i cs s = 0 \<and> look (run_calls exec cs s) i = None"
proof (induction cs arbitrary: s)
  case Nil
  then show ?case by simp
next
  case (Cons c cs)
  have "i \<notin> set (handed c s)"
    using handed_claims [OF Cons.prems(1), of i c] Cons.prems(3) by auto
  moreover have "look (exec c s) i = None"
    using Cons.prems by (simp add: look_gone)
  moreover have "i \<le> issued (exec c s)"
    using Cons.prems issued_mono [of s c] by simp
  ultimately show ?case
    using Cons.IH [of "exec c s"] Cons.prems by (simp add: inv_exec)
qed

lemma gone_after:
  assumes "inv s" "calls_ok op_of (c # cs)" "look s i = Some r" "look (exec c s) i = None"
  shows "times_handed exec handed i cs (exec c s) = 0 \<and> look (run_calls exec cs (exec c s)) i = None"
proof (rule gone_never_handed)
  show "i \<le> issued (exec c s)"
    using look_issued [OF assms(1,3)] issued_mono [of s c] assms(1,2) by simp
qed (use assms in \<open>simp_all add: inv_exec\<close>)

text \<open>
  One call and one row: the row is gone, or its life is unchanged and it is not handed out, or it
  took a step the call may cause.
\<close>

lemma exec_cases:
  assumes "inv s" "look s i = Some r" "op_ok (op_of c)"
  obtains (gone) "look (exec c s) i = None" "i \<notin> set (handed c s)"
  | (same) r' where "look (exec c s) i = Some r'" "life_of r' = life_of r" "i \<notin> set (handed c s)"
  | (step) r' ev where "look (exec c s) i = Some r'" "ev \<in> op_events (op_of c) i"
      "life_step ev (life_of r) = Some (life_of r')" "i \<in> set (handed c s) \<Longrightarrow> ev = LClaim"
proof (cases "look (exec c s) i")
  case None
  then have "i \<notin> set (handed c s)"
    using handed_claims [OF assms(1), of i c] by auto
  with None show ?thesis by (rule gone)
next
  case (Some r')
  show ?thesis
  proof (cases "i \<in> set (handed c s)")
    case True
    then obtain q n m where "op_of c = OpClaim q n m"
      using handed_op [of c s] by force
    moreover have "life_step LClaim (life_of r) = Some (life_of r')"
      using handed_claims [OF assms(1) True] assms(2) Some by auto
    ultimately show ?thesis using Some by (intro step [of r' LClaim]) auto
  next
    case False
    from exec_life [OF assms(1,3,2) Some] show ?thesis
      using same [OF Some _ False] step [OF Some] False unfolding row_step_def by blast
  qed
qed

text \<open>The rows refine the automaton: over any calls the life of a row that survives is a run of it.\<close>

lemma run_life:
  "inv s \<Longrightarrow> calls_ok op_of cs \<Longrightarrow> look s i = Some r \<Longrightarrow> look (run_calls exec cs s) i = Some r' \<Longrightarrow>
    life_run (map (\<lambda>c. op_events (op_of c) i) cs) (life_of r) (life_of r')"
proof (induction cs arbitrary: s r)
  case Nil
  then show ?case by simp
next
  case (Cons c cs)
  have inv': "inv (exec c s)" and ok: "op_ok (op_of c)" using Cons.prems by (simp_all add: inv_exec)
  from \<open>inv s\<close> \<open>look s i = Some r\<close> ok show ?case
  proof (cases rule: exec_cases [where c = c])
    case gone
    with gone_after [OF Cons.prems(1,2,3)] Cons.prems(4) show ?thesis by simp
  next
    case (same r1)
    with Cons.IH [OF inv' _ same(1)] Cons.prems show ?thesis by (auto intro: life_stay)
  next
    case (step r1 ev)
    with Cons.IH [OF inv' _ step(1)] Cons.prems show ?thesis by (auto intro: life_move)
  qed
qed

text \<open>Without a manual retry, a job is handed out at most as often as it has attempts left.\<close>

lemma handed_at_most:
  "inv s \<Longrightarrow> calls_ok op_of cs \<Longrightarrow>
    avoids op_of i {LRetry} cs \<Longrightarrow>
    look s i = Some r \<Longrightarrow> times_handed exec handed i cs s \<le> nat (MaxAttempts r - Attempt r)"
proof (induction cs arbitrary: s r)
  case Nil
  then show ?case by simp
next
  case (Cons c cs)
  have inv': "inv (exec c s)" and ok: "op_ok (op_of c)" using Cons.prems by (simp_all add: inv_exec)
  have IH: "times_handed exec handed i cs (exec c s) \<le> nat (MaxAttempts r' - Attempt r')"
    if "look (exec c s) i = Some r'" for r'
    using Cons.IH [OF inv'] Cons.prems that by simp
  from \<open>inv s\<close> \<open>look s i = Some r\<close> ok show ?case
  proof (cases rule: exec_cases [where c = c])
    case gone
    with gone_after [OF Cons.prems(1,2,4)] show ?thesis by simp
  next
    case (same r')
    with IH [OF same(1)] show ?thesis by (simp add: life_of_eq_iff)
  next
    case (step r' ev)
    have "ev \<noteq> LRetry" using Cons.prems(3) step(2) by auto
    with life_step_attempt [OF step(3)] life_step_max [OF step(3)]
    have att: "Attempt r' = (if ev = LClaim then Attempt r + 1 else Attempt r)" "MaxAttempts r' = MaxAttempts r"
      by simp_all
    show ?thesis
    proof (cases "i \<in> set (handed c s)")
      case True
      then have "ev = LClaim" by (rule step(4))
      with step(3) life_step_claim_bound [of "life_of r" "life_of r'"] have "Attempt r' \<le> MaxAttempts r'" by simp
      with IH [OF step(1)] att \<open>ev = LClaim\<close> True show ?thesis by simp
    next
      case False
      with IH [OF step(1)] att show ?thesis by (cases "ev = LClaim") auto
    qed
  qed
qed

text \<open>
  A row in a state all of whose exits are events of a set \<open>E\<close> stays there, and is never handed
  out, as long as no call may cause an event of \<open>E\<close> on it.
\<close>

lemma stuck:
  assumes exits: "\<And>l ev l'. P l \<Longrightarrow> life_step ev l = Some l' \<Longrightarrow> ev \<in> E" and "LClaim \<notin> E"
  shows "inv s \<Longrightarrow> calls_ok op_of cs \<Longrightarrow>
    avoids op_of i E cs \<Longrightarrow>
    look s i = Some r \<Longrightarrow> P (life_of r) \<Longrightarrow>
    times_handed exec handed i cs s = 0 \<and> (\<forall>r'. look (run_calls exec cs s) i = Some r' \<longrightarrow> life_of r' = life_of r)"
proof (induction cs arbitrary: s r)
  case Nil
  then show ?case by simp
next
  case (Cons c cs)
  have inv': "inv (exec c s)" and ok: "op_ok (op_of c)" using Cons.prems by (simp_all add: inv_exec)
  from \<open>inv s\<close> \<open>look s i = Some r\<close> ok show ?case
  proof (cases rule: exec_cases [where c = c])
    case gone
    with gone_after [OF Cons.prems(1,2,4)] show ?thesis by simp
  next
    case (same r')
    with Cons.IH [OF inv', of r'] Cons.prems show ?thesis by simp
  next
    case (step r' ev)
    with exits Cons.prems(3,5) have False by auto
    then show ?thesis ..
  qed
qed

lemma terminal_stuck:
  assumes "inv s" "calls_ok op_of cs" "avoids op_of i {LRetry} cs" "look s i = Some r" "State_Terminal (State r)"
  shows "times_handed exec handed i cs s = 0 \<and>
    (\<forall>r'. look (run_calls exec cs s) i = Some r' \<longrightarrow> life_of r' = life_of r)"
  by (rule stuck [where P = "\<lambda>l. State_Terminal (l_state l)", OF _ _ assms(1-4)])
    (use assms(5) life_step_from_terminal in auto)

lemma pending_stuck:
  assumes "inv s" "calls_ok op_of cs" "avoids op_of i {LCancel} cs" "look s i = Some r" "State r = StatePending"
  shows "times_handed exec handed i cs s = 0 \<and>
    (\<forall>r'. look (run_calls exec cs s) i = Some r' \<longrightarrow> life_of r' = life_of r)"
  by (rule stuck [where P = "\<lambda>l. l_state l = StatePending", OF _ _ assms(1-4)])
    (use assms(5) life_step_from_pending in auto)

lemma exhausted_stuck:
  assumes "inv s" "calls_ok op_of cs" "avoids op_of i {LCancel} cs" "look s i = Some r"
    "State r = StateAvailable" "MaxAttempts r \<le> Attempt r"
  shows "times_handed exec handed i cs s = 0 \<and>
    (\<forall>r'. look (run_calls exec cs s) i = Some r' \<longrightarrow> life_of r' = life_of r)"
  by (rule stuck [where P = "\<lambda>l. l_state l = StateAvailable \<and> l_max l \<le> l_attempt l", OF _ _ assms(1-4)])
    (use assms(5,6) life_step_from_exhausted in auto)

text \<open>The same of a job that never had an attempt, available or scheduled.\<close>

lemma no_attempts_stuck:
  assumes "inv s" "calls_ok op_of cs" "avoids op_of i {LCancel} cs" "look s i = Some r"
    "State r = StateAvailable \<or> State r = StateScheduled" "MaxAttempts r \<le> Attempt r"
  shows "times_handed exec handed i cs s = 0 \<and>
    (\<forall>r'. look (run_calls exec cs s) i = Some r' \<longrightarrow> life_of r' = life_of r)"
proof (rule stuck [where P = "\<lambda>l. (l_state l = StateAvailable \<or> l_state l = StateScheduled) \<and> l_max l \<le> l_attempt l", OF _ _ assms(1-4)])
  show "ev \<in> {LCancel}" if "(l_state l = StateAvailable \<or> l_state l = StateScheduled) \<and> l_max l \<le> l_attempt l" "life_step ev l = Some l'"
    for l ev l' using that by (cases ev) (auto simp: waiting_def split: if_splits)
qed (use assms(5,6) in auto)

text \<open>
  Exclusive hand-out: while a job is running, and nothing reports on it or re-queues it, no claim
  returns it.
\<close>

lemma running_exclusive:
  assumes "inv s" "calls_ok op_of cs" "avoids op_of i {LComplete, LFail, LScheduleRetry, LRequeue} cs"
    "look s i = Some r" "State r = StateRunning"
  shows "times_handed exec handed i cs s = 0 \<and>
    (\<forall>r'. look (run_calls exec cs s) i = Some r' \<longrightarrow> life_of r' = life_of r)"
proof (rule stuck [where P = "\<lambda>l. l_state l = StateRunning", OF _ _ assms(1-4)])
  show "ev \<in> {LComplete, LFail, LScheduleRetry, LRequeue}"
    if "l_state l = StateRunning" "life_step ev l = Some l'" for l ev l'
    using life_step_from_running [OF that(2,1)] by (cases ev) auto
qed (use assms(5) in auto)

end

end
