(* ===== verification/Dispatch.thy ===== *)
theory Dispatch
  imports Driver_Contract
begin

text \<open>
  Dispatching: the options of \<^verbatim>\<open>job.go\<close>, the manager of \<^verbatim>\<open>tasker.go\<close> and \<^verbatim>\<open>provider.go\<close>, and the process-wide
  registries of \<^verbatim>\<open>registry.go\<close>. A job is what the dispatch code can observe of it: the name of its Go type,
  what marshalling it gives, and, for every optional interface, the value its method returns when the type
  implements it.
\<close>


section \<open>Jobs, options, configuration\<close>

record Job =
  j_kind :: string
  j_payload :: "error + bytes"
  j_Queue :: "queue_name option"
  j_Delay :: "duration option"
  j_MaxAttempts :: "int option"
  j_Tags :: "string list option option"
  j_BatchID :: "string option"
  j_Timeout :: "duration option"

record dispatchOptions =
  o_queue :: queue_name
  o_delay :: duration
  o_priority :: int
  o_batchID :: string
  o_tags :: "string list option"
  o_metadata :: "(string \<rightharpoonup> string) option"

definition no_options :: dispatchOptions where
  "no_options = \<lparr>o_queue = [], o_delay = 0, o_priority = 0, o_batchID = [], o_tags = None, o_metadata = None\<rparr>"

type_synonym DispatchOpt = "dispatchOptions \<Rightarrow> dispatchOptions"

definition OnQueue :: "queue_name \<Rightarrow> DispatchOpt" where "OnQueue name o1 = o1\<lparr>o_queue := name\<rparr>"
definition WithDelay :: "duration \<Rightarrow> DispatchOpt" where "WithDelay d o1 = o1\<lparr>o_delay := d\<rparr>"
definition WithPriority :: "int \<Rightarrow> DispatchOpt" where "WithPriority p o1 = o1\<lparr>o_priority := p\<rparr>"
definition WithBatchID :: "string \<Rightarrow> DispatchOpt" where "WithBatchID b o1 = o1\<lparr>o_batchID := b\<rparr>"

text \<open>A call with no tags passes a nil slice.\<close>

definition WithTags :: "string list \<Rightarrow> DispatchOpt" where
  "WithTags ts o1 = o1\<lparr>o_tags := (if ts = [] then None else Some ts)\<rparr>"

definition WithMetadata :: "string \<Rightarrow> string \<Rightarrow> DispatchOpt" where
  "WithMetadata k v o1 = o1\<lparr>o_metadata :=
     Some ((case o_metadata o1 of None \<Rightarrow> Map.empty | Some m \<Rightarrow> m)(k \<mapsto> v))\<rparr>"

definition apply_options :: "DispatchOpt list \<Rightarrow> dispatchOptions" where
  "apply_options opts = fold (\<lambda>opt o1. opt o1) opts no_options"

record ManagerConfig =
  DefaultQueue :: queue_name
  DefaultMaxAttempts :: int
  DefaultTimeout :: duration
  cfg_NodeID :: node_id

text \<open>\<open>fresh\<close> is the node id \<^verbatim>\<open>DefaultConfig\<close> generates from a new UUID.\<close>

definition DefaultConfig :: "node_id \<Rightarrow> ManagerConfig" where
  "DefaultConfig fresh = \<lparr>DefaultQueue = ''default'', DefaultMaxAttempts = 3, DefaultTimeout = 0, cfg_NodeID = fresh\<rparr>"

type_synonym ManagerOption = "ManagerConfig \<Rightarrow> ManagerConfig"

definition WithDefaultQueue :: "queue_name \<Rightarrow> ManagerOption" where "WithDefaultQueue name c = c\<lparr>DefaultQueue := name\<rparr>"
definition WithMaxAttempts :: "int \<Rightarrow> ManagerOption" where "WithMaxAttempts n c = c\<lparr>DefaultMaxAttempts := n\<rparr>"
definition WithDefaultTimeout :: "duration \<Rightarrow> ManagerOption" where "WithDefaultTimeout t c = c\<lparr>DefaultTimeout := t\<rparr>"
definition WithNodeID :: "node_id \<Rightarrow> ManagerOption" where
  "WithNodeID i c = (if i = [] then c else c\<lparr>cfg_NodeID := i\<rparr>)"

definition NewManager :: "node_id \<Rightarrow> ManagerOption list \<Rightarrow> ManagerConfig" where
  "NewManager fresh opts = fold (\<lambda>opt c. opt c) opts (DefaultConfig fresh)"

record Config =
  app_DefaultQueue :: queue_name
  app_DefaultMaxAttempts :: int
  app_NodeID :: node_id

definition DefaultAppConfig :: "node_id \<Rightarrow> Config" where
  "DefaultAppConfig fresh = \<lparr>app_DefaultQueue = DefaultQueue (DefaultConfig fresh),
     app_DefaultMaxAttempts = DefaultMaxAttempts (DefaultConfig fresh), app_NodeID = cfg_NodeID (DefaultConfig fresh)\<rparr>"

definition NewConfiguredManager :: "node_id \<Rightarrow> Config \<Rightarrow> ManagerConfig" where
  "NewConfiguredManager fresh cfg = NewManager fresh
     [WithDefaultQueue (app_DefaultQueue cfg), WithMaxAttempts (app_DefaultMaxAttempts cfg), WithNodeID (app_NodeID cfg)]"


section \<open>Building a row\<close>

text \<open>The clock is read three times: for the schedule, for the comparison and for the creation time.\<close>

record build_env =
  b_now :: "nat \<Rightarrow> time"
  b_uuid :: string

definition buildJobRow :: "build_env \<Rightarrow> Job \<Rightarrow> ManagerConfig \<Rightarrow> DispatchOpt list \<Rightarrow> error + JobRow" where
  "buildJobRow env job cfg opts =
     (case j_payload job of
        Inl e \<Rightarrow> Inl (Wrapf ''failed to marshal job payload'' e)
      | Inr payload \<Rightarrow>
          let dOpts = apply_options opts;
              queue0 = (if o_queue dOpts \<noteq> [] then o_queue dOpts else DefaultQueue cfg);
              queue = (case j_Queue job of Some q \<Rightarrow> if o_queue dOpts = [] then q else queue0 | None \<Rightarrow> queue0);
              maxAttempts = (case j_MaxAttempts job of Some n \<Rightarrow> n | None \<Rightarrow> DefaultMaxAttempts cfg);
              scheduledAt = (if 0 < o_delay dOpts then b_now env 0 + o_delay dOpts
                else case j_Delay job of Some d \<Rightarrow> b_now env 0 + d | None \<Rightarrow> b_now env 0);
              tags = (if o_tags dOpts \<noteq> None then o_tags dOpts else case j_Tags job of Some ts \<Rightarrow> ts | None \<Rightarrow> None);
              state = (if b_now env 1 < scheduledAt then StateScheduled else StateAvailable);
              batchID = (if o_batchID dOpts \<noteq> [] then o_batchID dOpts else case j_BatchID job of Some b \<Rightarrow> b | None \<Rightarrow> []);
              timeout = (case j_Timeout job of Some t \<Rightarrow> t | None \<Rightarrow> DefaultTimeout cfg)
          in Inr (zero_row\<lparr>UUID := b_uuid env, Queue := queue, Kind := j_kind job, Payload := payload, State := state,
               Priority := o_priority dOpts, Attempt := 0, MaxAttempts := maxAttempts, Tags := tags, ScheduledAt := scheduledAt,
               CreatedAt := b_now env 2, BatchID := batchID, Timeout := timeout, Metadata := o_metadata dOpts\<rparr>))"

text \<open>The loop of \<^verbatim>\<open>DispatchBatch\<close>; \<open>envs i\<close> is what the clock and the UUID generator give for job \<open>i\<close>.\<close>

fun build_rows :: "(nat \<Rightarrow> build_env) \<Rightarrow> nat \<Rightarrow> Job list \<Rightarrow> ManagerConfig \<Rightarrow> DispatchOpt list \<Rightarrow> error + JobRow list" where
  "build_rows envs i [] cfg opts = Inr []"
| "build_rows envs i (job # js) cfg opts =
     (case buildJobRow (envs i) job cfg opts of
        Inl e \<Rightarrow> Inl e
      | Inr row \<Rightarrow> (case build_rows envs (i + 1) js cfg opts of Inl e \<Rightarrow> Inl e | Inr rows \<Rightarrow> Inr (row # rows)))"

text \<open>The loop of \<^verbatim>\<open>Chain\<close>; \<open>prev\<close> is the UUID of the row before, none for the first.\<close>

definition link_row :: "string option \<Rightarrow> JobRow \<Rightarrow> JobRow" where
  "link_row prev row =
     (case prev of
        None \<Rightarrow> row
      | Some parent \<Rightarrow> row\<lparr>
          Metadata := Some ((case Metadata row of None \<Rightarrow> Map.empty | Some m \<Rightarrow> m)(''parent_id'' \<mapsto> parent)),
          State := StatePending\<rparr>)"

fun chain_rows :: "(nat \<Rightarrow> build_env) \<Rightarrow> nat \<Rightarrow> string option \<Rightarrow> Job list \<Rightarrow> ManagerConfig \<Rightarrow> DispatchOpt list \<Rightarrow> error + JobRow list" where
  "chain_rows envs i prev [] cfg opts = Inr []"
| "chain_rows envs i prev (job # js) cfg opts =
     (case buildJobRow (envs i) job cfg opts of
        Inl e \<Rightarrow> Inl e
      | Inr row \<Rightarrow>
          (case chain_rows envs (i + 1) (Some (UUID row)) js cfg opts of
             Inl e \<Rightarrow> Inl e | Inr rows \<Rightarrow> Inr (link_row prev row # rows)))"


section \<open>Enqueueing through the middlewares\<close>

text \<open>
  A dispatch middleware acts on the rows, which it may write, and on the driver through \<^verbatim>\<open>next\<close>; \<open>'d\<close> is the state of the
  driver. The two enqueue operations of the driver are parameters: they return the error and the rows with their ids.
\<close>

type_synonym 'd enqueue_act = "JobRow list \<times> 'd \<Rightarrow> error option \<times> (JobRow list \<times> 'd)"
type_synonym 'd DispatchMiddleware = "'d enqueue_act \<Rightarrow> 'd enqueue_act"
type_synonym 'd batch_op = "JobRow list \<Rightarrow> 'd \<Rightarrow> (error option \<times> JobRow list) \<times> 'd"
type_synonym 'd single_op = "JobRow \<Rightarrow> 'd \<Rightarrow> (error option \<times> JobRow) \<times> 'd"

definition send_batch :: "'d batch_op \<Rightarrow> 'd enqueue_act" where
  "send_batch EnqueueBatch s = (case s of (rows, d) \<Rightarrow>
     (case EnqueueBatch rows d of ((err, rows'), d') \<Rightarrow> (err, (rows', d'))))"

definition send_one :: "'d single_op \<Rightarrow> 'd enqueue_act" where
  "send_one Enqueue s = (case s of (rows, d) \<Rightarrow>
     (case Enqueue (hd rows) d of ((err, row'), d') \<Rightarrow> (err, ([row'], d'))))"

definition enqueue :: "'d DispatchMiddleware list \<Rightarrow> 'd enqueue_act \<Rightarrow> 'd enqueue_act" where
  "enqueue middlewares send = wrap_all middlewares send"

definition Dispatch ::
    "'d single_op \<Rightarrow> 'd DispatchMiddleware list \<Rightarrow> ManagerConfig \<Rightarrow> build_env \<Rightarrow> Job \<Rightarrow> DispatchOpt list \<Rightarrow> 'd \<Rightarrow> (error + JobRow) \<times> 'd" where
  "Dispatch Enqueue mws cfg env job opts d =
     (case buildJobRow env job cfg opts of
        Inl e \<Rightarrow> (Inl e, d)
      | Inr row \<Rightarrow>
          (case enqueue mws (send_one Enqueue) ([row], d) of
             (Some e, (_, d')) \<Rightarrow> (Inl e, d') | (None, (rows, d')) \<Rightarrow> (Inr (hd rows), d')))"

definition dispatch_rows ::
    "'d batch_op \<Rightarrow> 'd DispatchMiddleware list \<Rightarrow> error + JobRow list \<Rightarrow> 'd \<Rightarrow> (error + JobRow list) \<times> 'd" where
  "dispatch_rows EnqueueBatch mws built d =
     (case built of
        Inl e \<Rightarrow> (Inl e, d)
      | Inr rows \<Rightarrow>
          (case enqueue mws (send_batch EnqueueBatch) (rows, d) of
             (Some e, (_, d')) \<Rightarrow> (Inl e, d') | (None, (rows', d')) \<Rightarrow> (Inr rows', d')))"

definition DispatchBatch ::
    "'d batch_op \<Rightarrow> 'd DispatchMiddleware list \<Rightarrow> ManagerConfig \<Rightarrow> (nat \<Rightarrow> build_env) \<Rightarrow> Job list \<Rightarrow> DispatchOpt list \<Rightarrow> 'd \<Rightarrow> (error + JobRow list) \<times> 'd" where
  "DispatchBatch EnqueueBatch mws cfg envs js opts d = dispatch_rows EnqueueBatch mws (build_rows envs 0 js cfg opts) d"

definition Chain ::
    "'d batch_op \<Rightarrow> 'd DispatchMiddleware list \<Rightarrow> ManagerConfig \<Rightarrow> (nat \<Rightarrow> build_env) \<Rightarrow> Job list \<Rightarrow> DispatchOpt list \<Rightarrow> 'd \<Rightarrow> (error + JobRow list) \<times> 'd" where
  "Chain EnqueueBatch mws cfg envs js opts d = dispatch_rows EnqueueBatch mws (chain_rows envs 0 None js cfg opts) d"


section \<open>Registries\<close>

record ('f, 'm, 'w) registry =
  jobRegistry :: "(string \<times> 'f) list"
  globalMiddlewares :: "'m list"
  dispatchMiddlewares :: "'w list"

definition RegisterJob :: "string \<Rightarrow> 'f \<Rightarrow> ('f, 'm, 'w) registry \<Rightarrow> ('f, 'm, 'w) registry" where
  "RegisterJob name factory reg = reg\<lparr>jobRegistry := (name, factory) # filter (\<lambda>(n, _). n \<noteq> name) (jobRegistry reg)\<rparr>"

definition GetRegisteredJob :: "string \<Rightarrow> ('f, 'm, 'w) registry \<Rightarrow> 'f option" where
  "GetRegisteredJob name reg = map_of (jobRegistry reg) name"

definition ListRegisteredJobs :: "('f, 'm, 'w) registry \<Rightarrow> string list" where
  "ListRegisteredJobs reg = map fst (jobRegistry reg)"

definition AddGlobalMiddleware :: "'m \<Rightarrow> ('f, 'm, 'w) registry \<Rightarrow> ('f, 'm, 'w) registry" where
  "AddGlobalMiddleware mw reg = reg\<lparr>globalMiddlewares := globalMiddlewares reg @ [mw]\<rparr>"

definition SetGlobalMiddlewares :: "'m list \<Rightarrow> ('f, 'm, 'w) registry \<Rightarrow> ('f, 'm, 'w) registry" where
  "SetGlobalMiddlewares mws reg = reg\<lparr>globalMiddlewares := mws\<rparr>"

definition AddDispatchMiddleware :: "'w option \<Rightarrow> ('f, 'm, 'w) registry \<Rightarrow> ('f, 'm, 'w) registry" where
  "AddDispatchMiddleware mw reg =
     (case mw of None \<Rightarrow> reg | Some w \<Rightarrow> reg\<lparr>dispatchMiddlewares := dispatchMiddlewares reg @ [w]\<rparr>)"

definition SetDispatchMiddlewares :: "'w list \<Rightarrow> ('f, 'm, 'w) registry \<Rightarrow> ('f, 'm, 'w) registry" where
  "SetDispatchMiddlewares mws reg = reg\<lparr>dispatchMiddlewares := mws\<rparr>"

end
