(* ===== verification/Worker.thy ===== *)
theory Worker
  imports Dispatch
begin

text \<open>
  Executing: the worker of \<^verbatim>\<open>pool.go\<close> with the middlewares of \<^verbatim>\<open>middleware.go\<close> and the context of \<^verbatim>\<open>job_context.go\<close>. Everything
  the job's code may write is a state \<open>'s\<close>, a panic carries a value of \<open>'p\<close>; a hook of an optional interface is present when
  the job's type implements it. The driver is a function from a call to its result, on the driver's state \<open>'d\<close>.
\<close>


section \<open>Contexts, handlers, middlewares\<close>

record ctx =
  c_row :: "JobRow option"
  c_deadline :: "time option"

definition ContextWithRow :: "ctx \<Rightarrow> JobRow option \<Rightarrow> ctx" where
  "ContextWithRow c row = (case row of None \<Rightarrow> c | Some r \<Rightarrow> c\<lparr>c_row := Some r\<rparr>)"

definition RowFromContext :: "ctx \<Rightarrow> JobRow option" where
  "RowFromContext c = c_row c"

type_synonym ('s, 'p) handler = "ctx \<Rightarrow> ('s, error option, 'p) act"
type_synonym ('s, 'p) JobMiddleware = "bytes \<Rightarrow> ('s, 'p) handler \<Rightarrow> ('s, 'p) handler"

definition LoggingMiddleware :: "('s, 'p) JobMiddleware" where
  "LoggingMiddleware payload next c s = next c s"

definition RecoveryMiddleware :: "('p \<Rightarrow> string) \<Rightarrow> ('s, 'p) JobMiddleware" where
  "RecoveryMiddleware show_panic payload next c s =
     (case next c s of
        (Panic p, s') \<Rightarrow> (Ret (Some (Errorf (''panic recovered: '' @ show_panic p))), s')
      | r \<Rightarrow> r)"

record ('s, 'p) JobObj =
  h_Handle :: "('s, 'p) handler"
  h_BeforeHandle :: "('s, 'p) handler option"
  h_AfterHandle :: "('s, 'p) handler option"
  h_Middleware :: "('s, 'p) JobMiddleware list option"
  h_RetryBackoff :: "BackoffConfig option"
  h_RetryUntil :: "time option"
  h_BeforeRetry :: "(int \<Rightarrow> error \<Rightarrow> ('s, 'p) handler) option"
  h_Failed :: "(bytes \<Rightarrow> error option \<Rightarrow> ('s, 'p) handler) option"

text \<open>
  A factory with \<^verbatim>\<open>json.Unmarshal\<close> into the job it makes: from the payload to the job or the decoding error.
\<close>

type_synonym ('s, 'p) JobFactory = "bytes \<Rightarrow> error + ('s, 'p) JobObj"
type_synonym ('s, 'p, 'w) worker_registry = "(('s, 'p) JobFactory, ('s, 'p) JobMiddleware, 'w) registry"

text \<open>What the clock gives: for the deadline, for \<^verbatim>\<open>RetryUntil\<close> and for the retry time; and how a panic is printed.\<close>

record 'p worker_env =
  w_now :: "nat \<Rightarrow> time"
  w_show :: "'p \<Rightarrow> string"


section \<open>Running a job\<close>

definition run_hook :: "string \<Rightarrow> ('s, 'p) handler option \<Rightarrow> ('s, 'p) handler" where
  "run_hook name hook c s =
     (case hook of
        None \<Rightarrow> (Ret None, s)
      | Some h \<Rightarrow> (case h c s of (Ret (Some e), s') \<Rightarrow> (Ret (Some (Wrapf name e)), s') | r \<Rightarrow> r))"

definition runFunc :: "('s, 'p) JobObj \<Rightarrow> ('s, 'p) handler" where
  "runFunc obj c s =
     (case run_hook ''before handle hook'' (h_BeforeHandle obj) c s of
        (Ret None, s1) \<Rightarrow>
          (case h_Handle obj c s1 of
             (Ret None, s2) \<Rightarrow> run_hook ''after handle hook'' (h_AfterHandle obj) c s2
           | r \<Rightarrow> r)
      | r \<Rightarrow> r)"

definition collectMiddlewares :: "('s, 'p, 'w) worker_registry \<Rightarrow> ('s, 'p) JobObj \<Rightarrow> ('s, 'p) JobMiddleware list" where
  "collectMiddlewares reg obj =
     globalMiddlewares reg @ (case h_Middleware obj of None \<Rightarrow> [] | Some mws \<Rightarrow> mws)"

definition worker_decodeJob :: "('s, 'p, 'w) worker_registry \<Rightarrow> string \<Rightarrow> bytes \<Rightarrow> error + ('s, 'p) JobObj" where
  "worker_decodeJob reg kind payload =
     (case GetRegisteredJob kind reg of
        None \<Rightarrow> Inl (Errorf (''no job registered for kind: '' @ kind))
      | Some factory \<Rightarrow> factory payload)"

text \<open>The chain of middlewares around \<^verbatim>\<open>runFunc\<close>, under the \<^verbatim>\<open>recover\<close> of the worker.\<close>

definition run_recovered ::
    "('p \<Rightarrow> string) \<Rightarrow> ('s, 'p) JobMiddleware list \<Rightarrow> ('s, 'p) JobObj \<Rightarrow> bytes \<Rightarrow> ctx \<Rightarrow> 's \<Rightarrow> error option \<times> 's" where
  "run_recovered show_panic mws obj payload c s =
     (case wrap_all (map (\<lambda>mw. mw payload) mws) (runFunc obj) c s of
        (Ret e, s') \<Rightarrow> (e, s')
      | (Panic p, s') \<Rightarrow> (Some (Errorf (''panic: '' @ show_panic p)), s'))"

record execResult =
  er_state :: State
  er_err :: "error option"
  er_backoff :: duration

definition completed_result :: execResult where
  "completed_result = \<lparr>er_state = StateCompleted, er_err = None, er_backoff = 0\<rparr>"

definition failed_result :: "error \<Rightarrow> execResult" where
  "failed_result e = \<lparr>er_state = StateFailed, er_err = Some e, er_backoff = 0\<rparr>"

text \<open>
  After an error: the next state and the backoff, adjusted by the job's own backoff, its retry deadline and its hook. \<open>None\<close> is the
  runtime panic of a negative shift; the hook's own panic is passed on.
\<close>

definition decide_retry ::
    "'p worker_env \<Rightarrow> ('s, 'p) JobObj \<Rightarrow> JobRow \<Rightarrow> ctx \<Rightarrow> error \<Rightarrow> 's \<Rightarrow> (execResult, 'p option) outcome \<times> 's" where
  "decide_retry env obj job c execErr s =
     (case ComputeNextState job (Some execErr) of
        None \<Rightarrow> (Panic None, s)
      | Some (nextState, backoff0) \<Rightarrow>
          if nextState \<noteq> StateRetryable
          then (Ret \<lparr>er_state = nextState, er_err = Some execErr, er_backoff = backoff0\<rparr>, s)
          else (case (case h_RetryBackoff obj of None \<Rightarrow> Some backoff0 | Some cfg \<Rightarrow> computeBackoffWithConfig cfg (int64 (Attempt job + 1))) of
             None \<Rightarrow> (Panic None, s)
           | Some backoff \<Rightarrow>
               if (case h_RetryUntil obj of None \<Rightarrow> False | Some deadline \<Rightarrow> \<not> (w_now env 1 + backoff < deadline))
               then (Ret (failed_result execErr), s)
               else (case h_BeforeRetry obj of
                  None \<Rightarrow> (Ret \<lparr>er_state = StateRetryable, er_err = Some execErr, er_backoff = backoff\<rparr>, s)
                | Some hook \<Rightarrow>
                    (case hook (Attempt job) execErr c s of
                       (Ret None, s') \<Rightarrow> (Ret \<lparr>er_state = StateRetryable, er_err = Some execErr, er_backoff = backoff\<rparr>, s')
                     | (Ret (Some hookErr), s') \<Rightarrow> (Ret (failed_result (Wrapf ''before retry hook'' hookErr)), s')
                     | (Panic p, s') \<Rightarrow> (Panic (Some p), s')))))"

definition processJob ::
    "'p worker_env \<Rightarrow> ('s, 'p, 'w) worker_registry \<Rightarrow> ctx \<Rightarrow> JobRow \<Rightarrow> 's \<Rightarrow> (execResult, 'p option) outcome \<times> 's" where
  "processJob env reg c0 job s =
     (case worker_decodeJob reg (Kind job) (Payload job) of
        Inl e \<Rightarrow> (Ret (failed_result (Wrapf ''decode error'' e)), s)
      | Inr obj \<Rightarrow>
          let c = ContextWithRow c0 (Some job) in
          (case run_recovered (w_show env) (collectMiddlewares reg obj) obj (Payload job) c s of
             (None, s') \<Rightarrow> (Ret completed_result, s')
           | (Some e, s') \<Rightarrow> decide_retry env obj job c e s'))"

definition callFailedHook ::
    "('s, 'p, 'w) worker_registry \<Rightarrow> ctx \<Rightarrow> JobRow \<Rightarrow> error option \<Rightarrow> 's \<Rightarrow> (unit, 'p option) outcome \<times> 's" where
  "callFailedHook reg c job err s =
     (case worker_decodeJob reg (Kind job) (Payload job) of
        Inl _ \<Rightarrow> (Ret (), s)
      | Inr obj \<Rightarrow>
          (case h_Failed obj of
             None \<Rightarrow> (Ret (), s)
           | Some f \<Rightarrow> (case f (Payload job) err c s of (Ret _, s') \<Rightarrow> (Ret (), s') | (Panic p, s') \<Rightarrow> (Panic (Some p), s'))))"


section \<open>Executing and reporting\<close>

type_synonym 'd driver_call = "driver_op \<Rightarrow> 'd \<Rightarrow> (error + JobRow list) \<times> 'd"

text \<open>The call that reports a result on a job.\<close>

definition report :: "'p worker_env \<Rightarrow> JobRow \<Rightarrow> execResult \<Rightarrow> driver_op option" where
  "report env job res =
     (if er_state res = StateCompleted then Some (OpComplete (ID job) None)
      else if er_state res = StateRetryable then Some (OpScheduleRetry (ID job) (er_err res) (w_now env 2 + er_backoff res))
      else if er_state res = StateFailed then Some (OpFail (ID job) (er_err res))
      else None)"

definition exec_deadline :: "'p worker_env \<Rightarrow> ctx \<Rightarrow> JobRow \<Rightarrow> ctx" where
  "exec_deadline env c job =
     (if 0 < Timeout job
      then c\<lparr>c_deadline := Some (case c_deadline c of None \<Rightarrow> w_now env 0 + Timeout job
             | Some t \<Rightarrow> min t (w_now env 0 + Timeout job))\<rparr>
      else c)"

text \<open>
  \<^verbatim>\<open>execute\<close>: the calls made to the driver, whether it returned or panicked, and both states. The error of a report is only logged.
\<close>

definition execute ::
    "'d driver_call \<Rightarrow> 'p worker_env \<Rightarrow> ('s, 'p, 'w) worker_registry \<Rightarrow> ctx \<Rightarrow> JobRow \<Rightarrow> 's \<times> 'd \<Rightarrow>
     driver_op list \<times> (unit, 'p option) outcome \<times> 's \<times> 'd" where
  "execute call env reg c job sd =
     (case sd of (s, d) \<Rightarrow>
        (case processJob env reg (exec_deadline env c job) job s of
           (Panic p, s') \<Rightarrow> ([], Panic p, (s', d))
         | (Ret res, s') \<Rightarrow>
             (case report env job res of
                None \<Rightarrow> ([], Ret (), (s', d))
              | Some op \<Rightarrow>
                  let d' = snd (call op d) in
                  if er_state res = StateFailed
                  then (case callFailedHook reg c job (er_err res) s' of (hook, s'') \<Rightarrow> ([op], hook, (s'', d')))
                  else ([op], Ret (), (s', d')))))"


section \<open>The loop\<close>

text \<open>
  One round of \<^verbatim>\<open>run\<close>: whether the worker was told to stop before it, whether it is told while it waits for work, and what the
  round's clock gives.
\<close>

record 'p round =
  stop_before :: bool
  stop_waiting :: bool
  round_env :: "'p worker_env"

datatype 'p run_end = StillRunning | Stopped | Crashed "'p option"

text \<open>
  A finite part of the loop: the calls made, in order, how it ended, and the states.
\<close>

fun run ::
    "'d driver_call \<Rightarrow> ('s, 'p, 'w) worker_registry \<Rightarrow> ctx \<Rightarrow> queue_name \<Rightarrow> node_id \<Rightarrow> 'p round list \<Rightarrow> 's \<times> 'd \<Rightarrow>
     driver_op list \<times> 'p run_end \<times> 's \<times> 'd" where
  "run call reg c q n [] sd = ([], StillRunning, sd)"
| "run call reg c q n (r # rs) (s, d) =
     (if stop_before r then ([], Stopped, (s, d))
      else let op = OpClaim q n 1 in
        (case call op d of
           (Inl e, d') \<Rightarrow>
             (let (ops, fin, sd') = run call reg c q n rs (s, d') in (op # ops, fin, sd'))
         | (Inr [], d') \<Rightarrow>
             (if stop_waiting r then ([op], Stopped, (s, d'))
              else let (ops, fin, sd') = run call reg c q n rs (s, d') in (op # ops, fin, sd'))
         | (Inr (job # _), d') \<Rightarrow>
             (case execute call (round_env r) reg c job (s, d') of
                (reports, Panic p, sd') \<Rightarrow> (op # reports, Crashed p, sd')
              | (reports, Ret _, sd') \<Rightarrow>
                  (let (ops, fin, sd'') = run call reg c q n rs sd' in (op # reports @ ops, fin, sd'')))))"

end
