(* ===== verification/Worker_Properties.thy ===== *)
theory Worker_Properties
  imports Worker
begin

text \<open>
  What a worker guarantees of the job it executes: one report to the driver, panics contained, retries bounded by the attempts and by
  the job's own deadline, and a loop that makes no other calls than claims and reports.
\<close>


section \<open>Deciding\<close>

lemma computeBackoffWithConfig_Some:
  "0 \<le> Attempt job \<Longrightarrow> Attempt job < 2 ^ 63 - 1 \<Longrightarrow> \<exists>d. computeBackoffWithConfig cfg (int64 (Attempt job + 1)) = Some d"
  using exponential_delay_None_iff [of "Attempt job + 1" "Base cfg" "MaxDelay cfg"]
  by (cases "Strategy cfg") (auto simp: computeBackoffWithConfig_def Let_def int64_id)

text \<open>
  The result of \<^verbatim>\<open>decide_retry\<close> when it returns: retryable only with attempts left and before the job's deadline, failed otherwise,
  always with an error.\<close>

lemma decide_retry_Ret:
  assumes "0 \<le> Attempt job" "Attempt job < 2 ^ 63 - 1" "decide_retry env obj job c e s = (Ret res, s')"
  shows "er_err res \<noteq> None \<and>
    (er_state res = StateFailed \<or>
     er_state res = StateRetryable \<and> Attempt job < effective_max job \<and> er_err res = Some e \<and>
       (\<forall>t. h_RetryUntil obj = Some t \<longrightarrow> w_now env 1 + er_backoff res < t))"
  using assms(3) unfolding decide_retry_def ComputeNextState_Some [OF assms(1,2)]
  by (auto simp: failed_result_def split: if_splits option.splits prod.splits outcome.splits)

lemma decide_retry_no_hook:
  assumes "0 \<le> Attempt job" "Attempt job < 2 ^ 63 - 1" "h_BeforeRetry obj = None"
  shows "\<exists>res. decide_retry env obj job c e s = (Ret res, s) \<and> er_err res = Some e"
proof (cases "Attempt job < effective_max job")
  case False
  then show ?thesis unfolding decide_retry_def ComputeNextState_Some [OF assms(1,2)] by simp
next
  case True
  have "exponential_delay (2 * Second) (24 * Hour) (Attempt job + 1) \<noteq> None"
    using assms by (simp add: exponential_delay_None_iff)
  then obtain d where d: "exponential_delay (2 * Second) (24 * Hour) (Attempt job + 1) = Some d" by blast
  obtain b where "(case h_RetryBackoff obj of None \<Rightarrow> Some d | Some cfg \<Rightarrow> computeBackoffWithConfig cfg (int64 (Attempt job + 1))) = Some b"
    using computeBackoffWithConfig_Some [OF assms(1,2)] by (cases "h_RetryBackoff obj") auto
  with True d assms(3) show ?thesis
    unfolding decide_retry_def ComputeNextState_Some [OF assms(1,2)] by (simp add: failed_result_def)
qed

text \<open>What \<^verbatim>\<open>processJob\<close> may return.\<close>

lemma processJob_Ret:
  assumes "0 \<le> Attempt job" "Attempt job < 2 ^ 63 - 1" "processJob env reg c job s = (Ret res, s')"
  shows "er_state res = StateCompleted \<and> er_err res = None \<or>
    er_state res = StateFailed \<and> er_err res \<noteq> None \<or>
    er_state res = StateRetryable \<and> er_err res \<noteq> None \<and> Attempt job < effective_max job"
proof (cases "worker_decodeJob reg (Kind job) (Payload job)")
  case (Inl e)
  with assms(3) show ?thesis by (auto simp: processJob_def failed_result_def)
next
  case (Inr obj)
  define c' where "c' = ContextWithRow c (Some job)"
  obtain err s1 where run: "run_recovered (w_show env) (collectMiddlewares reg obj) obj (Payload job) c' s = (err, s1)"
    by fastforce
  show ?thesis
  proof (cases err)
    case None
    with run Inr assms(3) show ?thesis by (auto simp: processJob_def c'_def [symmetric] completed_result_def)
  next
    case (Some e)
    with run Inr assms(3) have "decide_retry env obj job c' e s1 = (Ret res, s')"
      by (simp add: processJob_def c'_def [symmetric])
    from decide_retry_Ret [OF assms(1,2) this] show ?thesis by blast
  qed
qed


section \<open>Reporting\<close>

definition reports_on :: "JobRow \<Rightarrow> driver_op \<Rightarrow> bool" where
  "reports_on job op \<longleftrightarrow> op = OpComplete (ID job) None \<or> (\<exists>e. op = OpFail (ID job) (Some e)) \<or>
     (\<exists>e t. op = OpScheduleRetry (ID job) (Some e) t \<and> Attempt job < effective_max job)"

lemma execute_reports_once_core:
  assumes "0 \<le> Attempt job" and "Attempt job < 2 ^ 63 - 1"
    and "execute call env reg c job (s, d) = (ops, res, s', d')"
  shows "length ops \<le> 1 \<and> (res = Ret () \<longrightarrow> ops \<noteq> []) \<and> list_all (reports_on job) ops \<and>
    d' = fold (\<lambda>op st. snd (call op st)) ops d"
proof (cases "processJob env reg (exec_deadline env c job) job s")
  case (Pair out s1)
  show ?thesis
  proof (cases out)
    case (Panic p)
    with Pair assms(3) show ?thesis by (auto simp: execute_def)
  next
    case (Ret r)
    with Pair have "processJob env reg (exec_deadline env c job) job s = (Ret r, s1)" by simp
    from processJob_Ret [OF assms(1,2) this] Pair Ret assms(3) show ?thesis
      by (auto simp: execute_def report_def reports_on_def Let_def split: prod.splits)
  qed
qed


definition quiet_job :: "('s, 'p) JobObj" where
  "quiet_job = \<lparr>h_Handle = (\<lambda>c s. (Ret (Some ErrJobTimedOut), s)), h_BeforeHandle = None, h_AfterHandle = None, h_Middleware = None,
     h_RetryBackoff = None, h_RetryUntil = None, h_BeforeRetry = None, h_Failed = None\<rparr>"

definition one_job :: "('s, 'p) JobObj \<Rightarrow> ('s, 'p, unit) worker_registry" where
  "one_job obj = \<lparr>jobRegistry = [(''mail'', \<lambda>_. Inr obj)], globalMiddlewares = [], dispatchMiddlewares = []\<rparr>"

definition noon :: "unit worker_env" where
  "noon = \<lparr>w_now = (\<lambda>k. 100 + int k), w_show = (\<lambda>_. ''boom'')\<rparr>"

definition mail_row :: "int \<Rightarrow> JobRow" where
  "mail_row k = zero_row\<lparr>ID := 7, Kind := ''mail'', Attempt := k, MaxAttempts := 3\<rparr>"

definition no_ctx :: ctx where "no_ctx = \<lparr>c_row = None, c_deadline = None\<rparr>"




text \<open>
  The \<^verbatim>\<open>BeforeRetry\<close> hook runs outside the worker's \<^verbatim>\<open>recover\<close>: when it panics the execution panics before any report, so the row stays
  \<^verbatim>\<open>running\<close> in the store.\<close>

theorem retry_hook_panic_escapes:
  assumes "0 \<le> Attempt job" and "Attempt job < 2 ^ 63 - 1" and "Attempt job < effective_max job"
    and "worker_decodeJob reg (Kind job) (Payload job) = Inr obj"
    and "run_recovered (w_show env) (collectMiddlewares reg obj) obj (Payload job)
      (ContextWithRow (exec_deadline env c job) (Some job)) s = (Some e, s1)"
    and "h_RetryUntil obj = None" and "h_BeforeRetry obj = Some hook"
    and "hook (Attempt job) e (ContextWithRow (exec_deadline env c job) (Some job)) s1 = (Panic p, s2)"
  shows "execute call env reg c job (s, d) = ([], Panic (Some p), s2, d)"
proof -
  have "exponential_delay (2 * Second) (24 * Hour) (Attempt job + 1) \<noteq> None"
    using assms by (simp add: exponential_delay_None_iff)
  then obtain b where b: "exponential_delay (2 * Second) (24 * Hour) (Attempt job + 1) = Some b" by blast
  obtain b' where "(case h_RetryBackoff obj of None \<Rightarrow> Some b | Some cfg \<Rightarrow> computeBackoffWithConfig cfg (int64 (Attempt job + 1))) = Some b'"
    using computeBackoffWithConfig_Some [OF assms(1,2)] by (cases "h_RetryBackoff obj") auto
  with b assms(3,6-8) ComputeNextState_Some [OF assms(1,2)]
  have "decide_retry env obj job (ContextWithRow (exec_deadline env c job) (Some job)) e s1 = (Panic (Some p), s2)"
    by (simp add: decide_retry_def)
  with assms(4,5) show ?thesis by (simp add: execute_def processJob_def)
qed

theorem retry_hook_panic_escapes_witness:
  "execute (\<lambda>op d. (Inr [], d)) noon (one_job (quiet_job\<lparr>h_BeforeRetry := Some (\<lambda>n e c s. (Panic (), s))\<rparr>)) no_ctx (mail_row 1) ((), ()) =
     ([], Panic (Some ()), (), ())"
  by (rule retry_hook_panic_escapes [where obj = "quiet_job\<lparr>h_BeforeRetry := Some (\<lambda>n e c s. (Panic (), s))\<rparr>"
        and e = ErrJobTimedOut and ?s1.0 = "()" and hook = "\<lambda>n e c s. (Panic (), s)"])
    (simp_all add: mail_row_def effective_max_def worker_decodeJob_def one_job_def GetRegisteredJob_def quiet_job_def run_recovered_def
      collectMiddlewares_def runFunc_def run_hook_def)

text \<open>
  A job whose kind is not registered or whose payload does not decode is failed at once, whatever attempts it has left, and none of the
  job's code runs.\<close>

theorem undecodable_job_fails_at_once:
  assumes "worker_decodeJob reg (Kind job) (Payload job) = Inl e"
  shows "execute call env reg c job (s, d) =
    ([OpFail (ID job) (Some (Wrapf ''decode error'' e))], Ret (), s, snd (call (OpFail (ID job) (Some (Wrapf ''decode error'' e))) d))"
  using assms by (simp add: execute_def processJob_def report_def failed_result_def callFailedHook_def Let_def)

theorem undecodable_job_fails_at_once_witness:
  "fst (execute (\<lambda>op d. (Inr [], d)) noon (one_job quiet_job) no_ctx ((mail_row 0)\<lparr>Kind := ''sms''\<rparr>) ((), ())) =
     [OpFail 7 (Some (Wrapf ''decode error'' (Errorf ''no job registered for kind: sms'')))]"
proof -
  have "worker_decodeJob (one_job (quiet_job :: (unit, unit) JobObj)) (Kind ((mail_row 0)\<lparr>Kind := ''sms''\<rparr>)) (Payload ((mail_row 0)\<lparr>Kind := ''sms''\<rparr>)) =
      Inl (Errorf ''no job registered for kind: sms'')"
    by (simp add: worker_decodeJob_def one_job_def GetRegisteredJob_def)
  from undecodable_job_fails_at_once [OF this, of "\<lambda>op d. (Inr [], d)" noon no_ctx "()" "()"] show ?thesis
    by (simp add: mail_row_def)
qed


lemmas run_one_job = execute_def processJob_def worker_decodeJob_def one_job_def GetRegisteredJob_def mail_row_def run_recovered_def
  collectMiddlewares_def runFunc_def run_hook_def quiet_job_def decide_retry_def ComputeNextState_def report_def exec_deadline_def
  zero_row_def computeBackoff_def computeBackoffWithConfig_def DefaultBackoff_def exponential_delay_def shl_one_def Let_def
  callFailedHook_def noon_def no_ctx_def



section \<open>The loop\<close>

text \<open>
  The calls of a run in order: every call is a claim of one job, or the report on a job a claim just returned. A store that counts
  attempts within 64 bits is what \<open>small_attempts\<close> asks of the driver.\<close>

definition small_attempts :: "'d driver_call \<Rightarrow> bool" where
  "small_attempts call \<longleftrightarrow> (\<forall>q n d jobs d'. call (OpClaim q n 1) d = (Inr jobs, d') \<longrightarrow>
     list_all (\<lambda>j. 0 \<le> Attempt j \<and> Attempt j < 2 ^ 63 - 1) jobs)"

lemma run_executes:
  assumes "\<not> stop_before r" "call (OpClaim q n 1) d = (Inr (job # js), d1)"
    "execute call (round_env r) reg c job (s, d1) = (reports, out, sd1)"
  shows "run call reg c q n (r # rs) (s, d) =
    (case out of
       Panic p \<Rightarrow> (OpClaim q n 1 # reports, Crashed p, sd1)
     | Ret _ \<Rightarrow> (case run call reg c q n rs sd1 of (ops, fin, sd2) \<Rightarrow> (OpClaim q n 1 # reports @ ops, fin, sd2)))"
  using assms by (simp add: Let_def split: outcome.split)

lemma run_calls_of_worker:
  assumes "small_attempts call"
  shows "run call reg c q n rs (s, d) = (ops, fin, s', d') \<Longrightarrow>
    d' = fold (\<lambda>op st. snd (call op st)) ops d \<and>
    list_all (\<lambda>op. op = OpClaim q n 1 \<or> (\<exists>job. reports_on job op)) ops"
proof (induction rs arbitrary: s d ops fin s' d')
  case Nil
  then show ?case by simp
next
  case (Cons r rs)
  show ?case
  proof (cases "stop_before r")
    case True
    with Cons.prems show ?thesis by auto
  next
    case False
    obtain res d1 where call: "call (OpClaim q n 1) d = (res, d1)" by fastforce
    obtain ops1 fin1 s1' d1' where rest: "run call reg c q n rs (s, d1) = (ops1, fin1, s1', d1')" by (metis prod_cases4)
    note IH1 = Cons.IH [OF rest]
    consider e where "res = Inl e" | "res = Inr []" | job js where "res = Inr (job # js)"
      by (cases res) (auto intro: list.exhaust)
    then show ?thesis
    proof cases
      case 1
      with False call rest IH1 Cons.prems show ?thesis by auto
    next
      case 2
      with False call rest IH1 Cons.prems show ?thesis by (auto simp: Let_def split: if_splits)
    next
      case 3
      have small: "0 \<le> Attempt job" "Attempt job < 2 ^ 63 - 1"
        using assms call 3 unfolding small_attempts_def by fastforce+
      obtain reports out s2 d2 where ex: "execute call (round_env r) reg c job (s, d1) = (reports, out, s2, d2)"
        by (metis prod_cases4)
      note once = execute_reports_once_core [OF small ex]
      obtain ops2 fin2 s2' d2' where rest2: "run call reg c q n rs (s2, d2) = (ops2, fin2, s2', d2')" by (metis prod_cases4)
      have "list_all (\<lambda>op. op = OpClaim q n 1 \<or> (\<exists>job. reports_on job op)) reports"
        using once by (auto simp: list_all_iff)
      note steps = this Cons.IH [OF rest2] once run_executes [OF False call [unfolded 3] ex, of rs] Cons.prems rest2 call 3
      show ?thesis
      proof (cases out)
        case (Panic p)
        with steps have "ops = OpClaim q n 1 # reports" "d' = d2" by simp_all
        with steps show ?thesis by simp
      next
        case (Ret u)
        with steps have "ops = OpClaim q n 1 # reports @ ops2" "d' = d2'" by simp_all
        with steps show ?thesis by simp
      qed
    qed
  qed
qed

end
