(* ===== verification/Dispatch_Properties.thy ===== *)
theory Dispatch_Properties
  imports Dispatch
begin

text \<open>
  What dispatching guarantees of the rows it sends, of chains and of dispatch middlewares.
\<close>


section \<open>Rows\<close>

lemma buildJobRow_Inr:
  assumes "buildJobRow env job cfg opts = Inr row"
  shows "State row = (if b_now env 1 < ScheduledAt row then StateScheduled else StateAvailable)"
    "Attempt row = 0" "UUID row = b_uuid env" "Kind row = j_kind job" "j_payload job = Inr (Payload row)"
    "MaxAttempts row = (case j_MaxAttempts job of Some n \<Rightarrow> n | None \<Rightarrow> DefaultMaxAttempts cfg)"
    "Errors row = []" "AttemptedBy row = []" "Metadata row = o_metadata (apply_options opts)"
  using assms by (clarsimp simp: buildJobRow_def Let_def zero_row_def simp del: if_split split: sum.splits)+

lemma buildJobRow_enqueueable: "buildJobRow env job cfg opts = Inr row \<Longrightarrow> enqueueable row"
  using buildJobRow_Inr(1,2) [of env job cfg opts row] by (simp add: enqueueable_def)

lemma build_rows_enqueueable: "build_rows envs i js cfg opts = Inr rows \<Longrightarrow> list_all enqueueable rows \<and> length rows = length js"
  by (induction js arbitrary: i rows) (auto split: sum.splits dest: buildJobRow_enqueueable)

lemma link_row_enqueueable: "enqueueable row \<Longrightarrow> enqueueable (link_row prev row)"
  by (auto simp: link_row_def enqueueable_def split: option.split)

lemma link_row_sel [simp]: "UUID (link_row prev row) = UUID row" "Attempt (link_row prev row) = Attempt row"
  "MaxAttempts (link_row prev row) = MaxAttempts row" "Queue (link_row prev row) = Queue row"
  by (simp_all add: link_row_def split: option.split)

text \<open>What \<^verbatim>\<open>Chain\<close> makes of each row.\<close>

lemma chain_rows_links:
  "chain_rows envs i prev js cfg opts = Inr rows \<Longrightarrow>
    length rows = length js \<and> list_all enqueueable rows \<and>
    (\<forall>k < length rows. case (if k = 0 then prev else Some (UUID (rows ! (k - 1)))) of
       None \<Rightarrow> State (rows ! k) \<in> {StateAvailable, StateScheduled}
     | Some parent \<Rightarrow> State (rows ! k) = StatePending \<and> (\<exists>m. Metadata (rows ! k) = Some m \<and> m ''parent_id'' = Some parent))"
proof (induction js arbitrary: i prev rows)
  case Nil
  then show ?case by simp
next
  case (Cons j js)
  from Cons.prems obtain row rest where row: "buildJobRow (envs i) j cfg opts = Inr row"
    "chain_rows envs (i + 1) (Some (UUID row)) js cfg opts = Inr rest" "rows = link_row prev row # rest"
    by (auto split: sum.splits)
  note IH = Cons.IH [OF row(2)]
  show ?case
  proof (intro conjI allI impI)
    show "length rows = length (j # js)" using IH row by simp
    show "list_all enqueueable rows" using IH row buildJobRow_enqueueable link_row_enqueueable by simp
    fix k assume "k < length rows"
    show "case (if k = 0 then prev else Some (UUID (rows ! (k - 1)))) of
       None \<Rightarrow> State (rows ! k) \<in> {StateAvailable, StateScheduled}
     | Some parent \<Rightarrow> State (rows ! k) = StatePending \<and> (\<exists>m. Metadata (rows ! k) = Some m \<and> m ''parent_id'' = Some parent)"
    proof (cases k)
      case 0
      then show ?thesis using row(3) buildJobRow_Inr(1) [OF row(1)] by (auto simp: link_row_def split: option.split)
    next
      case (Suc k')
      with \<open>k < length rows\<close> IH row(3) show ?thesis by (cases k') force+
    qed
  qed
qed

text \<open>
  Property C39. Every row \<^verbatim>\<open>Dispatch\<close>, \<^verbatim>\<open>DispatchBatch\<close> and \<^verbatim>\<open>Chain\<close> build is fit for enqueueing: no attempt counted, and a state among available,
  scheduled and pending; in a chain the first row is available or scheduled and every later row is pending and names the UUID of the row
  before it as its parent.\<close>

theorem built_rows_are_enqueueable:
  assumes "buildJobRow env job cfg opts = Inr row" and "build_rows envs 0 js cfg opts = Inr rows"
    and "chain_rows envs 0 None js cfg opts = Inr links"
  shows "enqueueable row \<and> list_all enqueueable rows \<and> list_all enqueueable links \<and> length links = length js \<and>
    (\<forall>k < length links. if k = 0 then State (links ! k) \<in> {StateAvailable, StateScheduled}
       else State (links ! k) = StatePending \<and>
         (\<exists>m. Metadata (links ! k) = Some m \<and> m ''parent_id'' = Some (UUID (links ! (k - 1)))))"
proof -
  note chain = chain_rows_links [OF assms(3)]
  have "if k = 0 then State (links ! k) \<in> {StateAvailable, StateScheduled}
       else State (links ! k) = StatePending \<and>
         (\<exists>m. Metadata (links ! k) = Some m \<and> m ''parent_id'' = Some (UUID (links ! (k - 1))))" if "k < length links" for k
    using chain that spec [OF conjunct2 [OF conjunct2 [OF chain]], of k] by (cases "k = 0") auto
  with chain show ?thesis
    using buildJobRow_enqueueable [OF assms(1)] build_rows_enqueueable [OF assms(2)] by blast
qed

definition plain_job :: Job where
  "plain_job = \<lparr>j_kind = ''*jobs.Mail'', j_payload = Inr ''{}'', j_Queue = None, j_Delay = None, j_MaxAttempts = None, j_Tags = None,
     j_BatchID = None, j_Timeout = None\<rparr>"

definition job_env :: "nat \<Rightarrow> build_env" where
  "job_env i = \<lparr>b_now = (\<lambda>k. 1000 + int k), b_uuid = replicate (Suc i) (CHR ''u'')\<rparr>"

theorem built_rows_are_enqueueable_witness:
  "\<exists>links. chain_rows job_env 0 None [plain_job, plain_job] (DefaultConfig ''n'') [WithDelay 50] = Inr links \<and>
     State (links ! 1) = StatePending"
proof -
  have "\<exists>row. buildJobRow (job_env 0) plain_job (DefaultConfig ''n'') [WithDelay 50] = Inr row"
    "\<exists>rows. build_rows job_env 0 [plain_job, plain_job] (DefaultConfig ''n'') [WithDelay 50] = Inr rows"
    "\<exists>links. chain_rows job_env 0 None [plain_job, plain_job] (DefaultConfig ''n'') [WithDelay 50] = Inr links"
    by (simp_all add: buildJobRow_def plain_job_def Let_def)
  then obtain row rows links where "buildJobRow (job_env 0) plain_job (DefaultConfig ''n'') [WithDelay 50] = Inr row"
    "build_rows job_env 0 [plain_job, plain_job] (DefaultConfig ''n'') [WithDelay 50] = Inr rows"
    "chain_rows job_env 0 None [plain_job, plain_job] (DefaultConfig ''n'') [WithDelay 50] = Inr links"
    by blast
  from built_rows_are_enqueueable [OF this] this(3) show ?thesis
    by (intro exI [of _ links]) (auto dest!: spec [of _ 1])
qed


section \<open>Dispatch middlewares\<close>

text \<open>A middleware that passes on: it may rewrite the rows, calls \<^verbatim>\<open>next\<close> once and returns its error.\<close>

definition passes :: "'d DispatchMiddleware \<Rightarrow> (JobRow list \<Rightarrow> JobRow list) \<Rightarrow> bool" where
  "passes mw f \<longleftrightarrow> (\<forall>next rows d. mw next (rows, d) = next (f rows, d))"

lemma enqueue_passes:
  "list_all2 passes mws fs \<Longrightarrow> enqueue (mws @ rest) send (rows, d) = enqueue rest send (fold (\<lambda>f. f) fs rows, d)"
proof (induction mws arbitrary: fs rows)
  case Nil
  then show ?case by (simp add: enqueue_def)
next
  case (Cons mw mws)
  then obtain f fs' where fs: "fs = f # fs'" "passes mw f" "list_all2 passes mws fs'"
    by (auto simp: list_all2_Cons1)
  then show ?case using Cons.IH [OF fs(3), of "f rows"] by (simp add: enqueue_def passes_def)
qed

text \<open>
  Dispatch middlewares that pass on see the rows in the order they were installed, and the driver gets what the last of them made
  of the rows, exactly once. A middleware that returns an error without calling \<^verbatim>\<open>next\<close> refuses the enqueue whatever is installed after it: the
  driver is not called and the error reaches the caller.\<close>

theorem dispatch_middlewares_pass_or_refuse:
  assumes "list_all2 passes mws fs"
  shows "dispatch_rows EnqueueBatch mws (Inr rows) d =
      (case EnqueueBatch (fold (\<lambda>f. f) fs rows) d of ((Some e, _), d') \<Rightarrow> (Inl e, d') | ((None, rows'), d') \<Rightarrow> (Inr rows', d')) \<and>
    ((\<forall>next s. refuse next s = (Some err, s)) \<longrightarrow>
      dispatch_rows EnqueueBatch (mws @ refuse # rest) (Inr rows) d = (Inl err, d))"
  using enqueue_passes [OF assms, of "[]" "send_batch EnqueueBatch" rows d]
    enqueue_passes [OF assms, of "refuse # rest" "send_batch EnqueueBatch" rows d]
  by (auto simp: dispatch_rows_def enqueue_def send_batch_def split: prod.split option.split)

theorem dispatch_middlewares_pass_or_refuse_witness:
  "dispatch_rows (\<lambda>rows d. ((None, rows), d + 1)) [\<lambda>next (rows, d). next (map (\<lambda>r. r\<lparr>Priority := 5\<rparr>) rows, d), \<lambda>next s. (Some ErrQueueNotFound, s)]
     (Inr [zero_row]) (0::nat) = (Inl ErrQueueNotFound, 0)"
proof -
  have "list_all2 passes [\<lambda>next (rows, d). next (map (\<lambda>r. r\<lparr>Priority := 5\<rparr>) rows, d)] [map (\<lambda>r. r\<lparr>Priority := 5\<rparr>)]"
    by (simp add: passes_def)
  from dispatch_middlewares_pass_or_refuse [OF this, of "\<lambda>rows d. ((None, rows), d + 1)" "[zero_row]" "0::nat"
      "\<lambda>next s. (Some ErrQueueNotFound, s)" ErrQueueNotFound "[]"]
  show ?thesis by simp
qed

end
