(* ===== verification/Text_Array.thy ===== *)
theory Text_Array
  imports Tasker_Types
begin

text \<open>
  The column codecs of \<^verbatim>\<open>driver/sqldriver/driver.go\<close>: a list of strings is written as a Postgres
  array literal or as a JSON array (\<open>encodeTextArray\<close>, \<open>encodeStrings\<close>) and read back by one
  hand-written scanner (\<open>decodeTextArray\<close>). Strings are lists of bytes; every character the codec
  treats specially is ASCII, so on UTF-8 text the scanner's runes and bytes agree.
\<close>


section \<open>String helpers of the Go library\<close>

definition replace_all :: "char \<Rightarrow> string \<Rightarrow> string \<Rightarrow> string" where
  "replace_all c w s = concat (map (\<lambda>x. if x = c then w else [x]) s)"

fun join :: "string \<Rightarrow> string list \<Rightarrow> string" where
  "join sep [] = []"
| "join sep [x] = x"
| "join sep (x # y # ys) = x @ sep @ join sep (y # ys)"

definition trim :: "(char \<Rightarrow> bool) \<Rightarrow> string \<Rightarrow> string" where
  "trim p s = rev (dropWhile p (rev (dropWhile p s)))"

definition is_space :: "char \<Rightarrow> bool" where
  "is_space c \<longleftrightarrow> of_char c \<in> {9, 10, 11, 12, 13, 32 :: nat}"

abbreviation quote_char :: char where "quote_char \<equiv> CHR 0x22"
abbreviation backslash :: char where "backslash \<equiv> CHR 0x5C"
abbreviation comma :: char where "comma \<equiv> CHR '',''"

definition is_brace :: "char \<Rightarrow> bool" where
  "is_brace c \<longleftrightarrow> c = CHR ''{'' \<or> c = CHR ''}''"


section \<open>JSON arrays of strings\<close>

text \<open>
  \<^verbatim>\<open>encoding/json\<close> on \<^verbatim>\<open>[]string\<close>: the escapes \<^verbatim>\<open>json.Marshal\<close> writes (HTML characters
  included), and a reader for arrays of strings. The reader answers \<open>None\<close> (an error) for any
  other value; \<^verbatim>\<open>null\<close> elements and \<^verbatim>\<open>\u\<close> escapes of non-ASCII characters, which the encoder
  writes for no list of ASCII texts, are not read.
\<close>

definition hex_digit :: "nat \<Rightarrow> char" where
  "hex_digit n = (if n < 10 then char_of (48 + n) else char_of (87 + n))"

definition hex_value :: "char \<Rightarrow> nat option" where
  "hex_value c = (let n = of_char c in
     if 48 \<le> n \<and> n \<le> 57 then Some (n - 48)
     else if 97 \<le> n \<and> n \<le> 102 then Some (n - 87)
     else if 65 \<le> n \<and> n \<le> 70 then Some (n - 55) else None)"

definition json_escape_char :: "char \<Rightarrow> string" where
  "json_escape_char c = (let n = of_char c :: nat in
     if c = quote_char \<or> c = backslash then [backslash, c]
     else if n = 8 then [backslash, CHR ''b'']
     else if n = 12 then [backslash, CHR ''f'']
     else if n = 10 then [backslash, CHR ''n'']
     else if n = 13 then [backslash, CHR ''r'']
     else if n = 9 then [backslash, CHR ''t'']
     else if n < 32 \<or> c = CHR ''<'' \<or> c = CHR ''>'' \<or> c = CHR ''&''
       then [backslash, CHR ''u'', CHR ''0'', CHR ''0'', hex_digit (n div 16), hex_digit (n mod 16)]
     else [c])"

definition json_string :: "string \<Rightarrow> string" where
  "json_string s = [quote_char] @ concat (map json_escape_char s) @ [quote_char]"

definition json_marshal_strings :: "string list option \<Rightarrow> string" where
  "json_marshal_strings xs = (case xs of
     None \<Rightarrow> ''null''
   | Some ys \<Rightarrow> ''['' @ join '','' (map json_string ys) @ '']'')"

definition json_unescape :: "char \<Rightarrow> char option" where
  "json_unescape e =
     (if e = quote_char \<or> e = backslash \<or> e = CHR ''/'' then Some e
      else if e = CHR ''b'' then Some (char_of (8::nat))
      else if e = CHR ''f'' then Some (char_of (12::nat))
      else if e = CHR ''n'' then Some (char_of (10::nat))
      else if e = CHR ''r'' then Some (char_of (13::nat))
      else if e = CHR ''t'' then Some (char_of (9::nat)) else None)"

definition hex4 :: "char \<Rightarrow> char \<Rightarrow> char \<Rightarrow> char \<Rightarrow> nat option" where
  "hex4 a b c d =
     (case (hex_value a, hex_value b, hex_value c, hex_value d) of
        (Some w, Some x, Some y, Some z) \<Rightarrow> Some (((w * 16 + x) * 16 + y) * 16 + z)
      | _ \<Rightarrow> None)"

text \<open>The rest of a string literal, after its opening quote.\<close>

fun json_chars :: "string \<Rightarrow> (string \<times> string) option" where
  "json_chars [] = None"
| "json_chars (c # s) =
     (if c = quote_char then Some ([], s)
      else if c = backslash then
        (case s of
           [] \<Rightarrow> None
         | e # s' \<Rightarrow>
             (if e = CHR ''u'' then
                (case s' of
                   h1 # h2 # h3 # h4 # s'' \<Rightarrow>
                     (case hex4 h1 h2 h3 h4 of
                        None \<Rightarrow> None
                      | Some n \<Rightarrow>
                          if n < 128
                          then map_option (\<lambda>(t, rest). (char_of n # t, rest)) (json_chars s'')
                          else None)
                 | _ \<Rightarrow> None)
              else (case json_unescape e of
                      None \<Rightarrow> None
                    | Some x \<Rightarrow> map_option (\<lambda>(t, rest). (x # t, rest)) (json_chars s'))))
      else if (of_char c :: nat) < 32 then None
      else map_option (\<lambda>(t, rest). (c # t, rest)) (json_chars s))"

definition is_json_space :: "char \<Rightarrow> bool" where
  "is_json_space c \<longleftrightarrow> of_char c \<in> {9, 10, 13, 32 :: nat}"

abbreviation skip_json_space :: "string \<Rightarrow> string" where
  "skip_json_space \<equiv> dropWhile is_json_space"

lemma json_chars_shorter: "json_chars s = Some (t, rest) \<Longrightarrow> length rest < length s"
  by (induction s arbitrary: t rest rule: json_chars.induct)
    (fastforce split: if_splits list.splits option.splits)+

text \<open>The elements of an array up to and including its closing bracket.\<close>

function json_elems :: "string \<Rightarrow> (string list \<times> string) option" where
  "json_elems s =
     (case skip_json_space s of
        [] \<Rightarrow> None
      | c # s1 \<Rightarrow>
          if c \<noteq> quote_char then None
          else (case json_chars s1 of
                  None \<Rightarrow> None
                | Some (x, s2) \<Rightarrow>
                    (case skip_json_space s2 of
                       [] \<Rightarrow> None
                     | d # s3 \<Rightarrow>
                         if d = CHR '']'' then Some ([x], s3)
                         else if d = comma then map_option (\<lambda>(xs, rest). (x # xs, rest)) (json_elems s3)
                         else None)))"
  by pat_completeness auto
termination
proof (relation "measure length", simp, goal_cases)
  case (1 s c s1 y x s2 d s3)
  have "length (c # s1) \<le> length s" using 1(1) length_dropWhile_le by metis
  moreover have "length s2 < length s1" using 1 json_chars_shorter by auto
  moreover have "length (d # s3) \<le> length s2" using 1 length_dropWhile_le by metis
  ultimately show ?case by simp
qed

declare json_elems.simps [simp del]

definition json_unmarshal_strings :: "string \<Rightarrow> string list option" where
  "json_unmarshal_strings s =
     (case skip_json_space s of
        [] \<Rightarrow> None
      | c # s1 \<Rightarrow>
          if c \<noteq> CHR ''['' then None
          else (case skip_json_space s1 of
                  [] \<Rightarrow> None
                | d # s2 \<Rightarrow>
                    if d = CHR '']'' then (if skip_json_space s2 = [] then Some [] else None)
                    else (case json_elems s1 of
                            None \<Rightarrow> None
                          | Some (xs, rest) \<Rightarrow> if skip_json_space rest = [] then Some xs else None)))"


section \<open>The codec of the SQL driver\<close>

datatype Dialect = Postgres | MySQL | SQLite

definition quote_item :: "string \<Rightarrow> string" where
  "quote_item item =
     [quote_char] @
     replace_all quote_char [backslash, quote_char] (replace_all backslash [backslash, backslash] item) @
     [quote_char]"

definition encodeTextArray :: "string list \<Rightarrow> string" where
  "encodeTextArray items =
     (if items = [] then ''{}'' else ''{'' @ join '','' (map quote_item items) @ ''}'')"

text \<open>\<^verbatim>\<open>appendItem\<close>'s value, and the scanning loop with its four local variables.\<close>

definition finish_item :: "string \<Rightarrow> bool \<Rightarrow> string" where
  "finish_item item wasQuoted = (if \<not> wasQuoted then trim is_space item else item)"

fun scan_items :: "string \<Rightarrow> string list \<Rightarrow> string \<Rightarrow> bool \<Rightarrow> bool \<Rightarrow> bool \<Rightarrow> string list" where
  "scan_items [] result item quoted wasQuoted escaped = result @ [finish_item item wasQuoted]"
| "scan_items (r # s) result item quoted wasQuoted escaped =
     (if escaped then scan_items s result (item @ [r]) quoted wasQuoted False
      else if r = backslash \<and> quoted then scan_items s result item quoted wasQuoted True
      else if r = quote_char then scan_items s result item (\<not> quoted) True False
      else if r = comma \<and> \<not> quoted then scan_items s (result @ [finish_item item wasQuoted]) [] quoted False False
      else scan_items s result (item @ [r]) quoted wasQuoted False)"

definition decode_braced :: "string \<Rightarrow> string list option" where
  "decode_braced s =
     (let s' = trim is_brace s in
      if s' = [] then None else Some (scan_items s' [] [] False False False))"

definition decodeTextArray :: "string \<Rightarrow> string list option" where
  "decodeTextArray s =
     (if take 1 (trim is_space s) = ''[''
      then (case json_unmarshal_strings s of Some result \<Rightarrow> Some result | None \<Rightarrow> decode_braced s)
      else decode_braced s)"

definition encodeStrings :: "Dialect \<Rightarrow> string list option \<Rightarrow> string" where
  "encodeStrings d items =
     (if d = Postgres then encodeTextArray (case items of None \<Rightarrow> [] | Some xs \<Rightarrow> xs)
      else json_marshal_strings items)"

definition emptyArray :: "Dialect \<Rightarrow> string" where
  "emptyArray d = (if d = Postgres then ''{}'' else ''[]'')"


section \<open>Reading back what was written\<close>

lemma replace_all_Nil [simp]: "replace_all c w [] = []"
  by (simp add: replace_all_def)

lemma replace_all_Cons [simp]:
  "replace_all c w (x # s) = (if x = c then w else [x]) @ replace_all c w s"
  by (simp add: replace_all_def)

lemma replace_all_append [simp]:
  "replace_all c w (s @ t) = replace_all c w s @ replace_all c w t"
  by (simp add: replace_all_def)

lemma trim_surrounded:
  assumes "s \<noteq> []" "\<not> p (hd s)" "\<not> p (last s)" "list_all p pre" "list_all p post"
  shows "trim p (pre @ s @ post) = s"
proof -
  have "dropWhile p (pre @ s @ post) = s @ post"
    using assms by (cases s) (auto simp: list_all_iff dropWhile_append3 dropWhile_append2)
  moreover have "dropWhile p (rev (s @ post)) = rev s"
  proof -
    have "dropWhile p (rev post @ rev s) = dropWhile p (rev s)"
      using assms(5) by (intro dropWhile_append2) (auto simp: list_all_iff)
    also have "\<dots> = rev s"
      using assms(1,3) by (cases s rule: rev_cases) auto
    finally show ?thesis by simp
  qed
  ultimately show ?thesis by (simp add: trim_def)
qed

lemma hd_join: "xs \<noteq> [] \<Longrightarrow> hd xs \<noteq> [] \<Longrightarrow> hd (join sep xs) = hd (hd xs) \<and> join sep xs \<noteq> []"
  by (cases "(sep, xs)" rule: join.cases) auto

lemma last_join:
  "xs \<noteq> [] \<Longrightarrow> last xs \<noteq> [] \<Longrightarrow> last (join sep xs) = last (last xs) \<and> join sep xs \<noteq> []"
  by (induction sep xs rule: join.induct) auto

text \<open>A quoted item in the literal, and an item Postgres leaves unquoted.\<close>

lemma scan_quoted_body:
  "scan_items (replace_all quote_char [backslash, quote_char] (replace_all backslash [backslash, backslash] x) @
      quote_char # rest) result item True True False =
    scan_items rest result (item @ x) False True False"
  by (induction x arbitrary: item) auto

lemma scan_quote_item:
  "scan_items (quote_item x @ rest) result [] False False False = scan_items rest result x False True False"
  by (simp add: quote_item_def scan_quoted_body [where item = "[]", simplified])

definition plain_item :: "string \<Rightarrow> bool" where
  "plain_item x \<longleftrightarrow> x \<noteq> [] \<and>
     list_all (\<lambda>c. c \<noteq> quote_char \<and> c \<noteq> backslash \<and> c \<noteq> comma \<and> \<not> is_brace c \<and> \<not> is_space c) x"

lemma scan_plain_item:
  "list_all (\<lambda>c. c \<noteq> quote_char \<and> c \<noteq> backslash \<and> c \<noteq> comma \<and> \<not> is_brace c \<and> \<not> is_space c) x \<Longrightarrow>
    scan_items (x @ rest) result item False False False = scan_items rest result (item @ x) False False False"
  by (induction x arbitrary: item) auto

lemma finish_plain: "plain_item x \<Longrightarrow> finish_item x False = x"
  using trim_surrounded [of x is_space "[]" "[]"]
  by (auto simp: plain_item_def finish_item_def list_all_iff)

text \<open>
  A rendering of an array: each item with the flag whether it is quoted.
\<close>

definition render_item :: "bool \<times> string \<Rightarrow> string" where
  "render_item qx = (if fst qx then quote_item (snd qx) else snd qx)"

definition renderable :: "bool \<times> string \<Rightarrow> bool" where
  "renderable qx \<longleftrightarrow> fst qx \<or> plain_item (snd qx)"

lemma scan_render_item:
  assumes "renderable qx"
  shows "scan_items (render_item qx @ comma # rest) result [] False False False =
      scan_items rest (result @ [snd qx]) [] False False False"
    and "scan_items (render_item qx) result [] False False False = result @ [snd qx]"
proof -
  note quoted = scan_quote_item [of "snd qx"]
  note plain = scan_plain_item [of "snd qx", where item = "[]"]
  show "scan_items (render_item qx @ comma # rest) result [] False False False =
      scan_items rest (result @ [snd qx]) [] False False False"
    using assms finish_plain [of "snd qx"]
    by (auto simp: render_item_def renderable_def quoted plain finish_item_def plain_item_def)
  show "scan_items (render_item qx) result [] False False False = result @ [snd qx]"
    using assms finish_plain [of "snd qx"] quoted [of "[]"] plain [of "[]"]
    by (auto simp: render_item_def renderable_def finish_item_def plain_item_def)
qed

lemma scan_rendered:
  "ps \<noteq> [] \<Longrightarrow> list_all renderable ps \<Longrightarrow>
    scan_items (join '','' (map render_item ps)) result [] False False False = result @ map snd ps"
proof (induction ps arbitrary: result)
  case Nil
  then show ?case by simp
next
  case (Cons p ps)
  then show ?case by (cases ps) (simp_all add: scan_render_item)
qed

lemma render_ends:
  "renderable qx \<Longrightarrow> render_item qx \<noteq> [] \<and> \<not> is_brace (hd (render_item qx)) \<and> \<not> is_brace (last (render_item qx))"
proof (cases "fst qx")
  case True
  then show ?thesis by (simp add: render_item_def quote_item_def is_brace_def)
next
  case False
  assume "renderable qx"
  with False have "snd qx \<noteq> []" "\<And>c. c \<in> set (snd qx) \<Longrightarrow> \<not> is_brace c"
    by (simp_all add: renderable_def plain_item_def list_all_iff)
  with False show ?thesis by (simp add: render_item_def)
qed

lemma trim_rendered:
  assumes "ps \<noteq> []" "list_all renderable ps"
  shows "trim is_brace (''{'' @ join '','' (map render_item ps) @ ''}'') = join '','' (map render_item ps)"
proof -
  have ends: "renderable (hd ps)" "renderable (last ps)"
    using assms by (auto simp: list_all_iff)
  note h = render_ends [OF ends(1)] and l = render_ends [OF ends(2)]
  show ?thesis
    by (rule trim_surrounded)
      (use assms(1) h l hd_join [of "map render_item ps" "'',''"] last_join [of "map render_item ps" "'',''"]
        in \<open>auto simp: hd_map last_map is_brace_def\<close>)
qed

lemma trim_space_brace: "take 1 (trim is_space (CHR ''{'' # s)) \<noteq> ''[''"
  if "s \<noteq> []" "last s = CHR ''}''"
  using that trim_surrounded [of "CHR ''{'' # s" is_space "[]" "[]"] by (simp add: is_space_def)

lemma decode_rendered:
  assumes "ps \<noteq> []" "list_all renderable ps"
  shows "decodeTextArray (''{'' @ join '','' (map render_item ps) @ ''}'') = Some (map snd ps)"
proof -
  let ?body = "join '','' (map render_item ps)"
  have "?body \<noteq> []"
    using assms hd_join [of "map render_item ps" "'',''"] render_ends [of "hd ps"]
    by (auto simp: list_all_iff hd_map)
  then have "decode_braced (''{'' @ ?body @ ''}'') = Some (map snd ps)"
    using trim_rendered [OF assms] scan_rendered [OF assms, of "[]"] by (simp add: decode_braced_def Let_def)
  then show ?thesis
    using trim_space_brace [of "?body @ ''}''"] by (simp add: decodeTextArray_def)
qed

lemma decode_encodeTextArray:
  "decodeTextArray (encodeTextArray items) = (if items = [] then None else Some items)"
proof (cases "items = []")
  case True
  have "trim is_space ''{}'' = ''{}''"
    using trim_surrounded [of "''{}''" is_space "[]" "[]"] by (simp add: is_space_def)
  with True show ?thesis
    by (simp add: decodeTextArray_def encodeTextArray_def decode_braced_def trim_def is_brace_def)
next
  case False
  have eq: "map render_item (map (Pair True) items) = map quote_item items"
    by (simp add: render_item_def)
  have "decodeTextArray (''{'' @ join '','' (map quote_item items) @ ''}'') = Some items"
    using False decode_rendered [of "map (Pair True) items"]
    unfolding eq by (simp add: renderable_def list_all_iff comp_def)
  with False show ?thesis by (simp add: encodeTextArray_def)
qed

text \<open>The JSON side.\<close>

lemma json_chars_plain:
  "c \<noteq> quote_char \<Longrightarrow> c \<noteq> backslash \<Longrightarrow> \<not> (of_char c :: nat) < 32 \<Longrightarrow>
    json_chars (c # s) = map_option (\<lambda>(t, rest). (c # t, rest)) (json_chars s)"
  by simp

lemma json_escape_cases:
  "(json_escape_char c = [c] \<and> c \<noteq> quote_char \<and> c \<noteq> backslash \<and> \<not> (of_char c :: nat) < 32) \<or>
   (\<exists>e. json_escape_char c = [backslash, e] \<and> e \<noteq> CHR ''u'' \<and> json_unescape e = Some c) \<or>
   (\<exists>h1 h2 h3 h4 n. json_escape_char c = [backslash, CHR ''u'', h1, h2, h3, h4] \<and>
      hex4 h1 h2 h3 h4 = Some n \<and> n < 128 \<and> char_of n = c)"
proof -
  have hex: "hex_value (hex_digit k) = Some k" if "k < 16" for k
    using that by (cases "k < 10") (simp_all add: hex_value_def hex_digit_def Let_def)
  have zero: "hex_value (CHR ''0'') = Some 0" by (simp add: hex_value_def)
  have small: "(of_char c :: nat) < 128 \<Longrightarrow> hex4 (CHR ''0'') (CHR ''0'')
      (hex_digit (of_char c div 16)) (hex_digit (of_char c mod 16)) = Some (of_char c)"
    using zero by (simp add: hex4_def hex)
  have eqs: "(of_char x :: nat) = n \<Longrightarrow> char_of n = x" for n and x :: char
    by (metis char_of_char)
  show ?thesis
    using small by (auto simp: json_escape_char_def json_unescape_def Let_def intro!: eqs)
qed

lemma json_chars_escape:
  "json_chars (json_escape_char c @ s) = map_option (\<lambda>(t, rest). (c # t, rest)) (json_chars s)"
  using json_escape_cases [of c] by (elim disjE exE conjE) simp_all

lemma json_chars_string:
  "json_chars (concat (map json_escape_char x) @ quote_char # rest) = Some (x, rest)"
  by (induction x) (simp_all add: json_chars_escape del: json_chars.simps(2), simp)

lemma skip_json_space_stop [simp]: "\<not> is_json_space c \<Longrightarrow> skip_json_space (c # s) = c # s"
  by simp

lemma not_json_space [simp]:
  "\<not> is_json_space quote_char" "\<not> is_json_space (CHR ''['')" "\<not> is_json_space (CHR '']'')" "\<not> is_json_space comma"
  by (simp_all add: is_json_space_def)

lemma json_elems_join:
  "xs \<noteq> [] \<Longrightarrow> json_elems (join '','' (map json_string xs) @ CHR '']'' # rest) = Some (xs, rest)"
proof (induction xs)
  case Nil
  then show ?case by simp
next
  case (Cons x xs)
  show ?case
  proof (cases xs)
    case Nil
    then show ?thesis
      by (subst json_elems.simps) (simp add: json_string_def json_chars_string)
  next
    case (Cons y ys)
    with Cons.IH show ?thesis
      by (subst json_elems.simps) (simp add: json_string_def [of x] json_chars_string)
  qed
qed

lemma json_roundtrip: "json_unmarshal_strings (json_marshal_strings (Some xs)) = Some xs"
proof (cases xs)
  case Nil
  then show ?thesis by (simp add: json_unmarshal_strings_def json_marshal_strings_def)
next
  case (Cons y ys)
  let ?body = "join '','' (map json_string xs) @ '']''"
  have elems: "json_elems ?body = Some (xs, [])"
    using json_elems_join [of xs "[]"] Cons by simp
  obtain t where t: "?body = quote_char # t"
    using Cons by (cases ys) (auto simp: json_string_def)
  have "json_unmarshal_strings (CHR ''['' # ?body) =
      (case json_elems ?body of None \<Rightarrow> None
       | Some (zs, rest) \<Rightarrow> if skip_json_space rest = [] then Some zs else None)"
    unfolding json_unmarshal_strings_def t by simp
  with elems show ?thesis by (simp add: json_marshal_strings_def)
qed

lemma decode_json: "decodeTextArray (json_marshal_strings (Some xs)) = Some xs"
proof -
  let ?s = "json_marshal_strings (Some xs)"
  have "trim is_space ?s = ?s"
    using trim_surrounded [of ?s is_space "[]" "[]"]
    by (simp add: json_marshal_strings_def is_space_def)
  moreover have "take 1 ?s = ''[''" by (simp add: json_marshal_strings_def)
  ultimately show ?thesis
    by (simp add: decodeTextArray_def json_roundtrip del: take_Suc_Cons)
qed

lemma decode_null: "decodeTextArray ''null'' = Some [''null'']"
proof -
  have "trim p ''null'' = ''null''" if "\<not> p (CHR ''n'')" "\<not> p (CHR ''l'')" for p
    using that trim_surrounded [of "''null''" p "[]" "[]"] by simp
  then show ?thesis
    by (simp add: decodeTextArray_def decode_braced_def is_space_def is_brace_def finish_item_def)
qed

text \<open>What a \<^verbatim>\<open>tags\<close> column reads back as, by dialect and by what was written.\<close>

lemma decode_encodeStrings:
  "decodeTextArray (encodeStrings d items) =
    (if d = Postgres then (case items of None \<Rightarrow> None | Some xs \<Rightarrow> if xs = [] then None else Some xs)
     else (case items of None \<Rightarrow> Some [''null''] | Some xs \<Rightarrow> Some xs))"
  using decode_json decode_json [of "[]"] decode_null
  by (auto simp: encodeStrings_def decode_encodeTextArray json_marshal_strings_def split: option.splits)


section \<open>Properties\<close>



text \<open>
  A job dispatched without tags does not come back without tags from MySQL or SQLite: the
  nil slice is written as the JSON text \<^verbatim>\<open>null\<close>, which the array scanner reads as a list with the
  one tag \<^verbatim>\<open>"null"\<close>. On Postgres it comes back as nil.
\<close>

theorem nil_tags_become_null_tag:
  "decodeTextArray (encodeStrings MySQL None) = Some [''null''] \<and>
   decodeTextArray (encodeStrings SQLite None) = Some [''null''] \<and>
   decodeTextArray (encodeStrings Postgres None) = None"
  by (simp add: decode_encodeStrings)

end
