(* ===== verification/Sql_Driver.thy ===== *)
theory Sql_Driver
  imports Driver_Contract Text_Array "HOL-Library.Product_Lexorder"
begin

text \<open>
  The job operations of \<^verbatim>\<open>driver/sqldriver/driver.go\<close>. A table is the list of its rows as
  \<^verbatim>\<open>scanJob\<close> reads them; a statement is the function it denotes on that list; a transaction
  that does not commit leaves the tables as they were. What the database and the clock decide
  is in \<open>sql_env\<close>: the instants \<^verbatim>\<open>time.Now()\<close> returns (the \<open>k\<close>-th call of the operation), which
  database calls fail (the \<open>k\<close>-th call, in program order), which rows other transactions hold
  locked, in which order \<^verbatim>\<open>RETURNING\<close> lists its rows, how many ids a sequence skips, and the error a
  violated constraint is reported with.
\<close>

record FailedJob =
  fj_UUID :: string
  fj_Queue :: queue_name
  fj_Kind :: string
  fj_Payload :: bytes
  fj_Attempt :: int
  fj_MaxAttempts :: int
  fj_Errors :: "AttemptError list"
  fj_Tags :: "string list option"

record LeaderRow =
  ld_NodeID :: node_id
  ld_StartedAt :: time
  ld_LastHeartbeat :: time

record LockRow =
  lk_Key :: string
  lk_NodeID :: node_id
  lk_ExpiresAt :: time

record sql_db =
  jobs :: "JobRow list"
  last_id :: nat
  failed_jobs :: "FailedJob list"
  nodes :: "NodeInfo list"
  leader :: "LeaderRow option"
  locks :: "LockRow list"

record sql_env =
  clk :: "nat \<Rightarrow> time"
  db_err :: "nat \<Rightarrow> error option"
  locked :: "job_id \<Rightarrow> bool"
  ret_key :: "JobRow \<Rightarrow> nat"
  id_gap :: nat
  constraint_err :: error


section \<open>Inserting jobs\<close>

text \<open>
  The row that \<^verbatim>\<open>jobInsertQuery\<close> writes: the seventeen listed columns, the others at their
  defaults, the list columns after their codec.
\<close>

definition inserted_row :: "Dialect \<Rightarrow> job_id \<Rightarrow> JobRow \<Rightarrow> JobRow" where
  "inserted_row d i job = job\<lparr>
     ID := i,
     AttemptedBy := (case decodeTextArray (encodeStrings d (Some (AttemptedBy job))) of None \<Rightarrow> [] | Some xs \<Rightarrow> xs),
     Tags := decodeTextArray (encodeStrings d (Tags job)),
     Metadata := Some (case Metadata job of None \<Rightarrow> Map.empty | Some m \<Rightarrow> m),
     AttemptedAt := None, Output := None, StartedAt := None, CompletedAt := None,
     FinalizedAt := None, NodeID := []\<rparr>"

text \<open>
  The integer columns \<^verbatim>\<open>Migrate\<close> declares: \<^verbatim>\<open>INTEGER\<close> has 32 bits on Postgres and MySQL and 64
  on SQLite; a value out of range is an error.
\<close>

definition fits_int32 :: "int \<Rightarrow> bool" where
  "fits_int32 x \<longleftrightarrow> - (2 ^ 31) \<le> x \<and> x < 2 ^ 31"

definition columns_fit :: "Dialect \<Rightarrow> JobRow \<Rightarrow> bool" where
  "columns_fit d job \<longleftrightarrow> d = SQLite \<or>
     (fits_int32 (Priority job) \<and> fits_int32 (Attempt job) \<and> fits_int32 (MaxAttempts job) \<and>
      fits_int32 (Timeout job))"

definition insert_job :: "Dialect \<Rightarrow> sql_env \<Rightarrow> JobRow \<Rightarrow> sql_db \<Rightarrow> (error + job_id) \<times> sql_db" where
  "insert_job d env job db =
     (if \<not> columns_fit d job \<or> UUID job \<in> UUID ` set (jobs db) then (Inl (constraint_err env), db)
      else let i = last_id db + 1 + id_gap env
           in (Inr i, db\<lparr>jobs := jobs db @ [inserted_row d i job], last_id := i\<rparr>))"

text \<open>
  \<^verbatim>\<open>Enqueue\<close>: the caller's row afterwards (its \<^verbatim>\<open>ID\<close> set), and the error. Postgres returns the
  id with the insert; the others ask for it, which may fail after the row is stored.
\<close>

definition sql_Enqueue :: "Dialect \<Rightarrow> sql_env \<Rightarrow> JobRow option \<Rightarrow> sql_db \<Rightarrow> (error option \<times> JobRow option) \<times> sql_db" where
  "sql_Enqueue d env ojob db =
     (case ojob of
        None \<Rightarrow> ((Some (Errorf ''enqueue nil job''), None), db)
      | Some job \<Rightarrow>
          (case db_err env 0 of
             Some e \<Rightarrow> ((Some e, Some job), db)
           | None \<Rightarrow>
               (case insert_job d env job db of
                  (Inl e, _) \<Rightarrow> ((Some e, Some job), db)
                | (Inr i, db') \<Rightarrow>
                    if d = Postgres then ((None, Some (job\<lparr>ID := i\<rparr>)), db')
                    else (case db_err env 1 of
                            Some e \<Rightarrow> ((Some e, Some job), db')
                          | None \<Rightarrow> ((None, Some (job\<lparr>ID := i\<rparr>)), db')))))"

text \<open>The loop of \<^verbatim>\<open>EnqueueBatch\<close> inside its transaction, from database call \<open>k\<close> on.\<close>

fun insert_batch :: "Dialect \<Rightarrow> sql_env \<Rightarrow> nat \<Rightarrow> JobRow list \<Rightarrow> sql_db \<Rightarrow> (error + JobRow list) \<times> sql_db" where
  "insert_batch d env k [] db = (Inr [], db)"
| "insert_batch d env k (job # rest) db =
     (case db_err env k of
        Some e \<Rightarrow> (Inl e, db)
      | None \<Rightarrow>
          (case insert_job d env job db of
             (Inl e, _) \<Rightarrow> (Inl e, db)
           | (Inr i, db') \<Rightarrow>
               (case (if d = Postgres then None else db_err env (k + 1)) of
                  Some e \<Rightarrow> (Inl e, db')
                | None \<Rightarrow>
                    (case insert_batch d env (k + 2) rest db' of
                       (Inl e, db'') \<Rightarrow> (Inl e, db'')
                     | (Inr rows, db'') \<Rightarrow> (Inr (job\<lparr>ID := i\<rparr> # rows), db'')))))"

definition sql_EnqueueBatch ::
    "Dialect \<Rightarrow> sql_env \<Rightarrow> JobRow option list \<Rightarrow> sql_db \<Rightarrow> (error option \<times> JobRow option list) \<times> sql_db" where
  "sql_EnqueueBatch d env ojobs db =
     (if None \<in> set ojobs then ((Some (Errorf ''enqueue batch contains nil job''), ojobs), db)
      else case db_err env 0 of
        Some e \<Rightarrow> ((Some e, ojobs), db)
      | None \<Rightarrow>
          (case db_err env 1 of
             Some e \<Rightarrow> ((Some e, ojobs), db)
           | None \<Rightarrow>
               (case insert_batch d env 2 (map the ojobs) db of
                  (Inl e, _) \<Rightarrow> ((Some e, ojobs), db)
                | (Inr rows, db') \<Rightarrow>
                    (case db_err env (2 + 2 * length ojobs) of
                       Some e \<Rightarrow> ((Some e, ojobs), db)
                     | None \<Rightarrow> ((None, map Some rows), db')))))"


section \<open>Claiming\<close>

definition sql_eligible :: "queue_name \<Rightarrow> time \<Rightarrow> JobRow \<Rightarrow> bool" where
  "sql_eligible queue now r \<longleftrightarrow>
     Queue r = queue \<and> (State r = StateAvailable \<or> State r = StateScheduled \<or> State r = StateRetryable) \<and>
     ScheduledAt r \<le> now \<and> Attempt r < MaxAttempts r"

text \<open>\<^verbatim>\<open>ORDER BY priority DESC, scheduled_at ASC, id ASC\<close>\<close>

definition claim_order :: "JobRow \<Rightarrow> int \<times> int \<times> nat" where
  "claim_order r = (- Priority r, ScheduledAt r, ID r)"

definition claim_ids :: "(job_id \<Rightarrow> bool) \<Rightarrow> queue_name \<Rightarrow> time \<Rightarrow> int \<Rightarrow> JobRow list \<Rightarrow> job_id list" where
  "claim_ids skip queue now mx t =
     map ID (limit mx (sort_key claim_order (filter (\<lambda>r. sql_eligible queue now r \<and> \<not> skip (ID r)) t)))"

text \<open>The last 50 nodes: the array slice of Postgres and the JSON removal of the other two.\<close>

definition push_node :: "Dialect \<Rightarrow> node_id \<Rightarrow> node_id list \<Rightarrow> node_id list" where
  "push_node d n xs =
     (if 50 \<le> length xs then (if d = Postgres then drop (length xs - 49) xs else tl xs) else xs) @ [n]"

definition sql_claim_row :: "Dialect \<Rightarrow> time \<Rightarrow> node_id \<Rightarrow> JobRow \<Rightarrow> JobRow" where
  "sql_claim_row d now node r = r\<lparr>
     State := StateRunning, Attempt := Attempt r + 1, AttemptedAt := Some now,
     StartedAt := (case StartedAt r of None \<Rightarrow> Some now | Some t \<Rightarrow> Some t), NodeID := node,
     AttemptedBy := push_node d node (AttemptedBy r)\<rparr>"

definition claim_update :: "Dialect \<Rightarrow> time \<Rightarrow> node_id \<Rightarrow> job_id list \<Rightarrow> sql_db \<Rightarrow> sql_db" where
  "claim_update d now node ids db =
     db\<lparr>jobs := update_where (\<lambda>r. ID r \<in> set ids) (sql_claim_row d now node) (jobs db)\<rparr>"

definition rows_with_ids :: "job_id list \<Rightarrow> sql_db \<Rightarrow> JobRow list" where
  "rows_with_ids ids db = filter (\<lambda>r. ID r \<in> set ids) (jobs db)"

text \<open>
  Postgres: one statement that selects and locks, updates and returns. The rows come in an order
  of the server's choosing; reading them may fail after the update is done.
\<close>

definition claimSkipLocked ::
    "sql_env \<Rightarrow> queue_name \<Rightarrow> node_id \<Rightarrow> int \<Rightarrow> sql_db \<Rightarrow> (error + JobRow list) \<times> sql_db" where
  "claimSkipLocked env queue node mx db =
     (case db_err env 0 of
        Some e \<Rightarrow> (Inl (Wrapf ''failed to claim jobs'' e), db)
      | None \<Rightarrow>
          let now = clk env 0;
              ids = claim_ids (locked env) queue now mx (jobs db);
              db' = claim_update Postgres now node ids db
          in (case db_err env 1 of
                Some e \<Rightarrow> (Inl e, db')
              | None \<Rightarrow> (Inr (sort_key (ret_key env) (rows_with_ids ids db')), db')))"

text \<open>SQLite: the same with a sub-select; the database serialises writers, so nothing is skipped.\<close>

definition claimTransaction ::
    "sql_env \<Rightarrow> queue_name \<Rightarrow> node_id \<Rightarrow> int \<Rightarrow> sql_db \<Rightarrow> (error + JobRow list) \<times> sql_db" where
  "claimTransaction env queue node mx db =
     (case db_err env 0 of
        Some e \<Rightarrow> (Inl e, db)
      | None \<Rightarrow>
          let now = clk env 0;
              ids = claim_ids (\<lambda>_. False) queue now mx (jobs db);
              db' = claim_update SQLite now node ids db
          in (case db_err env 1 of
                Some e \<Rightarrow> (Inl e, db')
              | None \<Rightarrow> (Inr (sort_key (ret_key env) (rows_with_ids ids db')), db')))"

text \<open>
  MySQL: a transaction of three statements. Database calls: 0 begin, 1 select, 2 scan, 3 close,
  then 4 commit when nothing was selected, or 4 update, 5 select, 6 scan, 7 commit.
\<close>

definition claimMySQL ::
    "sql_env \<Rightarrow> queue_name \<Rightarrow> node_id \<Rightarrow> int \<Rightarrow> sql_db \<Rightarrow> (error + JobRow list) \<times> sql_db" where
  "claimMySQL env queue node mx db =
     (let now = clk env 0; ids = claim_ids (locked env) queue now mx (jobs db) in
      case db_err env 0 of Some e \<Rightarrow> (Inl e, db) | None \<Rightarrow>
      case db_err env 1 of Some e \<Rightarrow> (Inl (Wrapf ''select jobs to claim'' e), db) | None \<Rightarrow>
      case (if ids = [] then None else db_err env 2) of Some e \<Rightarrow> (Inl e, db) | None \<Rightarrow>
      case db_err env 3 of Some e \<Rightarrow> (Inl e, db) | None \<Rightarrow>
      if ids = [] then
        (case db_err env 4 of Some e \<Rightarrow> (Inl e, db) | None \<Rightarrow> (Inr [], db))
      else
        (let db' = claim_update MySQL now node ids db in
         case db_err env 4 of Some e \<Rightarrow> (Inl (Wrapf ''claim jobs'' e), db) | None \<Rightarrow>
         case db_err env 5 of Some e \<Rightarrow> (Inl e, db) | None \<Rightarrow>
         case db_err env 6 of Some e \<Rightarrow> (Inl e, db) | None \<Rightarrow>
         case db_err env 7 of Some e \<Rightarrow> (Inl e, db) | None \<Rightarrow>
         (Inr (sort_key claim_order (rows_with_ids ids db')), db')))"

definition sql_Claim ::
    "Dialect \<Rightarrow> sql_env \<Rightarrow> queue_name \<Rightarrow> node_id \<Rightarrow> int \<Rightarrow> sql_db \<Rightarrow> (error + JobRow list) \<times> sql_db" where
  "sql_Claim d env queue node mx db =
     (if mx \<le> 0 then (Inr [], db)
      else case d of
        MySQL \<Rightarrow> claimMySQL env queue node mx db
      | Postgres \<Rightarrow> claimSkipLocked env queue node mx db
      | SQLite \<Rightarrow> claimTransaction env queue node mx db)"


section \<open>Reporting on a claimed job\<close>

definition sql_complete_row :: "time \<Rightarrow> bytes option \<Rightarrow> JobRow \<Rightarrow> JobRow" where
  "sql_complete_row now output r = r\<lparr>State := StateCompleted, Output := output,
     CompletedAt := Some now, FinalizedAt := Some now, NodeID := []\<rparr>"

definition sql_Complete :: "sql_env \<Rightarrow> job_id \<Rightarrow> bytes option \<Rightarrow> sql_db \<Rightarrow> error option \<times> sql_db" where
  "sql_Complete env i output db =
     (case db_err env 0 of
        Some e \<Rightarrow> (Some e, db)
      | None \<Rightarrow>
          let now = clk env 0; p = (\<lambda>r. ID r = i \<and> State r = StateRunning) in
          if count_where p (jobs db) = 0 then (Some ErrJobNotFound, db)
          else (None, db\<lparr>jobs := update_where p (sql_complete_row now output) (jobs db)\<rparr>))"

text \<open>\<^verbatim>\<open>fmt.Sprint(jobErr)\<close>\<close>

definition sprint_error :: "error option \<Rightarrow> string" where
  "sprint_error e = (case e of None \<Rightarrow> ''<nil>'' | Some x \<Rightarrow> error_text x)"

definition attempt_error :: "int \<Rightarrow> string \<Rightarrow> time \<Rightarrow> AttemptError" where
  "attempt_error attempt msg at =
     \<lparr>ae_Attempt = attempt, ae_Error = msg, ae_Timestamp = at, ae_Stack = []\<rparr>"

definition sql_fail_row :: "AttemptError list \<Rightarrow> time \<Rightarrow> JobRow \<Rightarrow> JobRow" where
  "sql_fail_row errs now r = r\<lparr>State := StateFailed, Errors := errs,
     FinalizedAt := Some now, CompletedAt := Some now, NodeID := []\<rparr>"

definition failed_job_of :: "JobRow \<Rightarrow> FailedJob" where
  "failed_job_of r = \<lparr>fj_UUID = UUID r, fj_Queue = Queue r, fj_Kind = Kind r, fj_Payload = Payload r,
     fj_Attempt = Attempt r, fj_MaxAttempts = MaxAttempts r, fj_Errors = Errors r, fj_Tags = Tags r\<rparr>"

definition insertFailedJobTx :: "job_id \<Rightarrow> sql_db \<Rightarrow> sql_db" where
  "insertFailedJobTx i db =
     db\<lparr>failed_jobs := failed_jobs db @ map failed_job_of (filter (\<lambda>r. ID r = i) (jobs db))\<rparr>"

text \<open>
  \<^verbatim>\<open>Fail\<close>: database calls 0 begin, 1 select, 2 update, 3 the copy into \<^verbatim>\<open>failed_jobs\<close>, 4 commit.
\<close>

definition sql_Fail :: "sql_env \<Rightarrow> job_id \<Rightarrow> error option \<Rightarrow> sql_db \<Rightarrow> error option \<times> sql_db" where
  "sql_Fail env i jobErr db =
     (let p = (\<lambda>r. ID r = i \<and> (State r = StateRunning \<or> State r = StateRetryable)) in
      case db_err env 0 of Some e \<Rightarrow> (Some e, db) | None \<Rightarrow>
      case db_err env 1 of Some e \<Rightarrow> (Some e, db) | None \<Rightarrow>
      case find p (jobs db) of
        None \<Rightarrow> (Some ErrJobNotFound, db)
      | Some r0 \<Rightarrow>
          let errs = Errors r0 @ [attempt_error (Attempt r0) (sprint_error jobErr) (clk env 0)];
              db1 = db\<lparr>jobs := update_where p (sql_fail_row errs (clk env 1)) (jobs db)\<rparr>;
              db2 = insertFailedJobTx i db1
          in case db_err env 2 of Some e \<Rightarrow> (Some e, db) | None \<Rightarrow>
             case db_err env 3 of Some e \<Rightarrow> (Some e, db) | None \<Rightarrow>
             case db_err env 4 of Some e \<Rightarrow> (Some e, db) | None \<Rightarrow> (None, db2))"

definition sql_retryable_row :: "AttemptError list \<Rightarrow> time \<Rightarrow> JobRow \<Rightarrow> JobRow" where
  "sql_retryable_row errs scheduledAt r = r\<lparr>State := StateRetryable, Errors := errs,
     ScheduledAt := scheduledAt, NodeID := [], AttemptedAt := None, StartedAt := None,
     CompletedAt := None, FinalizedAt := None, Output := None\<rparr>"

definition sql_ScheduleRetry ::
    "sql_env \<Rightarrow> job_id \<Rightarrow> error option \<Rightarrow> time \<Rightarrow> sql_db \<Rightarrow> error option \<times> sql_db" where
  "sql_ScheduleRetry env i jobErr scheduledAt db =
     (let p = (\<lambda>r. ID r = i \<and> State r = StateRunning);
          err = (case jobErr of None \<Rightarrow> Errorf ''job failed'' | Some e \<Rightarrow> e) in
      case db_err env 0 of Some e \<Rightarrow> (Some e, db) | None \<Rightarrow>
      case db_err env 1 of Some e \<Rightarrow> (Some e, db) | None \<Rightarrow>
      case find p (jobs db) of
        None \<Rightarrow> (Some ErrJobNotFound, db)
      | Some r0 \<Rightarrow>
          let errs = Errors r0 @ [attempt_error (Attempt r0) (sprint_error (Some err)) (clk env 0)];
              db1 = db\<lparr>jobs := update_where p (sql_retryable_row errs scheduledAt) (jobs db)\<rparr>
          in case db_err env 2 of Some e \<Rightarrow> (Some e, db) | None \<Rightarrow>
             case db_err env 3 of Some e \<Rightarrow> (Some e, db) | None \<Rightarrow> (None, db1))"


section \<open>Manual retry and cancellation\<close>

definition sql_GetByID :: "sql_env \<Rightarrow> nat \<Rightarrow> job_id \<Rightarrow> sql_db \<Rightarrow> error + JobRow" where
  "sql_GetByID env k i db =
     (case db_err env k of
        Some e \<Rightarrow> Inl e
      | None \<Rightarrow> (case find_key ID i (jobs db) of None \<Rightarrow> Inl ErrJobNotFound | Some r \<Rightarrow> Inr r))"

definition sql_retryable :: "job_id \<Rightarrow> JobRow \<Rightarrow> bool" where
  "sql_retryable i r \<longleftrightarrow>
     ID r = i \<and> State r \<in> {StateFailed, StateCompleted, StateCancelled, StateRetryable}"

text \<open>\<open>emptyArray\<close> reads back as the empty list in every dialect.\<close>

definition sql_retry_row :: "Dialect \<Rightarrow> time \<Rightarrow> JobRow \<Rightarrow> JobRow" where
  "sql_retry_row d now r = r\<lparr>State := StateAvailable, ScheduledAt := now, NodeID := [], Attempt := 0,
     Errors := [],
     AttemptedBy := (case decodeTextArray (emptyArray d) of None \<Rightarrow> [] | Some xs \<Rightarrow> xs),
     AttemptedAt := None, StartedAt := None, CompletedAt := None, FinalizedAt := None, Output := None\<rparr>"

definition sql_Retry :: "Dialect \<Rightarrow> sql_env \<Rightarrow> job_id \<Rightarrow> sql_db \<Rightarrow> (error + JobRow) \<times> sql_db" where
  "sql_Retry d env i db =
     (case db_err env 0 of
        Some e \<Rightarrow> (Inl e, db)
      | None \<Rightarrow>
          if count_where (sql_retryable i) (jobs db) = 0 then (Inl ErrJobNotFound, db)
          else let db' = db\<lparr>jobs := update_where (sql_retryable i) (sql_retry_row d (clk env 0)) (jobs db)\<rparr>
               in (sql_GetByID env 1 i db', db'))"

text \<open>
  The statement loop of the two batch operations: one update per id, from database call \<open>k\<close>
  (and clock reading \<open>k - 2\<close>) on; \<open>p\<close> guards a row and \<open>f\<close> is what the statement sets.
\<close>

fun batch_updates ::
    "sql_env \<Rightarrow> nat \<Rightarrow> (job_id \<Rightarrow> JobRow \<Rightarrow> bool) \<Rightarrow> (time \<Rightarrow> JobRow \<Rightarrow> JobRow) \<Rightarrow> job_id list \<Rightarrow> sql_db \<Rightarrow> error + sql_db" where
  "batch_updates env k p f [] db = Inr db"
| "batch_updates env k p f (i # is) db =
     (case db_err env k of
        Some e \<Rightarrow> Inl e
      | None \<Rightarrow> batch_updates env (k + 1) p f is
          (db\<lparr>jobs := update_where (p i) (f (clk env (k - 2))) (jobs db)\<rparr>))"

definition batch_tx ::
    "sql_env \<Rightarrow> (job_id \<Rightarrow> JobRow \<Rightarrow> bool) \<Rightarrow> (time \<Rightarrow> JobRow \<Rightarrow> JobRow) \<Rightarrow> job_id list \<Rightarrow> sql_db \<Rightarrow> error option \<times> sql_db" where
  "batch_tx env p f ids db =
     (case db_err env 0 of Some e \<Rightarrow> (Some e, db) | None \<Rightarrow>
      case db_err env 1 of Some e \<Rightarrow> (Some e, db) | None \<Rightarrow>
      case batch_updates env 2 p f ids db of
        Inl e \<Rightarrow> (Some e, db)
      | Inr db' \<Rightarrow> (case db_err env (2 + length ids) of Some e \<Rightarrow> (Some e, db) | None \<Rightarrow> (None, db')))"

definition sql_RetryBatch :: "Dialect \<Rightarrow> sql_env \<Rightarrow> job_id list \<Rightarrow> sql_db \<Rightarrow> error option \<times> sql_db" where
  "sql_RetryBatch d env ids db = batch_tx env sql_retryable (sql_retry_row d) ids db"

definition sql_cancellable :: "job_id \<Rightarrow> JobRow \<Rightarrow> bool" where
  "sql_cancellable i r \<longleftrightarrow>
     ID r = i \<and> State r \<in> {StateAvailable, StatePending, StateScheduled, StateRetryable}"

definition sql_cancel_row :: "time \<Rightarrow> JobRow \<Rightarrow> JobRow" where
  "sql_cancel_row now r = r\<lparr>State := StateCancelled, FinalizedAt := Some now, NodeID := []\<rparr>"

definition sql_Cancel :: "sql_env \<Rightarrow> job_id \<Rightarrow> sql_db \<Rightarrow> (error + JobRow) \<times> sql_db" where
  "sql_Cancel env i db =
     (case db_err env 0 of
        Some e \<Rightarrow> (Inl e, db)
      | None \<Rightarrow>
          if count_where (sql_cancellable i) (jobs db) = 0 then (Inl ErrJobNotFound, db)
          else let db' = db\<lparr>jobs := update_where (sql_cancellable i) (sql_cancel_row (clk env 0)) (jobs db)\<rparr>
               in (sql_GetByID env 1 i db', db'))"

definition sql_CancelBatch :: "sql_env \<Rightarrow> job_id list \<Rightarrow> sql_db \<Rightarrow> error option \<times> sql_db" where
  "sql_CancelBatch env ids db = batch_tx env sql_cancellable sql_cancel_row ids db"


section \<open>Housekeeping\<close>

text \<open>\<^verbatim>\<open>COALESCE(attempted_at, started_at) < cutoff\<close>, false when both are NULL.\<close>

definition stale :: "time \<Rightarrow> JobRow \<Rightarrow> bool" where
  "stale cutoff r \<longleftrightarrow> State r = StateRunning \<and>
     (case (case AttemptedAt r of Some t \<Rightarrow> Some t | None \<Rightarrow> StartedAt r) of
        None \<Rightarrow> False | Some t \<Rightarrow> t < cutoff)"

definition sql_requeue_row :: "time \<Rightarrow> JobRow \<Rightarrow> JobRow" where
  "sql_requeue_row now r = r\<lparr>State := StateAvailable, NodeID := [], ScheduledAt := now,
     AttemptedAt := None, StartedAt := None\<rparr>"

definition sql_RequeueStale :: "sql_env \<Rightarrow> duration \<Rightarrow> sql_db \<Rightarrow> (error + int) \<times> sql_db" where
  "sql_RequeueStale env timeout db =
     (case db_err env 0 of
        Some e \<Rightarrow> (Inl e, db)
      | None \<Rightarrow>
          let now = clk env 0; p = stale (now - timeout) in
          (Inr (int (count_where p (jobs db))),
           db\<lparr>jobs := update_where p (sql_requeue_row now) (jobs db)\<rparr>))"

definition prunable :: "time \<Rightarrow> State list \<Rightarrow> JobRow \<Rightarrow> bool" where
  "prunable before states r \<longleftrightarrow> CreatedAt r < before \<and> State r \<in> set states"

definition sql_Prune :: "sql_env \<Rightarrow> time \<Rightarrow> State list \<Rightarrow> sql_db \<Rightarrow> (error + int) \<times> sql_db" where
  "sql_Prune env before states db =
     (if states = [] then (Inr 0, db)
      else case db_err env 0 of
        Some e \<Rightarrow> (Inl e, db)
      | None \<Rightarrow>
          (Inr (int (count_where (prunable before states) (jobs db))),
           db\<lparr>jobs := filter (\<lambda>r. \<not> prunable before states r) (jobs db)\<rparr>))"

end
