(* ===== verification/Fleet.thy ===== *)
theory Fleet
  imports Driver_Contract
begin

text \<open>
  Several workers on one store. A worker that holds nothing claims, one job at a time; one that holds a job reports on it once, or dies with it; in
  between, other clients call the store too (dispatching, cancelling, the supervisors' re-queueing and pruning). The steps of all interleave in any order, and
  each call may fail or lose its reply as the store's model has it. What is proved holds for every \<open>job_store\<close>.
\<close>

text \<open>What worker \<open>w\<close> is executing: the job and the number of the attempt, as the claim returned them.\<close>

record 's fleet =
  fl_store :: 's
  fl_held :: "nat \<Rightarrow> (job_id \<times> int) option"

fun settles :: "job_id \<Rightarrow> driver_op \<Rightarrow> bool" where
  "settles i (OpComplete j _) \<longleftrightarrow> j = i"
| "settles i (OpFail j _) \<longleftrightarrow> j = i"
| "settles i (OpScheduleRetry j _ _) \<longleftrightarrow> j = i"
| "settles i _ \<longleftrightarrow> False"

definition first_held :: "('s \<Rightarrow> job_id \<Rightarrow> JobRow option) \<Rightarrow> 's \<Rightarrow> job_id list \<Rightarrow> (job_id \<times> int) option" where
  "first_held look s ids = (case ids of [] \<Rightarrow> None | i # _ \<Rightarrow> map_option (\<lambda>r. (i, Attempt r)) (look s i))"

text \<open>
  \<open>E\<close> bounds what the other clients do: the events their calls may cause.
\<close>

inductive fleet_step ::
    "('s \<Rightarrow> job_id \<Rightarrow> JobRow option) \<Rightarrow> ('c \<Rightarrow> driver_op) \<Rightarrow> ('c \<Rightarrow> 's \<Rightarrow> 's) \<Rightarrow> ('c \<Rightarrow> 's \<Rightarrow> job_id list) \<Rightarrow>
     life_event set \<Rightarrow> 's fleet \<Rightarrow> 's fleet \<Rightarrow> bool" for look op_of exec handed E where
  claim: "fl_held f w = None \<Longrightarrow> op_of c = OpClaim q n 1 \<Longrightarrow> s' = exec c (fl_store f) \<Longrightarrow>
    fleet_step look op_of exec handed E f
      (f\<lparr>fl_store := s', fl_held := (fl_held f)(w := first_held look s' (handed c (fl_store f)))\<rparr>)"
| report: "fl_held f w = Some (i, a) \<Longrightarrow> settles i (op_of c) \<Longrightarrow>
    fleet_step look op_of exec handed E f (f\<lparr>fl_store := exec c (fl_store f), fl_held := (fl_held f)(w := None)\<rparr>)"
| crash: "fleet_step look op_of exec handed E f (f\<lparr>fl_held := (fl_held f)(w := None)\<rparr>)"
| other: "op_ok (op_of c) \<Longrightarrow> (\<And>i. op_events (op_of c) i \<subseteq> E) \<Longrightarrow>
    fleet_step look op_of exec handed E f (f\<lparr>fl_store := exec c (fl_store f)\<rparr>)"

definition fleet_start :: "'s \<Rightarrow> 's fleet" where
  "fleet_start s = \<lparr>fl_store = s, fl_held = (\<lambda>_. None)\<rparr>"

lemma settles_ok: "settles i oper \<Longrightarrow> op_ok oper \<and> LRetry \<notin> op_events oper j"
  by (cases oper) auto

lemma settles_events: "settles i oper \<Longrightarrow> j \<noteq> i \<Longrightarrow> op_events oper j = {}"
  by (cases oper) auto

text \<open>
  The invariant of attempts: what a worker holds is an attempt that its job has reached, and no two workers hold the same attempt of a job.
\<close>

definition attempts_ok :: "('s \<Rightarrow> job_id \<Rightarrow> JobRow option) \<Rightarrow> ('s \<Rightarrow> nat) \<Rightarrow> 's fleet \<Rightarrow> bool" where
  "attempts_ok look issued f \<longleftrightarrow>
     (\<forall>w i a. fl_held f w = Some (i, a) \<longrightarrow> i \<le> issued (fl_store f) \<and> (\<forall>r. look (fl_store f) i = Some r \<longrightarrow> a \<le> Attempt r)) \<and>
     (\<forall>v w p. fl_held f v = Some p \<longrightarrow> fl_held f w = Some p \<longrightarrow> v = w)"

text \<open>
  The invariant of jobs, when nothing is re-queued: what a worker holds is running, in the attempt it holds, or gone; and no two workers hold the same job.
\<close>

definition jobs_ok :: "('s \<Rightarrow> job_id \<Rightarrow> JobRow option) \<Rightarrow> ('s \<Rightarrow> nat) \<Rightarrow> 's fleet \<Rightarrow> bool" where
  "jobs_ok look issued f \<longleftrightarrow>
     (\<forall>w i a. fl_held f w = Some (i, a) \<longrightarrow> i \<le> issued (fl_store f) \<and>
        (\<forall>r. look (fl_store f) i = Some r \<longrightarrow> State r = StateRunning \<and> Attempt r = a)) \<and>
     (\<forall>v w i a b. fl_held f v = Some (i, a) \<longrightarrow> fl_held f w = Some (i, b) \<longrightarrow> v = w)"

lemma life_of_claimed:
  "life_step LClaim (life_of r) = Some (life_of r') \<Longrightarrow>
    State r \<noteq> StateRunning \<and> State r' = StateRunning \<and> Attempt r' = Attempt r + 1"
  by (auto simp: life_of_def waiting_def split: if_splits)

context job_store
begin

text \<open>Without a manual retry the attempt of a row does not go back.\<close>

lemma exec_attempt_mono:
  assumes "inv s" "op_ok (op_of c)" "LRetry \<notin> op_events (op_of c) i" "look s i = Some r" "look (exec c s) i = Some r'"
  shows "Attempt r \<le> Attempt r'"
  using exec_life [OF assms(1,2,4,5)] assms(3)
  by (auto simp: row_step_def life_of_eq_iff dest!: life_step_attempt split: if_splits)

lemma look_back:
  assumes "inv s" "op_ok (op_of c)" "i \<le> issued s" "look (exec c s) i = Some r'"
  obtains r where "look s i = Some r"
  using look_gone [OF assms(1,2) _ assms(3)] assms(4) by (cases "look s i") auto

lemma held_attempt_kept:
  assumes "inv s" "op_ok (op_of c)" "LRetry \<notin> op_events (op_of c) i"
    and "i \<le> issued s" "\<forall>r. look s i = Some r \<longrightarrow> a \<le> Attempt r"
  shows "i \<le> issued (exec c s) \<and> (\<forall>r. look (exec c s) i = Some r \<longrightarrow> a \<le> Attempt r)"
proof (intro conjI allI impI)
  show "i \<le> issued (exec c s)" using issued_mono [OF assms(1,2)] assms(4) by simp
  fix r' assume r': "look (exec c s) i = Some r'"
  then obtain r where r: "look s i = Some r" using look_back assms by metis
  then have "a \<le> Attempt r" using assms(5) by blast
  also have "\<dots> \<le> Attempt r'" using exec_attempt_mono [OF assms(1-3) r r'] .
  finally show "a \<le> Attempt r'" .
qed

text \<open>A claimed attempt is one more than any attempt reached before.\<close>

lemma claimed_attempt:
  assumes "inv s" "first_held look (exec c s) (handed c s) = Some (i, a)"
  obtains r r' where "look s i = Some r" "look (exec c s) i = Some r'" "a = Attempt r'" "Attempt r' = Attempt r + 1" "State r' = StateRunning"
    "State r \<noteq> StateRunning"
proof -
  from assms(2) have "i \<in> set (handed c s)" by (auto simp: first_held_def split: list.splits)
  from handed_claims [OF assms(1) this] obtain r r' where r: "look s i = Some r" "look (exec c s) i = Some r'"
      "life_step LClaim (life_of r) = Some (life_of r')" by blast
  with assms(2) have "a = Attempt r'" by (auto simp: first_held_def split: list.splits)
  with r life_of_claimed [OF r(3)] that [of r r'] show ?thesis by blast
qed

text \<open>
  One call and a new assignment of jobs to workers, in which one worker may hold something new: an attempt nobody holds.
\<close>

lemma attempts_ok_after:
  assumes "inv (fl_store f)" "op_ok (op_of c)" "\<And>i. LRetry \<notin> op_events (op_of c) i" "attempts_ok look issued f"
    and H: "\<And>u p. H u = Some p \<Longrightarrow> fl_held f u = Some p \<or> u = w \<and> (\<forall>v. fl_held f v \<noteq> Some p) \<and>
      fst p \<le> issued (exec c (fl_store f)) \<and> (\<forall>r. look (exec c (fl_store f)) (fst p) = Some r \<longrightarrow> snd p \<le> Attempt r)"
  shows "attempts_ok look issued (f\<lparr>fl_store := exec c (fl_store f), fl_held := H\<rparr>)"
proof -
  let ?s = "exec c (fl_store f)"
  have "i \<le> issued ?s \<and> (\<forall>r. look ?s i = Some r \<longrightarrow> a \<le> Attempt r)" if "H u = Some (i, a)" for u i a
  proof (cases "fl_held f u = Some (i, a)")
    case True
    with assms(4) have "i \<le> issued (fl_store f)" "\<forall>r. look (fl_store f) i = Some r \<longrightarrow> a \<le> Attempt r"
      by (auto simp: attempts_ok_def)
    from held_attempt_kept [OF assms(1-3) this] show ?thesis .
  next
    case False
    with H [OF that] show ?thesis by simp
  qed
  moreover have "u = v" if "H u = Some p" "H v = Some p" for u v p
  proof -
    have "x = y" if "fl_held f x = Some p" "fl_held f y = Some p" for x y using assms(4) that unfolding attempts_ok_def by blast
    with H [OF that(1)] H [OF that(2)] show ?thesis by metis
  qed
  ultimately show ?thesis by (simp add: attempts_ok_def)
qed

lemma fleet_attempts_step:
  assumes "fleet_step look op_of exec handed E f f'" "LRetry \<notin> E" "inv (fl_store f)" "attempts_ok look issued f"
  shows "inv (fl_store f') \<and> attempts_ok look issued f'"
  using assms(1)
proof cases
  case (claim w c q n s')
  let ?p = "first_held look s' (handed c (fl_store f))"
  have op: "op_ok (op_of c)" "LRetry \<notin> op_events (op_of c) i" for i using claim(3) by simp_all
  have "(\<forall>v. fl_held f v \<noteq> Some p) \<and> fst p \<le> issued s' \<and> (\<forall>r. look s' (fst p) = Some r \<longrightarrow> snd p \<le> Attempt r)" if "?p = Some p" for p
  proof -
    obtain i a where p: "p = (i, a)" by (cases p)
    from claimed_attempt [OF assms(3)] that claim(4) p obtain r r' where
      r: "look (fl_store f) i = Some r" "look s' i = Some r'" "a = Attempt r'" "Attempt r' = Attempt r + 1" by metis
    have "i \<le> issued s'" using look_issued [OF assms(3) r(1)] issued_mono [OF assms(3) op(1)] claim(4) by simp
    moreover have "fl_held f v \<noteq> Some p" for v using assms(4) r p unfolding attempts_ok_def by fastforce
    ultimately show ?thesis using r p by simp
  qed
  then have "attempts_ok look issued (f\<lparr>fl_store := exec c (fl_store f), fl_held := (fl_held f)(w := ?p)\<rparr>)"
    using claim(4) by (intro attempts_ok_after [OF assms(3) op assms(4), where w = w]) (auto split: if_splits)
  with claim op assms(3) show ?thesis by (simp add: inv_exec)
next
  case (report w i a c)
  have "attempts_ok look issued (f\<lparr>fl_store := exec c (fl_store f), fl_held := (fl_held f)(w := None)\<rparr>)"
    using settles_ok [OF report(3)] by (intro attempts_ok_after [OF assms(3) _ _ assms(4)]) (auto split: if_splits)
  with report settles_ok [OF report(3)] assms(3) show ?thesis by (simp add: inv_exec)
next
  case (crash w)
  with assms(3,4) show ?thesis by (simp add: attempts_ok_def)
next
  case (other c)
  have "attempts_ok look issued (f\<lparr>fl_store := exec c (fl_store f), fl_held := fl_held f\<rparr>)"
    using other(3) assms(2) by (intro attempts_ok_after [OF assms(3) other(2) _ assms(4)]) blast+
  with other assms(3) show ?thesis by (simp add: inv_exec)
qed

lemma fleet_attempts:
  assumes "(fleet_step look op_of exec handed E)\<^sup>*\<^sup>* (fleet_start s) f" "LRetry \<notin> E" "inv s"
  shows "inv (fl_store f) \<and> attempts_ok look issued f"
  using assms(1)
proof (induction rule: rtranclp_induct)
  case base
  show ?case using assms(3) by (simp add: fleet_start_def attempts_ok_def)
next
  case (step f f')
  then show ?case using fleet_attempts_step assms(2) by blast
qed

text \<open>A running row whose events are at most claims and cancellations keeps its state and attempt.\<close>

lemma running_kept:
  assumes "inv s" "op_ok (op_of c)" "op_events (op_of c) i \<subseteq> {LClaim, LCancel}"
    and "look s i = Some r" "State r = StateRunning" "look (exec c s) i = Some r'"
  shows "State r' = StateRunning \<and> Attempt r' = Attempt r"
proof -
  have "row_step (op_events (op_of c) i) r r'" using exec_life [OF assms(1,2,4,6)] .
  moreover have "life_step ev (life_of r) \<noteq> Some (life_of r')" if "ev \<in> {LClaim, LCancel}" for ev
    using life_step_from_running [of ev "life_of r"] that assms(5) by auto
  ultimately have "life_of r' = life_of r" using assms(3) by (auto simp: row_step_def)
  with assms(5) show ?thesis by (simp add: life_of_eq_iff)
qed

lemma held_job_kept:
  assumes "inv s" "op_ok (op_of c)" "op_events (op_of c) i \<subseteq> {LClaim, LCancel}"
    and "i \<le> issued s" "\<forall>r. look s i = Some r \<longrightarrow> State r = StateRunning \<and> Attempt r = a"
  shows "i \<le> issued (exec c s) \<and> (\<forall>r. look (exec c s) i = Some r \<longrightarrow> State r = StateRunning \<and> Attempt r = a)"
proof (intro conjI allI impI)
  show "i \<le> issued (exec c s)" using issued_mono [OF assms(1,2)] assms(4) by simp
  fix r' assume r': "look (exec c s) i = Some r'"
  then obtain r where r: "look s i = Some r" using look_back assms by metis
  with assms(5) running_kept [OF assms(1-3) r _ r'] show "State r' = StateRunning" "Attempt r' = a" by auto
qed

lemma jobs_ok_after:
  assumes "inv (fl_store f)" "op_ok (op_of c)" "jobs_ok look issued f"
    and kept: "\<And>u i a. H u = Some (i, a) \<Longrightarrow> fl_held f u = Some (i, a) \<Longrightarrow> op_events (op_of c) i \<subseteq> {LClaim, LCancel}"
    and H: "\<And>u i a. H u = Some (i, a) \<Longrightarrow> fl_held f u = Some (i, a) \<or> u = w \<and> (\<forall>v b. fl_held f v \<noteq> Some (i, b)) \<and>
      i \<le> issued (exec c (fl_store f)) \<and> (\<forall>r. look (exec c (fl_store f)) i = Some r \<longrightarrow> State r = StateRunning \<and> Attempt r = a)"
  shows "jobs_ok look issued (f\<lparr>fl_store := exec c (fl_store f), fl_held := H\<rparr>)"
proof -
  let ?s = "exec c (fl_store f)"
  have "i \<le> issued ?s \<and> (\<forall>r. look ?s i = Some r \<longrightarrow> State r = StateRunning \<and> Attempt r = a)" if "H u = Some (i, a)" for u i a
  proof (cases "fl_held f u = Some (i, a)")
    case True
    with assms(3) have "i \<le> issued (fl_store f)" "\<forall>r. look (fl_store f) i = Some r \<longrightarrow> State r = StateRunning \<and> Attempt r = a"
      by (auto simp: jobs_ok_def)
    from held_job_kept [OF assms(1,2) kept [OF that True] this] show ?thesis .
  next
    case False
    with H [OF that] show ?thesis by blast
  qed
  moreover have "u = v" if "H u = Some (i, a)" "H v = Some (i, b)" for u v i a b
  proof -
    have "x = y" if "fl_held f x = Some (i, a)" "fl_held f y = Some (i, b)" for x y using assms(3) that unfolding jobs_ok_def by blast
    with H [OF that(1)] H [OF that(2)] show ?thesis by metis
  qed
  ultimately show ?thesis by (simp add: jobs_ok_def)
qed

lemma fleet_jobs_step:
  assumes "fleet_step look op_of exec handed {LCancel} f f'" "inv (fl_store f)" "jobs_ok look issued f"
  shows "inv (fl_store f') \<and> jobs_ok look issued f'"
  using assms(1)
proof cases
  case (claim w c q n s')
  let ?p = "first_held look s' (handed c (fl_store f))"
  have op: "op_ok (op_of c)" "op_events (op_of c) i = {LClaim}" for i using claim(3) by simp_all
  have new: "(\<forall>v b. fl_held f v \<noteq> Some (i, b)) \<and> i \<le> issued s' \<and> (\<forall>r. look s' i = Some r \<longrightarrow> State r = StateRunning \<and> Attempt r = a)"
    if "?p = Some (i, a)" for i a
  proof -
    from claimed_attempt [OF assms(2)] that claim(4) obtain r r' where
      r: "look (fl_store f) i = Some r" "look s' i = Some r'" "a = Attempt r'" "State r' = StateRunning" "State r \<noteq> StateRunning" by metis
    have "i \<le> issued s'" using look_issued [OF assms(2) r(1)] issued_mono [OF assms(2) op(1)] claim(4) by simp
    moreover have "fl_held f v \<noteq> Some (i, b)" for v b using assms(3) r unfolding jobs_ok_def by blast
    ultimately show ?thesis using r by simp
  qed
  have "jobs_ok look issued (f\<lparr>fl_store := exec c (fl_store f), fl_held := (fl_held f)(w := ?p)\<rparr>)"
  proof (rule jobs_ok_after [OF assms(2) op(1) assms(3), where w = w])
    fix u i a assume "((fl_held f)(w := ?p)) u = Some (i, a)"
    then show "fl_held f u = Some (i, a) \<or> u = w \<and> (\<forall>v b. fl_held f v \<noteq> Some (i, b)) \<and>
        i \<le> issued (exec c (fl_store f)) \<and> (\<forall>r. look (exec c (fl_store f)) i = Some r \<longrightarrow> State r = StateRunning \<and> Attempt r = a)"
      using new claim(4) by (cases "u = w") auto
  qed (simp add: op)
  with claim op assms(2) show ?thesis by (simp add: inv_exec)
next
  case (report w i a c)
  have other_job: "j \<noteq> i" if "((fl_held f)(w := None)) u = Some (j, b)" for u j b
    using that assms(3) report(2) unfolding jobs_ok_def by (metis fun_upd_apply option.distinct(1))
  have "jobs_ok look issued (f\<lparr>fl_store := exec c (fl_store f), fl_held := (fl_held f)(w := None)\<rparr>)"
  proof (rule jobs_ok_after [OF assms(2) _ assms(3)])
    show "op_ok (op_of c)" using settles_ok [OF report(3)] by blast
    show "op_events (op_of c) j \<subseteq> {LClaim, LCancel}" if "((fl_held f)(w := None)) u = Some (j, b)" for u j b
      using settles_events [OF report(3) other_job [OF that]] by simp
  qed (auto split: if_splits)
  with report settles_ok [OF report(3)] assms(2) show ?thesis by (simp add: inv_exec)
next
  case (crash w)
  with assms(2,3) show ?thesis by (auto simp: jobs_ok_def)
next
  case (other c)
  have "jobs_ok look issued (f\<lparr>fl_store := exec c (fl_store f), fl_held := fl_held f\<rparr>)"
    using other(3) by (intro jobs_ok_after [OF assms(2) other(2) assms(3)]) blast+
  with other assms(2) show ?thesis by (simp add: inv_exec)
qed

lemma fleet_jobs:
  assumes "(fleet_step look op_of exec handed {LCancel})\<^sup>*\<^sup>* (fleet_start s) f" "inv s"
  shows "inv (fl_store f) \<and> jobs_ok look issued f"
  using assms(1)
proof (induction rule: rtranclp_induct)
  case base
  show ?case using assms(2) by (simp add: fleet_start_def jobs_ok_def)
next
  case (step f f')
  then show ?case using fleet_jobs_step by blast
qed

end

end
