(* ===== verification/Sql_Store.thy ===== *)
theory Sql_Store
  imports Sql_Driver Fleet
begin

text \<open>
  The SQL driver as a store of jobs: the invariant of the \<^verbatim>\<open>jobs\<close> table, what one call does to
  one row, and the interpretation of \<open>job_store\<close> for each of the three dialects.
\<close>


section \<open>Calls on the database\<close>

type_synonym sql_call = "driver_op \<times> sql_env"

fun sql_exec :: "Dialect \<Rightarrow> sql_call \<Rightarrow> sql_db \<Rightarrow> sql_db" where
  "sql_exec d (OpEnqueue r, env) db = snd (sql_Enqueue d env (Some r) db)"
| "sql_exec d (OpEnqueueBatch rs, env) db = snd (sql_EnqueueBatch d env (map Some rs) db)"
| "sql_exec d (OpClaim q n m, env) db = snd (sql_Claim d env q n m db)"
| "sql_exec d (OpComplete i out, env) db = snd (sql_Complete env i out db)"
| "sql_exec d (OpFail i e, env) db = snd (sql_Fail env i e db)"
| "sql_exec d (OpScheduleRetry i e t, env) db = snd (sql_ScheduleRetry env i e t db)"
| "sql_exec d (OpRetry i, env) db = snd (sql_Retry d env i db)"
| "sql_exec d (OpRetryBatch is, env) db = snd (sql_RetryBatch d env is db)"
| "sql_exec d (OpCancel i, env) db = snd (sql_Cancel env i db)"
| "sql_exec d (OpCancelBatch is, env) db = snd (sql_CancelBatch env is db)"
| "sql_exec d (OpRequeueStale t, env) db = snd (sql_RequeueStale env t db)"
| "sql_exec d (OpPrune t sts, env) db = snd (sql_Prune env t sts db)"

fun sql_handed :: "Dialect \<Rightarrow> sql_call \<Rightarrow> sql_db \<Rightarrow> job_id list" where
  "sql_handed d (OpClaim q n m, env) db =
     (case fst (sql_Claim d env q n m db) of Inl _ \<Rightarrow> [] | Inr rows \<Rightarrow> map ID rows)"
| "sql_handed d _ db = []"

definition sql_look :: "sql_db \<Rightarrow> job_id \<Rightarrow> JobRow option" where
  "sql_look db i = find_key ID i (jobs db)"

text \<open>
  The primary key, the unique column, and the sequence the ids come from.
\<close>

definition sql_inv :: "sql_db \<Rightarrow> bool" where
  "sql_inv db \<longleftrightarrow> distinct (map ID (jobs db)) \<and> distinct (map UUID (jobs db)) \<and>
     (\<forall>r \<in> set (jobs db). ID r \<le> last_id db)"

lemma sql_look_Some_iff: "sql_inv db \<Longrightarrow> sql_look db i = Some r \<longleftrightarrow> r \<in> set (jobs db) \<and> ID r = i"
  by (simp add: sql_inv_def sql_look_def find_key_Some_iff)

lemma sql_look_ID: "sql_look db i = Some r \<Longrightarrow> ID r = i"
  by (auto simp: sql_look_def dest: find_key_SomeD)


section \<open>What one statement does\<close>

abbreviation table_step :: "(job_id \<Rightarrow> life_event set) \<Rightarrow> sql_db \<Rightarrow> sql_db \<Rightarrow> bool" where
  "table_step \<equiv> store_step sql_look sql_inv last_id"

lemma table_step_jobs_same:
  "jobs db' = jobs db \<Longrightarrow> last_id db' = last_id db \<Longrightarrow> table_step E db db'"
  by (auto simp: store_step_def sql_inv_def sql_look_def)

text \<open>An \<^verbatim>\<open>UPDATE\<close> that leaves both keys alone.\<close>

lemma table_step_update:
  assumes jobs': "jobs db' = update_where p f (jobs db)" and last: "last_id db' = last_id db"
    and keys: "\<And>r. ID (f r) = ID r" "\<And>r. UUID (f r) = UUID r"
    and row: "\<And>r. p r \<Longrightarrow> row_step (E (ID r)) r (f r)"
  shows "table_step E db db'"
proof -
  have look': "sql_look db' i = map_option (\<lambda>r. if p r then f r else r) (sql_look db i)" for i
    by (simp add: sql_look_def jobs' find_key_update_where keys)
  have "sql_inv db \<Longrightarrow> sql_inv db'"
    by (auto simp: sql_inv_def jobs' last map_update_where keys set_update_where)
  then show ?thesis
    using row by (auto simp: store_step_def look' last dest: sql_look_ID)
qed

lemma table_step_delete:
  assumes jobs': "jobs db' = filter p (jobs db)" and last: "last_id db' = last_id db"
  shows "table_step E db db'"
proof -
  have "sql_inv db \<Longrightarrow> sql_inv db'"
    by (simp add: sql_inv_def jobs' last distinct_map_filter)
  moreover have "sql_inv db \<Longrightarrow> sql_look db' i =
      (case sql_look db i of None \<Rightarrow> None | Some r \<Rightarrow> if p r then Some r else None)" for i
    by (simp add: sql_look_def jobs' find_key_filter sql_inv_def)
  ultimately show ?thesis
    by (auto simp: store_step_def last split: if_splits)
qed

lemma table_step_insert:
  assumes jobs': "jobs db' = jobs db @ [r]" and fresh: "last_id db < ID r"
    and last: "last_id db' = ID r" and uuid: "UUID r \<notin> UUID ` set (jobs db)"
  shows "table_step E db db'"
proof -
  have "sql_inv db \<Longrightarrow> sql_inv db'"
    using fresh uuid by (force simp: sql_inv_def jobs' last)
  moreover have "sql_look db' i = (case sql_look db i of None \<Rightarrow> if i = ID r then Some r else None | Some r \<Rightarrow> Some r)" for i
    by (auto simp: sql_look_def jobs' find_key_append split: option.split)
  ultimately show ?thesis
    using fresh by (auto simp: store_step_def last split: if_splits)
qed

text \<open>Steps that leave the rows that exist alone, as inserts do, compose.\<close>

definition only_adds :: "sql_db \<Rightarrow> sql_db \<Rightarrow> bool" where
  "only_adds db db' \<longleftrightarrow> table_step (\<lambda>_. {}) db db' \<and>
     (\<forall>i r. sql_look db i = Some r \<longrightarrow> sql_look db' i = Some r)"

lemma only_adds_refl [simp]: "only_adds db db"
  by (simp add: only_adds_def)

lemma only_adds_trans: "only_adds db db' \<Longrightarrow> only_adds db' db'' \<Longrightarrow> only_adds db db''"
  unfolding only_adds_def store_step_def
  by (smt (verit) dual_order.trans option.inject row_step_refl)

lemma only_adds_table_step: "only_adds db db' \<Longrightarrow> table_step E db db'"
  by (auto simp: only_adds_def store_step_def)

lemma insert_job_adds: "insert_job d env job db = (Inr i, db') \<Longrightarrow> only_adds db db'"
proof -
  assume *: "insert_job d env job db = (Inr i, db')"
  then have jobs': "jobs db' = jobs db @ [inserted_row d i job]"
    and i: "i = last_id db + 1 + id_gap env" and last: "last_id db' = i"
    and uuid: "UUID job \<notin> UUID ` set (jobs db)"
    by (auto simp: insert_job_def Let_def split: if_splits)
  have "table_step (\<lambda>_. {}) db db'"
    by (rule table_step_insert [OF jobs']) (use i last uuid in \<open>auto simp: inserted_row_def\<close>)
  then show ?thesis
    by (auto simp: only_adds_def sql_look_def jobs' find_key_append)
qed

lemma insert_batch_adds: "only_adds db (snd (insert_batch d env k rs db))"
proof (induction rs arbitrary: k db)
  case Nil
  then show ?case by simp
next
  case (Cons r rs)
  show ?case
    using insert_job_adds only_adds_trans [OF _ Cons.IH]
    by (auto split: option.split sum.split prod.split) (metis snd_conv only_adds_trans [OF _ Cons.IH])+
qed


section \<open>What one call does\<close>

lemma Enqueue_step: "table_step E db (snd (sql_Enqueue d env oj db))"
  by (auto simp: sql_Enqueue_def only_adds_table_step [OF insert_job_adds]
      split: option.split sum.split prod.split)

lemma EnqueueBatch_step: "table_step E db (snd (sql_EnqueueBatch d env ojs db))"
  using only_adds_table_step [OF insert_batch_adds [of db d env 2 "map the ojs"]]
  by (auto simp: sql_EnqueueBatch_def split: option.split sum.split prod.split)

lemma life_of_rows [row_simps]:
  "life_of (sql_claim_row d now n r) = (life_of r)\<lparr>l_state := StateRunning, l_attempt := Attempt r + 1\<rparr>"
  "life_of (sql_complete_row now out r) = (life_of r)\<lparr>l_state := StateCompleted\<rparr>"
  "life_of (sql_fail_row errs now r) = (life_of r)\<lparr>l_state := StateFailed\<rparr>"
  "life_of (sql_retryable_row errs at r) = (life_of r)\<lparr>l_state := StateRetryable\<rparr>"
  "life_of (sql_retry_row d now r) = (life_of r)\<lparr>l_state := StateAvailable, l_attempt := 0\<rparr>"
  "life_of (sql_cancel_row now r) = (life_of r)\<lparr>l_state := StateCancelled\<rparr>"
  "life_of (sql_requeue_row now r) = (life_of r)\<lparr>l_state := StateAvailable\<rparr>"
  by (simp_all add: life_of_def sql_claim_row_def sql_complete_row_def sql_fail_row_def
      sql_retryable_row_def sql_retry_row_def sql_cancel_row_def sql_requeue_row_def)

lemma keys_of_rows [row_simps]:
  "ID (sql_claim_row d now n r) = ID r" "UUID (sql_claim_row d now n r) = UUID r"
  "ID (sql_complete_row now out r) = ID r" "UUID (sql_complete_row now out r) = UUID r"
  "ID (sql_fail_row errs now r) = ID r" "UUID (sql_fail_row errs now r) = UUID r"
  "ID (sql_retryable_row errs at r) = ID r" "UUID (sql_retryable_row errs at r) = UUID r"
  "ID (sql_retry_row d now r) = ID r" "UUID (sql_retry_row d now r) = UUID r"
  "ID (sql_cancel_row now r) = ID r" "UUID (sql_cancel_row now r) = UUID r"
  "ID (sql_requeue_row now r) = ID r" "UUID (sql_requeue_row now r) = UUID r"
  by (simp_all add: sql_claim_row_def sql_complete_row_def sql_fail_row_def
      sql_retryable_row_def sql_retry_row_def sql_cancel_row_def sql_requeue_row_def)

lemma Complete_step: "table_step (op_events (OpComplete i out)) db (snd (sql_Complete env i out db))"
  unfolding sql_Complete_def Let_def
  by (auto split: option.split intro!: table_step_update simp: row_step_def row_simps)

lemma Fail_step: "table_step (op_events (OpFail i e)) db (snd (sql_Fail env i e db))"
  unfolding sql_Fail_def Let_def insertFailedJobTx_def
  by (auto split: option.split intro!: table_step_update simp: row_step_def row_simps)

lemma ScheduleRetry_step:
  "table_step (op_events (OpScheduleRetry i e t)) db (snd (sql_ScheduleRetry env i e t db))"
  unfolding sql_ScheduleRetry_def Let_def
  by (auto split: option.split intro!: table_step_update simp: row_step_def row_simps)

lemma Retry_step: "table_step (op_events (OpRetry i)) db (snd (sql_Retry d env i db))"
  unfolding sql_Retry_def Let_def
  by (auto split: option.split intro!: table_step_update simp: row_step_def row_simps sql_retryable_def)

lemma Cancel_step: "table_step (op_events (OpCancel i)) db (snd (sql_Cancel env i db))"
  unfolding sql_Cancel_def Let_def
  by (auto split: option.split intro!: table_step_update simp: row_step_def row_simps sql_cancellable_def)

lemma RequeueStale_step:
  "table_step (op_events (OpRequeueStale t)) db (snd (sql_RequeueStale env t db))"
  unfolding sql_RequeueStale_def Let_def
  by (auto split: option.split intro!: table_step_update simp: row_step_def row_simps stale_def)

lemma Prune_step: "table_step E db (snd (sql_Prune env t sts db))"
  unfolding sql_Prune_def
  by (auto split: option.split intro!: table_step_delete)

text \<open>
  The batch operations: a row the statement has moved is out of the statement's reach, so that each
  row is moved once however often its id is listed.
\<close>

lemma batch_updates_row:
  assumes "\<And>i r. p i r \<Longrightarrow> ID r = i" and "\<And>t r. ID (f t r) = ID r" and "\<And>i t r. \<not> p i (f t r)"
  shows "batch_updates env k p f is db = Inr db' \<Longrightarrow>
    \<exists>t. \<forall>r. sql_look db i = Some r \<longrightarrow> sql_look db' i = Some (if i \<in> set is \<and> p i r then f t r else r)"
proof (induction "is" arbitrary: k db)
  case Nil
  then show ?case by simp
next
  case (Cons j "is")
  let ?db = "db\<lparr>jobs := update_where (p j) (f (clk env (k - 2))) (jobs db)\<rparr>"
  have "batch_updates env (k + 1) p f is ?db = Inr db'"
    using Cons.prems by (simp split: option.splits)
  from Cons.IH [OF this] obtain t where
    t: "\<And>r. sql_look ?db i = Some r \<Longrightarrow> sql_look db' i = Some (if i \<in> set is \<and> p i r then f t r else r)"
    by auto
  have look: "sql_look ?db i = map_option (\<lambda>r. if p j r then f (clk env (k - 2)) r else r) (sql_look db i)"
    by (simp add: sql_look_def find_key_update_where assms(2))
  show ?case
  proof (rule exI [of _ "if j = i then clk env (k - 2) else t"], intro allI impI)
    fix r assume r: "sql_look db i = Some r"
    then have "ID r = i" by (rule sql_look_ID)
    then have "p j r \<longleftrightarrow> j = i \<and> p i r" using assms(1) by blast
    with r look have r': "sql_look ?db i = Some (if j = i \<and> p i r then f (clk env (k - 2)) r else r)"
      by simp
    show "sql_look db' i =
        Some (if i \<in> set (j # is) \<and> p i r then f (if j = i then clk env (k - 2) else t) r else r)"
      using t [OF r'] assms(3) by (cases "j = i \<and> p i r") auto
  qed
qed

lemma batch_updates_frame:
  assumes "\<And>t r. ID (f t r) = ID r" "\<And>t r. UUID (f t r) = UUID r"
  shows "batch_updates env k p f is db = Inr db' \<Longrightarrow>
    map ID (jobs db') = map ID (jobs db) \<and> map UUID (jobs db') = map UUID (jobs db) \<and> last_id db' = last_id db"
  by (induction "is" arbitrary: k db) (auto simp: map_update_where assms split: option.splits)

lemma sql_inv_frame:
  assumes "map ID (jobs db') = map ID (jobs db)" "map UUID (jobs db') = map UUID (jobs db)" "last_id db' = last_id db"
  shows "sql_inv db' \<longleftrightarrow> sql_inv db" "sql_look db' i = None \<longleftrightarrow> sql_look db i = None"
proof -
  have "sql_inv x \<longleftrightarrow> distinct (map ID (jobs x)) \<and> distinct (map UUID (jobs x)) \<and>
      (\<forall>i \<in> set (map ID (jobs x)). i \<le> last_id x)" for x
    by (auto simp: sql_inv_def)
  then show "sql_inv db' \<longleftrightarrow> sql_inv db" by (simp only: assms)
  have "sql_look x i = None \<longleftrightarrow> i \<notin> set (map ID (jobs x))" for x
    by (simp add: sql_look_def find_key_None_iff)
  then show "sql_look db' i = None \<longleftrightarrow> sql_look db i = None" by (simp only: assms)
qed

lemma batch_tx_step:
  assumes pf: "\<And>i r. p i r \<Longrightarrow> ID r = i" "\<And>t r. ID (f t r) = ID r" "\<And>i t r. \<not> p i (f t r)"
      "\<And>t r. UUID (f t r) = UUID r"
    and row: "\<And>i t r. p i r \<Longrightarrow> row_step E r (f t r)"
  shows "table_step (\<lambda>i. if i \<in> set is then E else {}) db (snd (batch_tx env p f is db))"
proof (cases "snd (batch_tx env p f is db) = db")
  case False
  then obtain db' where db': "batch_updates env 2 p f is db = Inr db'" "snd (batch_tx env p f is db) = db'"
    by (auto simp: batch_tx_def split: option.splits sum.splits)
  note frame = batch_updates_frame [OF pf(2,4) db'(1)]
  have "row_step (if i \<in> set is then E else {}) r r'"
    if "sql_look db i = Some r" "sql_look db' i = Some r'" for i r r'
    using batch_updates_row [OF pf(1-3) db'(1), of i] that row by (auto split: if_splits)
  then show ?thesis
    using frame by (simp add: store_step_def db'(2) sql_inv_frame [of db' db])
qed simp

lemma op_events_batch:
  "op_events (OpRetryBatch is) = (\<lambda>i. if i \<in> set is then {LRetry} else {})"
  "op_events (OpCancelBatch is) = (\<lambda>i. if i \<in> set is then {LCancel} else {})"
  by (auto simp: fun_eq_iff)

lemma RetryBatch_step: "table_step (op_events (OpRetryBatch is)) db (snd (sql_RetryBatch d env is db))"
  unfolding sql_RetryBatch_def op_events_batch
  by (rule batch_tx_step) (auto simp: row_simps row_step_def sql_retryable_def sql_retry_row_def)

lemma CancelBatch_step: "table_step (op_events (OpCancelBatch is)) db (snd (sql_CancelBatch env is db))"
  unfolding sql_CancelBatch_def op_events_batch
  by (rule batch_tx_step) (auto simp: row_simps row_step_def sql_cancellable_def sql_cancel_row_def)


section \<open>Claiming\<close>

lemma claim_idsD:
  "i \<in> set (claim_ids skip q now m t) \<Longrightarrow> \<exists>r \<in> set t. ID r = i \<and> sql_eligible q now r \<and> \<not> skip i"
  by (auto simp: claim_ids_def dest!: set_limit_subset [THEN subsetD])

lemma distinct_claim_ids: "distinct (map ID t) \<Longrightarrow> distinct (claim_ids skip q now m t)"
proof -
  let ?xs = "filter (\<lambda>r. sql_eligible q now r \<and> \<not> skip (ID r)) t"
  assume "distinct (map ID t)"
  then have "distinct (map ID ?xs)" by (rule distinct_map_filter)
  then have "distinct (map ID (sort_key claim_order ?xs))"
    using distinct_map_perm [OF mset_sort] by blast
  then show ?thesis
    by (simp only: claim_ids_def limit_def take_map [symmetric] distinct_take)
qed

lemma length_claim_ids: "0 \<le> m \<Longrightarrow> int (length (claim_ids skip q now m t)) \<le> m"
  by (simp add: claim_ids_def length_limit_le)

text \<open>Every claim ends in one of two ways, whatever the dialect and the faults.\<close>

lemma sql_Claim_cases:
  obtains (nothing) "snd (sql_Claim d env q n m db) = db"
      "fst (sql_Claim d env q n m db) = Inr [] \<or> (\<exists>e. fst (sql_Claim d env q n m db) = Inl e)"
  | (claimed) skip where "0 < m"
      "snd (sql_Claim d env q n m db) =
         claim_update d (clk env 0) n (claim_ids skip q (clk env 0) m (jobs db)) db"
      "(\<exists>e. fst (sql_Claim d env q n m db) = Inl e) \<or>
       (\<exists>rows. fst (sql_Claim d env q n m db) = Inr rows \<and> mset rows =
          mset (rows_with_ids (claim_ids skip q (clk env 0) m (jobs db)) (snd (sql_Claim d env q n m db))))"
proof (cases "0 < m")
  case False
  show ?thesis by (rule nothing) (use False in \<open>simp_all add: sql_Claim_def\<close>)
next
  case m: True
  show ?thesis
  proof (cases "snd (sql_Claim d env q n m db) = db \<and>
      (fst (sql_Claim d env q n m db) = Inr [] \<or> (\<exists>e. fst (sql_Claim d env q n m db) = Inl e))")
    case True
    show ?thesis by (rule nothing) (use True in blast)+
  next
    case False
    show ?thesis
      by (rule claimed [of "if d = SQLite then \<lambda>_. False else locked env"]; cases d)
        (use False m in \<open>auto simp: sql_Claim_def claimMySQL_def claimTransaction_def claimSkipLocked_def Let_def
          split: option.splits if_splits\<close>)
  qed
qed

lemma claim_update_step:
  assumes "sql_inv db"
  shows "table_step (op_events (OpClaim q n m)) db (claim_update d now n (claim_ids skip q now m (jobs db)) db)"
proof -
  let ?ids = "claim_ids skip q now m (jobs db)"
  let ?p = "\<lambda>r. ID r \<in> set ?ids \<and> sql_eligible q now r"
  have "sql_eligible q now r" if r: "r \<in> set (jobs db)" "ID r \<in> set ?ids" for r
  proof -
    from claim_idsD [OF that(2)] obtain r' where "r' \<in> set (jobs db)" "ID r' = ID r" "sql_eligible q now r'"
      by auto
    then show ?thesis using r(1) assms by (metis distinct_map inj_onD sql_inv_def)
  qed
  then have "update_where (\<lambda>r. ID r \<in> set ?ids) (sql_claim_row d now n) (jobs db) =
      update_where ?p (sql_claim_row d now n) (jobs db)"
    by (auto simp: update_where_def)
  then show ?thesis
    by (intro table_step_update [where p = ?p and f = "sql_claim_row d now n"])
      (auto simp: claim_update_def row_simps row_step_def sql_eligible_def waiting_def)
qed

lemma Claim_step: "sql_inv db \<Longrightarrow> table_step (op_events (OpClaim q n m)) db (snd (sql_Claim d env q n m db))"
  by (rule sql_Claim_cases [of d env q n m db]) (auto simp del: op_events.simps simp: claim_update_step)

text \<open>The rows a claim returns are the rows it updated.\<close>

lemma handed_row:
  assumes inv: "sql_inv db" and i: "i \<in> set (sql_handed d (OpClaim q n m, env) db)"
  obtains r where "sql_look db i = Some r" "sql_eligible q (clk env 0) r"
    "sql_look (snd (sql_Claim d env q n m db)) i = Some (sql_claim_row d (clk env 0) n r)"
proof (cases rule: sql_Claim_cases [of d env q n m db])
  case nothing
  with i have False by auto
  then show ?thesis ..
next
  case (claimed skip)
  let ?ids = "claim_ids skip q (clk env 0) m (jobs db)"
  from claimed(3) i have "i \<in> ID ` set (rows_with_ids ?ids (snd (sql_Claim d env q n m db)))"
    by (auto dest: mset_eq_setD)
  then have "i \<in> set ?ids" by (auto simp: rows_with_ids_def)
  moreover from claim_idsD [OF this] obtain r where r: "r \<in> set (jobs db)" "ID r = i" "sql_eligible q (clk env 0) r"
    by auto
  moreover have "sql_look db i = Some r" using r inv by (simp add: sql_look_Some_iff)
  ultimately show ?thesis
    by (intro that [of r]) (simp_all add: claimed(2) claim_update_def sql_look_def find_key_update_where row_simps)
qed

lemma distinct_handed:
  assumes "sql_inv db" shows "distinct (sql_handed d (OpClaim q n m, env) db)"
proof (cases rule: sql_Claim_cases [of d env q n m db])
  case nothing
  then show ?thesis by auto
next
  case (claimed skip)
  let ?db = "snd (sql_Claim d env q n m db)"
  have "sql_inv ?db" using Claim_step [OF assms, of q n m d env] assms by (simp add: store_step_def)
  then have "distinct (map ID (rows_with_ids ids ?db))" for ids
    by (simp add: rows_with_ids_def sql_inv_def distinct_map_filter)
  then show ?thesis using claimed(3) distinct_map_perm by (metis distinct.simps(1) map_is_Nil_conv old.sum.simps(5,6) sql_handed.simps(1))
qed


section \<open>The SQL driver is a store of jobs\<close>

lemma sql_exec_step: "sql_inv db \<Longrightarrow> table_step (op_events (fst c)) db (sql_exec d c db)"
  by (cases "(d, c, db)" rule: sql_exec.cases)
    (simp_all del: op_events.simps add: Enqueue_step EnqueueBatch_step Claim_step Complete_step Fail_step
      ScheduleRetry_step Retry_step RetryBatch_step Cancel_step CancelBatch_step RequeueStale_step Prune_step)

lemma sql_handed_op: "sql_handed d c db \<noteq> [] \<Longrightarrow> \<exists>q n m. fst c = OpClaim q n m"
  by (cases "(d, c, db)" rule: sql_handed.cases) auto

interpretation sql: job_store sql_look sql_inv fst "sql_exec d" "sql_handed d" last_id for d
proof unfold_locales
  fix s :: sql_db and c :: sql_call and i r r'
  show "sql_inv s \<Longrightarrow> table_step (op_events (fst c)) s (sql_exec d c s)" by (rule sql_exec_step)
  show "sql_inv s \<Longrightarrow> i \<in> set (sql_handed d c s) \<Longrightarrow>
      \<exists>r r'. sql_look s i = Some r \<and> sql_look (sql_exec d c s) i = Some r' \<and>
        life_step LClaim (life_of r) = Some (life_of r')"
  proof -
    assume inv: "sql_inv s" and i: "i \<in> set (sql_handed d c s)"
    then obtain q n m env where c: "c = (OpClaim q n m, env)"
      using sql_handed_op [of d c s] by (cases c) force
    from handed_row [OF inv i [unfolded c]] obtain r where
      "sql_look s i = Some r" "sql_eligible q (clk env 0) r"
      "sql_look (snd (sql_Claim d env q n m s)) i = Some (sql_claim_row d (clk env 0) n r)" .
    then show ?thesis
      by (auto simp: c row_simps sql_eligible_def waiting_def)
  qed
  show "sql_handed d c s \<noteq> [] \<Longrightarrow> \<exists>q n m. fst c = OpClaim q n m" by (rule sql_handed_op)
  show "sql_inv s \<Longrightarrow> distinct (sql_handed d c s)"
    using distinct_handed by (cases "(d, c, s)" rule: sql_handed.cases) auto
  show "sql_inv s \<Longrightarrow> sql_look s i = Some r \<Longrightarrow> i \<le> last_id s"
    by (auto simp: sql_inv_def sql_look_def dest: find_key_SomeD)
qed

end
