(* ===== verification/Sql_Properties.thy ===== *)
theory Sql_Properties
  imports Sql_Store
begin

text \<open>
  What the SQL driver guarantees: the consequences of the store contract for the three dialects,
  the order in which jobs are claimed, the atomicity of the transactions under any pattern of
  database faults, and the bounds on what a row accumulates.
\<close>


section \<open>A small database to evaluate on\<close>

definition sample_row :: "job_id \<Rightarrow> State \<Rightarrow> int \<Rightarrow> int \<Rightarrow> JobRow" where
  "sample_row i st prio at = zero_row\<lparr>ID := i, UUID := replicate i (CHR ''u''), Queue := ''default'',
     Kind := ''mail'', State := st, Priority := prio, MaxAttempts := 3, ScheduledAt := at, CreatedAt := at,
     Tags := Some []\<rparr>"

definition sample_db :: "JobRow list \<Rightarrow> sql_db" where
  "sample_db rs = \<lparr>jobs = rs, last_id = 9, failed_jobs = [], nodes = [], leader = None, locks = []\<rparr>"

definition calm :: sql_env where
  "calm = \<lparr>clk = (\<lambda>k. 100 + int k), db_err = (\<lambda>_. None), locked = (\<lambda>_. False), ret_key = ID, id_gap = 0,
     constraint_err = Errorf ''constraint failed''\<rparr>"

lemmas sample_simps = sample_row_def sample_db_def calm_def zero_row_def


section \<open>The life of a job\<close>

text \<open>
  On every dialect, from every database that satisfies the invariant of the jobs table, and
  whatever calls follow (by any process, with any faults), a job with no manual retry among those
  calls is handed to a worker at most as often as it has attempts left.\<close>

theorem sql_handed_at_most_attempts_left:
  assumes "sql_inv db" and "calls_ok fst cs" and "avoids fst i {LRetry} cs"
    and "sql_look db i = Some r"
  shows "times_handed (sql_exec d) (sql_handed d) i cs db \<le> nat (MaxAttempts r - Attempt r)"
  using assms by (rule sql.handed_at_most)

lemma sample_inv: "sql_inv (sample_db [sample_row 1 StateAvailable 0 5, sample_row 2 StateAvailable 7 50])"
  by (simp add: sql_inv_def sample_simps numeral_2_eq_2)

theorem sql_handed_at_most_attempts_left_witness:
  "times_handed (sql_exec SQLite) (sql_handed SQLite) 1
     [(OpClaim ''default'' ''n1'' 5, calm), (OpComplete 1 None, calm), (OpClaim ''default'' ''n1'' 5, calm)]
     (sample_db [sample_row 1 StateAvailable 0 5, sample_row 2 StateAvailable 7 50]) \<le> 3"
  using sql_handed_at_most_attempts_left [OF sample_inv, of
      "[(OpClaim ''default'' ''n1'' 5, calm), (OpComplete 1 None, calm), (OpClaim ''default'' ''n1'' 5, calm)]" 1
      "sample_row 1 StateAvailable 0 5" SQLite]
  by (simp add: sql_look_def sample_simps)

text \<open>
  A job that is running is not handed out again, and stays running, until a call reports on it
  or re-queues it as stale: two workers never hold the same attempt.\<close>

theorem sql_running_is_exclusive:
  assumes "sql_inv db" and "calls_ok fst cs"
    and "avoids fst i {LComplete, LFail, LScheduleRetry, LRequeue} cs"
    and "sql_look db i = Some r" and "State r = StateRunning"
  shows "times_handed (sql_exec d) (sql_handed d) i cs db = 0 \<and>
    (\<forall>r'. sql_look (run_calls (sql_exec d) cs db) i = Some r' \<longrightarrow> State r' = StateRunning \<and> Attempt r' = Attempt r)"
  using sql.running_exclusive [OF assms, of d] assms(5) by (simp add: life_of_eq_iff)

theorem sql_running_is_exclusive_witness:
  "times_handed (sql_exec Postgres) (sql_handed Postgres) 1 [(OpClaim ''default'' ''n2'' 5, calm)]
     (sample_db [sample_row 1 StateRunning 0 5]) = 0"
  using sql_running_is_exclusive [of "sample_db [sample_row 1 StateRunning 0 5]"
      "[(OpClaim ''default'' ''n2'' 5, calm)]" 1 "sample_row 1 StateRunning 0 5" Postgres]
  by (simp add: sql_look_def sql_inv_def sample_simps)

text \<open>
  Completed, failed and cancelled are final: without a manual retry such a job is never handed out
  and its state, attempt count and limit never change.\<close>

theorem sql_terminal_is_final:
  assumes "sql_inv db" and "calls_ok fst cs" and "avoids fst i {LRetry} cs"
    and "sql_look db i = Some r" and "State_Terminal (State r)"
  shows "times_handed (sql_exec d) (sql_handed d) i cs db = 0 \<and>
    (\<forall>r'. sql_look (run_calls (sql_exec d) cs db) i = Some r' \<longrightarrow> life_of r' = life_of r)"
  using assms by (rule sql.terminal_stuck)

theorem sql_terminal_is_final_witness:
  "times_handed (sql_exec MySQL) (sql_handed MySQL) 1
     [(OpRequeueStale 0, calm), (OpFail 1 None, calm), (OpClaim ''default'' ''n2'' 5, calm)]
     (sample_db [sample_row 1 StateCompleted 0 5]) = 0"
  using sql_terminal_is_final [of "sample_db [sample_row 1 StateCompleted 0 5]"
      "[(OpRequeueStale 0, calm), (OpFail 1 None, calm), (OpClaim ''default'' ''n2'' 5, calm)]" 1
      "sample_row 1 StateCompleted 0 5" MySQL]
  by (simp add: sql_look_def sql_inv_def State_Terminal_def sample_simps)

text \<open>
  A job whose last attempt was re-queued as stale (available, with no attempt left) is stuck: it is
  never handed out, never fails and never completes; only cancelling it changes it.\<close>

theorem sql_requeued_last_attempt_is_stuck:
  assumes "sql_inv db" and "calls_ok fst cs" and "avoids fst i {LCancel} cs"
    and "sql_look db i = Some r" and "State r = StateAvailable" and "MaxAttempts r \<le> Attempt r"
  shows "times_handed (sql_exec d) (sql_handed d) i cs db = 0 \<and>
    (\<forall>r'. sql_look (run_calls (sql_exec d) cs db) i = Some r' \<longrightarrow> State r' = StateAvailable)"
  using sql.exhausted_stuck [OF assms, of d] assms(5) by (simp add: life_of_eq_iff)

text \<open>The witness re-queues a running job on its third and last attempt and then claims.\<close>

definition last_attempt_db :: sql_db where
  "last_attempt_db = sql_exec SQLite (OpRequeueStale 10, calm)
     (sample_db [(sample_row 1 StateRunning 0 5)\<lparr>Attempt := 3, AttemptedAt := Some 6\<rparr>])"

lemma last_attempt_db_row:
  "last_attempt_db = sample_db [(sample_row 1 StateAvailable 0 100)\<lparr>Attempt := 3, CreatedAt := 5\<rparr>]"
  by (simp add: last_attempt_db_def sql_RequeueStale_def stale_def sql_requeue_row_def sample_simps)

theorem sql_requeued_last_attempt_is_stuck_witness:
  "times_handed (sql_exec SQLite) (sql_handed SQLite) 1
     [(OpClaim ''default'' ''n2'' 5, calm), (OpRetry 1, calm), (OpClaim ''default'' ''n2'' 5, calm)] last_attempt_db = 0"
  using sql_requeued_last_attempt_is_stuck [of last_attempt_db
      "[(OpClaim ''default'' ''n2'' 5, calm), (OpRetry 1, calm), (OpClaim ''default'' ''n2'' 5, calm)]" 1
      "(sample_row 1 StateAvailable 0 100)\<lparr>Attempt := 3, CreatedAt := 5\<rparr>" SQLite]
  by (simp add: last_attempt_db_row sql_look_def sql_inv_def sample_simps)


section \<open>Which jobs a claim takes\<close>

definition skipped :: "Dialect \<Rightarrow> sql_env \<Rightarrow> job_id \<Rightarrow> bool" where
  "skipped d env i \<longleftrightarrow> d \<noteq> SQLite \<and> locked env i"

definition claimable :: "Dialect \<Rightarrow> sql_env \<Rightarrow> queue_name \<Rightarrow> sql_db \<Rightarrow> JobRow set" where
  "claimable d env q db = {r \<in> set (jobs db). Queue r = q \<and> waiting (State r) \<and> ScheduledAt r \<le> clk env 0 \<and>
     Attempt r < MaxAttempts r \<and> \<not> skipped d env (ID r)}"

lemma claimable_eligible: "claimable d env q db = {r \<in> set (jobs db). sql_eligible q (clk env 0) r \<and> \<not> skipped d env (ID r)}"
  by (auto simp: claimable_def sql_eligible_def waiting_def)

definition chosen :: "Dialect \<Rightarrow> sql_env \<Rightarrow> queue_name \<Rightarrow> int \<Rightarrow> sql_db \<Rightarrow> JobRow list" where
  "chosen d env q m db = limit m (sort_key claim_order
     (filter (\<lambda>r. sql_eligible q (clk env 0) r \<and> \<not> skipped d env (ID r)) (jobs db)))"

lemma claim_ids_chosen: "claim_ids (skipped d env) q (clk env 0) m (jobs db) = map ID (chosen d env q m db)"
  by (simp add: claim_ids_def chosen_def)

lemma chosen_least:
  assumes "sql_inv db"
  shows "least_by claim_order (nat m) (set (chosen d env q m db)) (claimable d env q db)"
proof -
  let ?xs = "filter (\<lambda>r. sql_eligible q (clk env 0) r \<and> \<not> skipped d env (ID r)) (jobs db)"
  have "distinct (map ID (jobs db))" using assms by (simp add: sql_inv_def)
  then have "distinct ?xs" "inj_on claim_order (set ?xs)"
    by (auto simp: distinct_map inj_on_def claim_order_def)
  from take_sort_key_least [OF this, of "nat m"] show ?thesis
    by (simp add: chosen_def limit_def claimable_eligible)
qed

text \<open>A claim that returns has updated the chosen rows and nothing else.\<close>

lemma sql_Claim_chosen:
  assumes "fst (sql_Claim d env q n m db) = Inr rows" and "0 < m"
  shows "snd (sql_Claim d env q n m db) = claim_update d (clk env 0) n (map ID (chosen d env q m db)) db"
    and "mset rows = mset (rows_with_ids (map ID (chosen d env q m db)) (snd (sql_Claim d env q n m db)))"
proof -
  have pg: "skipped Postgres env = locked env" "skipped MySQL env = locked env" "skipped SQLite env = (\<lambda>_. False)"
    by (auto simp: skipped_def fun_eq_iff)
  have "snd (sql_Claim d env q n m db) = claim_update d (clk env 0) n (map ID (chosen d env q m db)) db \<and>
      mset rows = mset (rows_with_ids (map ID (chosen d env q m db)) (snd (sql_Claim d env q n m db)))"
    unfolding claim_ids_chosen [symmetric]
  proof (cases d)
    case Postgres
    with assms show "snd (sql_Claim d env q n m db) =
        claim_update d (clk env 0) n (claim_ids (skipped d env) q (clk env 0) m (jobs db)) db \<and>
      mset rows = mset (rows_with_ids (claim_ids (skipped d env) q (clk env 0) m (jobs db)) (snd (sql_Claim d env q n m db)))"
      by (auto simp: sql_Claim_def claimSkipLocked_def Let_def pg split: option.splits)
  next
    case SQLite
    with assms show "snd (sql_Claim d env q n m db) =
        claim_update d (clk env 0) n (claim_ids (skipped d env) q (clk env 0) m (jobs db)) db \<and>
      mset rows = mset (rows_with_ids (claim_ids (skipped d env) q (clk env 0) m (jobs db)) (snd (sql_Claim d env q n m db)))"
      by (auto simp: sql_Claim_def claimTransaction_def Let_def pg split: option.splits)
  next
    case MySQL
    have none: "claim_ids (locked env) q (clk env 0) m (jobs db) = [] \<Longrightarrow> claim_update MySQL (clk env 0) n [] db = db"
      by (simp add: claim_update_def)
    from MySQL assms show "snd (sql_Claim d env q n m db) =
        claim_update d (clk env 0) n (claim_ids (skipped d env) q (clk env 0) m (jobs db)) db \<and>
      mset rows = mset (rows_with_ids (claim_ids (skipped d env) q (clk env 0) m (jobs db)) (snd (sql_Claim d env q n m db)))"
      by (auto simp: sql_Claim_def claimMySQL_def Let_def pg none rows_with_ids_def split: option.splits if_splits)
  qed
  then show "snd (sql_Claim d env q n m db) = claim_update d (clk env 0) n (map ID (chosen d env q m db)) db"
    and "mset rows = mset (rows_with_ids (map ID (chosen d env q m db)) (snd (sql_Claim d env q n m db)))"
    by auto
qed

lemma claim_update_look:
  assumes "sql_inv db" and sub: "C \<subseteq> set (jobs db)"
  shows "sql_look (claim_update d now n ids db) i = map_option (\<lambda>r. if ID r \<in> set ids then sql_claim_row d now n r else r) (sql_look db i)"
    and "r \<in> set (jobs db) \<Longrightarrow> ID r \<in> ID ` C \<longleftrightarrow> r \<in> C"
proof -
  show "sql_look (claim_update d now n ids db) i = map_option (\<lambda>r. if ID r \<in> set ids then sql_claim_row d now n r else r) (sql_look db i)"
    by (simp add: sql_look_def claim_update_def find_key_update_where row_simps)
  have "inj_on ID (set (jobs db))" using assms(1) by (simp add: sql_inv_def distinct_map)
  then show "r \<in> set (jobs db) \<Longrightarrow> ID r \<in> ID ` C \<longleftrightarrow> r \<in> C"
    using sub by (auto dest: inj_onD)
qed

text \<open>
  A claim that returns takes the first \<open>m\<close> claimable jobs of the queue in the order of priority
  (highest first), scheduled time and id: the chosen set has the size of the bound or of what there is, every
  job left behind comes after every job taken, the rows returned are the updated rows, and all other rows are
  unchanged. Rows another transaction holds locked are passed over except on SQLite.\<close>

theorem sql_claim_takes_the_first:
  assumes "sql_inv db" and "0 < m" and "fst (sql_Claim d env q n m db) = Inr rows"
  shows "\<exists>C. least_by (\<lambda>r. (- Priority r, ScheduledAt r, ID r)) (nat m) C (claimable d env q db) \<and>
    set rows = sql_claim_row d (clk env 0) n ` C \<and> distinct (map ID rows) \<and>
    (\<forall>i. sql_look (snd (sql_Claim d env q n m db)) i =
       map_option (\<lambda>r. if r \<in> C then sql_claim_row d (clk env 0) n r else r) (sql_look db i))"
proof (intro exI conjI allI)
  let ?C = "set (chosen d env q m db)" and ?db = "snd (sql_Claim d env q n m db)"
  note upd = sql_Claim_chosen [OF assms(3,2)]
  show least: "least_by (\<lambda>r. (- Priority r, ScheduledAt r, ID r)) (nat m) ?C (claimable d env q db)"
    using chosen_least [OF assms(1)] unfolding claim_order_def [abs_def] .
  then have sub: "?C \<subseteq> set (jobs db)" by (auto simp: least_by_def claimable_def)
  note mem = claim_update_look(2) [OF assms(1) sub]
  have "set rows = set (rows_with_ids (map ID (chosen d env q m db)) ?db)"
    using upd(2) by (rule mset_eq_setD)
  also have "\<dots> = sql_claim_row d (clk env 0) n ` ?C"
    unfolding upd(1) using mem sub
    by (auto simp: rows_with_ids_def claim_update_def set_update_where row_simps image_iff)
  finally show "set rows = sql_claim_row d (clk env 0) n ` ?C" .
  show "distinct (map ID rows)"
    using distinct_handed [OF assms(1), of d q n m env] assms(3) by simp
  show "sql_look ?db i = map_option (\<lambda>r. if r \<in> ?C then sql_claim_row d (clk env 0) n r else r) (sql_look db i)" for i
    unfolding upd(1) claim_update_look(1) [OF assms(1) sub]
    using mem sql_look_Some_iff [OF assms(1), of i] by (cases "sql_look db i") auto
qed

theorem sql_claim_takes_the_first_witness:
  "\<exists>C. least_by (\<lambda>r. (- Priority r, ScheduledAt r, ID r)) 1 C (claimable SQLite calm ''default''
       (sample_db [sample_row 1 StateAvailable 0 5, sample_row 2 StateAvailable 7 50])) \<and>
     {sql_claim_row SQLite 100 ''n1'' (sample_row 2 StateAvailable 7 50)} = sql_claim_row SQLite 100 ''n1'' ` C"
proof -
  have "fst (sql_Claim SQLite calm ''default'' ''n1'' 1
      (sample_db [sample_row 1 StateAvailable 0 5, sample_row 2 StateAvailable 7 50])) =
      Inr [sql_claim_row SQLite 100 ''n1'' (sample_row 2 StateAvailable 7 50)]"
    by (simp add: sql_Claim_def claimTransaction_def claim_ids_def limit_def claim_order_def sql_eligible_def
        rows_with_ids_def claim_update_def update_where_def Let_def sql_claim_row_def push_node_def sample_simps)
  from sql_claim_takes_the_first [OF sample_inv _ this] show ?thesis
    by (auto simp: calm_def)
qed


section \<open>Transactions\<close>

text \<open>The rows a batch insert adds, and the ids it hands out.\<close>

lemma insert_batch_result:
  "insert_batch d env k rs db = (Inr rows, db') \<Longrightarrow>
    jobs db' = jobs db @ map2 (\<lambda>r r'. inserted_row d (ID r') r) rs rows \<and>
    length rows = length rs \<and> sorted_wrt (<) (map ID rows) \<and> (\<forall>r \<in> set rows. last_id db < ID r) \<and>
    map (\<lambda>r. r\<lparr>ID := 0\<rparr>) rows = map (\<lambda>r. r\<lparr>ID := 0\<rparr>) rs"
proof (induction rs arbitrary: k db rows)
  case Nil
  then show ?case by simp
next
  case (Cons r rs)
  from Cons.prems obtain i db1 rows' where
    ins: "insert_job d env r db = (Inr i, db1)" "insert_batch d env (k + 2) rs db1 = (Inr rows', db')"
      "rows = r\<lparr>ID := i\<rparr> # rows'"
    by (auto split: option.splits sum.splits prod.splits if_splits)
  from ins(1) have db1: "jobs db1 = jobs db @ [inserted_row d i r]" "last_id db1 = i" "last_id db < i"
    by (auto simp: insert_job_def Let_def split: if_splits)
  from Cons.IH [OF ins(2)] db1 show ?case
    by (auto simp: ins(3))
qed

text \<open>
  \<^verbatim>\<open>EnqueueBatch\<close> is all or nothing under every pattern of faults: when it reports an error the
  database and the ids of the caller's rows are as before; when it reports success every row is stored after
  the existing ones, under fresh increasing ids, which the caller's rows carry, and nothing else of them changed.\<close>

theorem sql_EnqueueBatch_all_or_nothing:
  "case sql_EnqueueBatch d env ojobs db of
     ((Some e, ojobs'), db') \<Rightarrow> ojobs' = ojobs \<and> db' = db
   | ((None, ojobs'), db') \<Rightarrow>
       None \<notin> set ojobs \<and> None \<notin> set ojobs' \<and>
       jobs db' = jobs db @ map2 (\<lambda>oj oj'. inserted_row d (ID (the oj')) (the oj)) ojobs ojobs' \<and>
       sorted_wrt (<) (map (\<lambda>oj. ID (the oj)) ojobs') \<and>
       list_all (\<lambda>oj. last_id db < ID (the oj)) ojobs' \<and>
       map (\<lambda>oj. (the oj)\<lparr>ID := 0\<rparr>) ojobs' = map (\<lambda>oj. (the oj)\<lparr>ID := 0\<rparr>) ojobs"
proof (cases "fst (fst (sql_EnqueueBatch d env ojobs db))")
  case (Some e)
  then show ?thesis
    by (auto simp: sql_EnqueueBatch_def split: if_splits option.splits sum.splits prod.splits)
next
  case None
  then obtain rows db' where res: "None \<notin> set ojobs" "insert_batch d env 2 (map the ojobs) db = (Inr rows, db')"
      "sql_EnqueueBatch d env ojobs db = ((None, map Some rows), db')"
    by (auto simp: sql_EnqueueBatch_def split: if_splits option.splits sum.splits prod.splits)
  from insert_batch_result [OF res(2)] res(1) show ?thesis
    by (auto simp: res(3) o_def zip_map1 zip_map2 list_all_iff split_def)
qed

text \<open>
  \<^verbatim>\<open>Fail\<close> moves the job and records the failure together: on an error nothing has changed; on success the
  job was running or retryable, it is now failed with the error appended to its history under its attempt number,
  exactly one copy of it (with that history) is added to \<^verbatim>\<open>failed_jobs\<close>, and no other job has changed.\<close>

theorem sql_Fail_atomic:
  assumes "sql_inv db" and "sql_Fail env i jobErr db = (res, db')"
  shows "(res \<noteq> None \<and> db' = db) \<or>
    (res = None \<and> (\<exists>r r'. sql_look db i = Some r \<and> (State r = StateRunning \<or> State r = StateRetryable) \<and>
       r' = sql_fail_row (Errors r @ [attempt_error (Attempt r) (sprint_error jobErr) (clk env 0)]) (clk env 1) r \<and>
       sql_look db' i = Some r' \<and> failed_jobs db' = failed_jobs db @ [failed_job_of r'] \<and>
       (\<forall>j. j \<noteq> i \<longrightarrow> sql_look db' j = sql_look db j)))"
proof -
  let ?p = "\<lambda>r. ID r = i \<and> (State r = StateRunning \<or> State r = StateRetryable)"
  show ?thesis
  proof (cases "find ?p (jobs db)")
    case None
    with assms(2) show ?thesis
      by (auto simp: sql_Fail_def Let_def split: option.splits) metis+
  next
    case (Some r)
    let ?errs = "Errors r @ [attempt_error (Attempt r) (sprint_error jobErr) (clk env 0)]"
    define f where "f = sql_fail_row ?errs (clk env 1)"
    have f_ID: "ID (f x) = ID x" for x by (simp add: f_def row_simps)
    let ?jobs = "update_where ?p f (jobs db)"
    have r: "r \<in> set (jobs db)" "?p r" using Some by (auto simp: find_Some_iff)
    then have look: "sql_look db i = Some r" using assms(1) by (simp add: sql_look_Some_iff)
    have look': "find_key ID j ?jobs = map_option (\<lambda>r. if ?p r then f r else r) (sql_look db j)" for j
      by (simp add: sql_look_def find_key_update_where f_ID)
    have "distinct (map ID ?jobs)"
      using assms(1) by (simp add: sql_inv_def map_update_where f_ID)
    then have copy: "filter (\<lambda>r. ID r = i) ?jobs = [f r]"
      using look' [of i] look r by (simp add: filter_key_unique)
    have res: "(res \<noteq> None \<and> db' = db) \<or> (res = None \<and> db' = insertFailedJobTx i (db\<lparr>jobs := ?jobs\<rparr>))"
      using assms(2) Some by (auto simp: sql_Fail_def Let_def f_def split: option.splits)
    have "sql_look db' i = Some (f r) \<and> failed_jobs db' = failed_jobs db @ [failed_job_of (f r)] \<and>
        (\<forall>j. j \<noteq> i \<longrightarrow> sql_look db' j = sql_look db j)"
      if "db' = insertFailedJobTx i (db\<lparr>jobs := ?jobs\<rparr>)"
    proof -
      have "sql_look db' j = sql_look db j" if "j \<noteq> i" for j
        using that \<open>db' = _\<close> by (auto simp: insertFailedJobTx_def sql_look_def f_ID intro!: find_key_update_other)
      moreover have "failed_jobs db' = failed_jobs db @ [failed_job_of (f r)]"
        by (simp add: that insertFailedJobTx_def copy)
      ultimately show ?thesis using look' [of i] look r(2) by (simp add: that insertFailedJobTx_def sql_look_def)
    qed
    with res show ?thesis using look r(2) unfolding f_def by blast
  qed
qed

theorem sql_Fail_atomic_witness:
  "\<exists>r'. r' = sql_fail_row [attempt_error 0 ''boom'' 100] 101 (sample_row 1 StateRunning 0 5) \<and>
     sql_look (snd (sql_Fail calm 1 (Some (Errorf ''boom'')) (sample_db [sample_row 1 StateRunning 0 5]))) 1 = Some r'"
proof -
  let ?db = "sample_db [sample_row 1 StateRunning 0 5]"
  have "sql_inv ?db" by (simp add: sql_inv_def sample_simps)
  moreover have "sql_Fail calm 1 (Some (Errorf ''boom'')) ?db =
      (None, snd (sql_Fail calm 1 (Some (Errorf ''boom'')) ?db))"
    by (simp add: sql_Fail_def sample_simps Let_def)
  ultimately show ?thesis
    using sql_Fail_atomic [of ?db calm 1 "Some (Errorf ''boom'')" None]
    by (auto simp: sql_look_def sprint_error_def sample_simps)
qed

text \<open>
  Property C18. The transactions of the SQL driver do all or nothing, under every pattern of faults. When \<^verbatim>\<open>EnqueueBatch\<close> reports an error the database and the ids of the caller's rows are as
  before; when it reports success every row is stored after the existing ones, under fresh increasing ids, which the caller's rows carry, and nothing else of them changed. When \<^verbatim>\<open>Fail\<close> reports an
  error nothing has changed; on success the job was running or retryable, it is now failed with the error appended to its history under its attempt number, exactly one copy of it (with that
  history) is added to \<^verbatim>\<open>failed_jobs\<close>, and no other job has changed.\<close>

theorem sql_transactions_all_or_nothing:
  assumes "sql_inv db" and "sql_Fail env i jobErr db = (res, db')"
  shows "((res \<noteq> None \<and> db' = db) \<or>
     (res = None \<and> (\<exists>r r'. sql_look db i = Some r \<and> (State r = StateRunning \<or> State r = StateRetryable) \<and>
        r' = sql_fail_row (Errors r @ [attempt_error (Attempt r) (sprint_error jobErr) (clk env 0)]) (clk env 1) r \<and>
        sql_look db' i = Some r' \<and> failed_jobs db' = failed_jobs db @ [failed_job_of r'] \<and>
        (\<forall>j. j \<noteq> i \<longrightarrow> sql_look db' j = sql_look db j)))) \<and>
    (case sql_EnqueueBatch d env' ojobs db of
       ((Some e, ojobs'), db1) \<Rightarrow> ojobs' = ojobs \<and> db1 = db
     | ((None, ojobs'), db1) \<Rightarrow>
         None \<notin> set ojobs \<and> None \<notin> set ojobs' \<and>
         jobs db1 = jobs db @ map2 (\<lambda>oj oj'. inserted_row d (ID (the oj')) (the oj)) ojobs ojobs' \<and>
         sorted_wrt (<) (map (\<lambda>oj. ID (the oj)) ojobs') \<and>
         list_all (\<lambda>oj. last_id db < ID (the oj)) ojobs' \<and>
         map (\<lambda>oj. (the oj)\<lparr>ID := 0\<rparr>) ojobs' = map (\<lambda>oj. (the oj)\<lparr>ID := 0\<rparr>) ojobs)"
  using sql_Fail_atomic [OF assms] sql_EnqueueBatch_all_or_nothing [where d = d and env = env' and ojobs = ojobs and db = db] by (rule conjI)

theorem sql_transactions_all_or_nothing_witness:
  "\<exists>r'. r' = sql_fail_row [attempt_error 0 ''boom'' 100] 101 (sample_row 1 StateRunning 0 5) \<and>
     sql_look (snd (sql_Fail calm 1 (Some (Errorf ''boom'')) (sample_db [sample_row 1 StateRunning 0 5]))) 1 = Some r'"
proof -
  let ?db = "sample_db [sample_row 1 StateRunning 0 5]"
  have "sql_inv ?db" by (simp add: sql_inv_def sample_simps)
  moreover have "sql_Fail calm 1 (Some (Errorf ''boom'')) ?db = (None, snd (sql_Fail calm 1 (Some (Errorf ''boom'')) ?db))"
    by (simp add: sql_Fail_def sample_simps Let_def)
  ultimately have "(None :: error option) = None \<and> (\<exists>r r'. sql_look ?db 1 = Some r \<and>
      r' = sql_fail_row (Errors r @ [attempt_error (Attempt r) (sprint_error (Some (Errorf ''boom''))) (clk calm 0)]) (clk calm 1) r \<and>
      sql_look (snd (sql_Fail calm 1 (Some (Errorf ''boom'')) ?db)) 1 = Some r')"
    using sql_transactions_all_or_nothing [of ?db calm 1 "Some (Errorf ''boom'')" None] by blast
  then show ?thesis by (auto simp: sql_look_def sprint_error_def sample_simps)
qed

text \<open>
  \<^verbatim>\<open>ScheduleRetry\<close> of a running job puts it back with its error recorded and its attempt count kept; from then on it
  can be claimed from its own queue, exactly from the scheduled time on, and only if an attempt is left. The call changes
  nothing when it reports an error.\<close>

theorem sql_ScheduleRetry_reclaimable:
  assumes "sql_inv db" and "sql_look db i = Some r" and "State r = StateRunning"
    and "sql_ScheduleRetry env i jobErr at db = (res, db')"
  shows "(res \<noteq> None \<and> db' = db) \<or>
    (res = None \<and> (\<exists>r'. sql_look db' i = Some r' \<and> State r' = StateRetryable \<and> Attempt r' = Attempt r \<and>
       (\<exists>msg. Errors r' = Errors r @ [attempt_error (Attempt r) msg (clk env 0)]) \<and>
       (\<forall>q now. sql_eligible q now r' \<longleftrightarrow> q = Queue r \<and> at \<le> now \<and> Attempt r < MaxAttempts r)))"
proof -
  let ?p = "\<lambda>r. ID r = i \<and> State r = StateRunning"
  have r: "r \<in> set (jobs db)" "?p r" using assms(1-3) by (auto simp: sql_look_Some_iff)
  then obtain r0 where r0: "find ?p (jobs db) = Some r0"
    by (cases "find ?p (jobs db)") (auto simp: find_None_iff)
  then have "r0 \<in> set (jobs db)" "ID r0 = i" by (auto simp: find_Some_iff)
  then have "r0 = r" using assms(1,2) by (metis option.inject sql_look_Some_iff)
  let ?msg = "sprint_error (Some (case jobErr of None \<Rightarrow> Errorf ''job failed'' | Some e \<Rightarrow> e))"
  let ?f = "sql_retryable_row (Errors r @ [attempt_error (Attempt r) ?msg (clk env 0)]) at"
  have "(res \<noteq> None \<and> db' = db) \<or> (res = None \<and> db' = db\<lparr>jobs := update_where ?p ?f (jobs db)\<rparr>)"
    using assms(4) r0 \<open>r0 = r\<close>
    by (cases "db_err env 0"; cases "db_err env 1"; cases "db_err env 2"; cases "db_err env 3")
      (auto simp: sql_ScheduleRetry_def Let_def)
  moreover have "sql_look (db\<lparr>jobs := update_where ?p ?f (jobs db)\<rparr>) i = Some (?f r)"
    using assms(2,3) r by (simp add: sql_look_def find_key_update_where row_simps)
  moreover have "\<forall>q now. sql_eligible q now (?f r) \<longleftrightarrow> q = Queue r \<and> at \<le> now \<and> Attempt r < MaxAttempts r"
    by (auto simp: sql_eligible_def sql_retryable_row_def)
  moreover have "State (?f r) = StateRetryable \<and> Attempt (?f r) = Attempt r \<and>
      Errors (?f r) = Errors r @ [attempt_error (Attempt r) ?msg (clk env 0)]"
    by (simp add: sql_retryable_row_def)
  ultimately show ?thesis by blast
qed

theorem sql_ScheduleRetry_reclaimable_witness:
  "\<exists>r'. sql_look (snd (sql_ScheduleRetry calm 1 None 500 (sample_db [sample_row 1 StateRunning 0 5]))) 1 = Some r' \<and>
     \<not> sql_eligible ''default'' 499 r' \<and> sql_eligible ''default'' 500 r'"
proof -
  let ?db = "sample_db [sample_row 1 StateRunning 0 5]"
  let ?r = "sample_row 1 StateRunning 0 5"
  have db: "sql_inv ?db" "sql_look ?db 1 = Some ?r"
    by (simp_all add: sql_inv_def sql_look_def sample_simps)
  have row: "State ?r = StateRunning" "Queue ?r = ''default''" "Attempt ?r < MaxAttempts ?r"
    by (simp_all add: sample_simps)
  have res: "sql_ScheduleRetry calm 1 None 500 ?db = (None, snd (sql_ScheduleRetry calm 1 None 500 ?db))"
    by (simp add: sql_ScheduleRetry_def sample_simps Let_def)
  from sql_ScheduleRetry_reclaimable [OF db row(1) res] show ?thesis
    using row(2,3) by auto
qed

text \<open>
  \<^verbatim>\<open>RetryBatch\<close> is all or nothing: when it reports an error nothing changed; otherwise every listed job in a
  retryable state is available again with a clean history and no attempt counted, whatever the list repeats, and every
  other job is as it was.\<close>

theorem sql_RetryBatch_all_or_nothing:
  assumes "sql_look db i = Some r"
  shows "(fst (sql_RetryBatch d env is db) \<noteq> None \<and> snd (sql_RetryBatch d env is db) = db) \<or>
    (fst (sql_RetryBatch d env is db) = None \<and>
     (\<exists>now. sql_look (snd (sql_RetryBatch d env is db)) i =
        Some (if i \<in> set is \<and> State r \<in> {StateFailed, StateCompleted, StateCancelled, StateRetryable}
              then sql_retry_row d now r else r)))"
proof (cases "fst (sql_RetryBatch d env is db)")
  case (Some e)
  then show ?thesis
    by (auto simp: sql_RetryBatch_def batch_tx_def split: option.splits sum.splits)
next
  case None
  then obtain db' where db': "batch_updates env 2 sql_retryable (sql_retry_row d) is db = Inr db'"
      "snd (sql_RetryBatch d env is db) = db'"
    by (auto simp: sql_RetryBatch_def batch_tx_def split: option.splits sum.splits)
  have "\<exists>t. \<forall>r. sql_look db i = Some r \<longrightarrow>
      sql_look db' i = Some (if i \<in> set is \<and> sql_retryable i r then sql_retry_row d t r else r)"
    by (rule batch_updates_row [OF _ _ _ db'(1)]) (auto simp: sql_retryable_def sql_retry_row_def)
  with assms None db'(2) sql_look_ID [OF assms] show ?thesis
    by (auto simp: sql_retryable_def)
qed

theorem sql_RetryBatch_all_or_nothing_witness:
  "\<exists>now. sql_look (snd (sql_RetryBatch MySQL calm [1, 2, 1] (sample_db [sample_row 1 StateFailed 0 5]))) 1 =
     Some (sql_retry_row MySQL now (sample_row 1 StateFailed 0 5))"
proof -
  let ?db = "sample_db [sample_row 1 StateFailed 0 5]"
  have "sql_look ?db 1 = Some (sample_row 1 StateFailed 0 5)"
    by (simp add: sql_look_def sample_simps)
  moreover have "fst (sql_RetryBatch MySQL calm [1, 2, 1] ?db) = None"
    by (simp add: sql_RetryBatch_def batch_tx_def calm_def)
  ultimately show ?thesis
    using sql_RetryBatch_all_or_nothing [of ?db 1 "sample_row 1 StateFailed 0 5" MySQL calm "[1, 2, 1]"]
    by (simp add: sample_row_def)
qed


section \<open>Bounds\<close>

text \<open>
  The list of nodes that attempted a job keeps the last fifty, in order, on all three dialects: the array slice of
  Postgres and the JSON removal of MySQL and SQLite compute the same list as long as it never grew beyond fifty.\<close>

theorem attempted_by_is_last_50:
  assumes "length (AttemptedBy r) \<le> 50"
  shows "AttemptedBy (sql_claim_row d now n r) =
    (let xs = AttemptedBy r @ [n] in drop (length xs - 50) xs) \<and>
    length (AttemptedBy (sql_claim_row d now n r)) \<le> 50"
proof (cases "length (AttemptedBy r) = 50")
  case True
  then show ?thesis by (simp add: sql_claim_row_def push_node_def Let_def drop_Suc)
next
  case False
  with assms show ?thesis by (simp add: sql_claim_row_def push_node_def Let_def)
qed

theorem attempted_by_is_last_50_witness:
  "length (AttemptedBy (sql_claim_row MySQL 0 ''n'' ((sample_row 1 StateAvailable 0 0)\<lparr>AttemptedBy := replicate 50 ''m''\<rparr>))) \<le> 50"
  using attempted_by_is_last_50 [of "(sample_row 1 StateAvailable 0 0)\<lparr>AttemptedBy := replicate 50 ''m''\<rparr>" MySQL 0 "''n''"]
  by simp

text \<open>
  With the schema of \<^verbatim>\<open>Migrate\<close>, whose \<^verbatim>\<open>timeout\<close> column is a 32-bit integer on Postgres and MySQL, no job with a
  timeout of 2147483648 nanoseconds (about 2.15 s) or more can be stored there: \<^verbatim>\<open>Enqueue\<close> always returns an error and the
  table is unchanged.\<close>

theorem sql_long_timeout_rejected:
  assumes "d \<noteq> SQLite" and "2 ^ 31 \<le> Timeout job"
  shows "\<exists>e. sql_Enqueue d env (Some job) db = ((Some e, Some job), db)"
  using assms by (auto simp: sql_Enqueue_def insert_job_def columns_fit_def fits_int32_def split: option.split)

theorem sql_long_timeout_rejected_witness:
  "\<exists>e. sql_Enqueue Postgres calm (Some ((sample_row 0 StateAvailable 0 0)\<lparr>Timeout := 30 * Second\<rparr>)) (sample_db []) =
     ((Some e, Some ((sample_row 0 StateAvailable 0 0)\<lparr>Timeout := 30 * Second\<rparr>)), sample_db [])"
  by (rule sql_long_timeout_rejected) simp_all

end
