(* ===== verification/Redis_Driver.thy ===== *)
theory Redis_Driver
  imports Driver_Contract "HOL-Library.DAList" "HOL-Library.Product_Lexorder" "HOL-Library.List_Lexorder"
    "HOL-Library.Char_ord"
begin

text \<open>
  The job operations of \<^verbatim>\<open>driver/redisdriver/driver.go\<close>. Each Lua script runs atomically on the
  server and is one function on the keys it touches: the id counter, the hash from UUIDs to ids, the
  hash of job documents, and the sorted sets of all ids, of creation times, of running jobs and, per
  queue, of jobs that are due. A sorted set is the association list of its members and scores.

  What the network and the clock decide is in \<open>redis_env\<close>: the instants \<^verbatim>\<open>time.Now()\<close> returns, whether the call
  fails before the script runs, or after it ran with the reply lost, whether the read that follows a manual retry
  or a cancellation fails, and how the server's \<^verbatim>\<open>cjson\<close> writes an empty table (\<open>empty_as_object\<close>).
\<close>


section \<open>Data\<close>

type_synonym zset = "(job_id, int) alist"

text \<open>
  A job document as the scripts see it. A nil list is written as null, and the scripts carry null along; \<open>errors_set\<close>
  says that a script has put a table into the \<^verbatim>\<open>errors\<close> field. (No caller passes a row whose \<^verbatim>\<open>Errors\<close> or \<^verbatim>\<open>AttemptedBy\<close>
  is empty and not nil.) The numbers of a row are taken to have at most 14 significant digits, which \<^verbatim>\<open>cjson\<close> writes exactly.
\<close>

record JobDoc =
  doc_row :: JobRow
  errors_set :: bool

record redis =
  r_last :: nat
  r_uuids :: "(string, job_id) alist"
  r_jobs :: "(job_id, JobDoc) alist"
  r_ids :: zset
  r_created :: zset
  r_running :: zset
  r_due :: "queue_name \<Rightarrow> zset"

record redis_env =
  r_clk :: "nat \<Rightarrow> time"
  pre_err :: "error option"
  post_err :: "error option"
  get_err :: "error option"
  empty_as_object :: bool

definition unixMicros :: "time \<Rightarrow> int" where
  "unixMicros t = (if 0 \<le> t then t div Microsecond else - ((- t) div Microsecond))"

definition ttlMillis :: "duration \<Rightarrow> int" where
  "ttlMillis ttl =
     (let v = (if 0 \<le> ttl then ttl div Millisecond else - ((- ttl) div Millisecond)) in if v < 1 then 1 else v)"

text \<open>Members of a sorted set up to a score, by score and then by the member's text.\<close>

definition zrange :: "(int \<Rightarrow> bool) \<Rightarrow> zset \<Rightarrow> (job_id \<times> int) list" where
  "zrange p z = sort_key (\<lambda>(i, s). (s, decimal i)) (filter (\<lambda>(i, s). p s) (DAList.impl_of z))"

abbreviation zadd :: "int \<Rightarrow> job_id \<Rightarrow> zset \<Rightarrow> zset" where "zadd s i z \<equiv> DAList.update i s z"
abbreviation zrem :: "job_id \<Rightarrow> zset \<Rightarrow> zset" where "zrem i z \<equiv> DAList.delete i z"

definition due_add :: "queue_name \<Rightarrow> int \<Rightarrow> job_id \<Rightarrow> redis \<Rightarrow> redis" where
  "due_add q s i st = st\<lparr>r_due := (r_due st)(q := zadd s i (r_due st q))\<rparr>"

definition due_rem :: "queue_name \<Rightarrow> job_id \<Rightarrow> redis \<Rightarrow> redis" where
  "due_rem q i st = st\<lparr>r_due := (r_due st)(q := zrem i (r_due st q))\<rparr>"

definition put_doc :: "job_id \<Rightarrow> JobDoc \<Rightarrow> redis \<Rightarrow> redis" where
  "put_doc i doc st = st\<lparr>r_jobs := DAList.update i doc (r_jobs st)\<rparr>"

definition run_add :: "int \<Rightarrow> job_id \<Rightarrow> redis \<Rightarrow> redis" where
  "run_add s i st = st\<lparr>r_running := zadd s i (r_running st)\<rparr>"

definition run_rem :: "job_id \<Rightarrow> redis \<Rightarrow> redis" where
  "run_rem i st = st\<lparr>r_running := zrem i (r_running st)\<rparr>"

definition get_doc :: "redis \<Rightarrow> job_id \<Rightarrow> JobDoc option" where
  "get_doc st i = DAList.lookup (r_jobs st) i"

text \<open>
  \<^verbatim>\<open>decodeJob\<close>: a list field that holds an empty table is read as an object when \<^verbatim>\<open>cjson\<close> writes it as one,
  and an object does not decode into a Go slice.
\<close>

definition decodeJob :: "redis_env \<Rightarrow> JobDoc \<Rightarrow> error + JobRow" where
  "decodeJob env doc =
     (if empty_as_object env \<and>
         (Tags (doc_row doc) = Some [] \<or> (errors_set doc \<and> Errors (doc_row doc) = []))
      then Inl (Wrapf ''decode job'' (Errorf ''json: cannot unmarshal object into Go struct field''))
      else Inr (doc_row doc))"

fun decodeJobs :: "redis_env \<Rightarrow> JobDoc list \<Rightarrow> error + JobRow list" where
  "decodeJobs env [] = Inr []"
| "decodeJobs env (d # ds) =
     (case decodeJob env d of
        Inl e \<Rightarrow> Inl e
      | Inr r \<Rightarrow> (case decodeJobs env ds of Inl e \<Rightarrow> Inl e | Inr rs \<Rightarrow> Inr (r # rs)))"

text \<open>A call: the script runs unless the call fails first; its reply may be lost.\<close>

definition run_script :: "redis_env \<Rightarrow> (redis \<Rightarrow> 'a \<times> redis) \<Rightarrow> redis \<Rightarrow> (error + 'a) \<times> redis" where
  "run_script env script st =
     (case pre_err env of
        Some e \<Rightarrow> (Inl e, st)
      | None \<Rightarrow>
          (let (reply, st') = script st in
           case post_err env of Some e \<Rightarrow> (Inl e, st') | None \<Rightarrow> (Inr reply, st')))"


section \<open>Enqueueing\<close>

fun duplicate_uuid :: "string list \<Rightarrow> string list \<Rightarrow> redis \<Rightarrow> bool" where
  "duplicate_uuid seen [] st = False"
| "duplicate_uuid seen (u # us) st =
     (u = [] \<or> u \<in> set seen \<or> DAList.lookup (r_uuids st) u \<noteq> None \<or> duplicate_uuid (u # seen) us st)"

text \<open>\<^verbatim>\<open>json.Marshal\<close> with \<^verbatim>\<open>omitempty\<close>, read back: an empty output or map is absent.\<close>

definition marshalled :: "JobRow \<Rightarrow> JobRow" where
  "marshalled job = job\<lparr>
     Output := (if Output job = Some [] then None else Output job),
     Metadata := (case Metadata job of None \<Rightarrow> None | Some m \<Rightarrow> if m = Map.empty then None else Some m)\<rparr>"

definition enqueue_one :: "JobRow \<Rightarrow> redis \<Rightarrow> job_id \<times> redis" where
  "enqueue_one job st =
     (let i = r_last st + 1;
          row = (marshalled job)\<lparr>ID := i\<rparr>;
          st1 = put_doc i \<lparr>doc_row = row, errors_set = (Errors row \<noteq> [])\<rparr>
            (st\<lparr>r_last := i, r_uuids := DAList.update (UUID job) i (r_uuids st),
                r_ids := zadd (int i) i (r_ids st),
                r_created := zadd (unixMicros (CreatedAt job)) i (r_created st)\<rparr>)
      in (i, if State row = StateAvailable \<or> State row = StateScheduled \<or> State row = StateRetryable
             then due_add (Queue row) (unixMicros (ScheduledAt job)) i st1 else st1))"

fun enqueue_all :: "JobRow list \<Rightarrow> redis \<Rightarrow> job_id list \<times> redis" where
  "enqueue_all [] st = ([], st)"
| "enqueue_all (job # js) st =
     (let (i, st1) = enqueue_one job st; (is, st2) = enqueue_all js st1 in (i # is, st2))"

definition enqueueScript :: "JobRow list \<Rightarrow> redis \<Rightarrow> job_id list option \<times> redis" where
  "enqueueScript js st =
     (if duplicate_uuid [] (map UUID js) st then (None, st)
      else let (is, st') = enqueue_all js st in (Some is, st'))"

definition redis_EnqueueBatch ::
    "redis_env \<Rightarrow> JobRow option list \<Rightarrow> redis \<Rightarrow> (error option \<times> JobRow option list) \<times> redis" where
  "redis_EnqueueBatch env ojobs st =
     (if ojobs = [] then ((None, []), st)
      else if None \<in> set ojobs then ((Some (Errorf ''redis driver: nil job''), ojobs), st)
      else case run_script env (enqueueScript (map the ojobs)) st of
        (Inl e, st') \<Rightarrow> ((Some e, ojobs), st')
      | (Inr None, st') \<Rightarrow> ((Some ErrJobAlreadyExists, ojobs), st')
      | (Inr (Some is), st') \<Rightarrow>
          if length is \<noteq> length ojobs then ((Some (Errorf ''redis driver: invalid enqueue result''), ojobs), st')
          else ((None, map2 (\<lambda>oj i. Some ((the oj)\<lparr>ID := i\<rparr>)) ojobs is), st'))"

definition redis_Enqueue ::
    "redis_env \<Rightarrow> JobRow option \<Rightarrow> redis \<Rightarrow> (error option \<times> JobRow option list) \<times> redis" where
  "redis_Enqueue env ojob st = redis_EnqueueBatch env [ojob] st"


section \<open>Claiming\<close>

type_synonym candidate = "job_id \<times> int \<times> JobDoc"

text \<open>The scan over the due jobs: a member that cannot be claimed leaves the sorted set.\<close>

fun claim_scan :: "queue_name \<Rightarrow> (job_id \<times> int) list \<Rightarrow> redis \<Rightarrow> candidate list \<times> redis" where
  "claim_scan q [] st = ([], st)"
| "claim_scan q ((i, score) # due) st =
     (case get_doc st i of
        Some doc \<Rightarrow>
          if (State (doc_row doc) = StateAvailable \<or> State (doc_row doc) = StateScheduled \<or>
              State (doc_row doc) = StateRetryable) \<and> Attempt (doc_row doc) < MaxAttempts (doc_row doc)
          then (let (cs, st') = claim_scan q due st in ((i, score, doc) # cs, st'))
          else claim_scan q due (due_rem q i st)
      | None \<Rightarrow> claim_scan q due (due_rem q i st))"

definition redis_claim_order :: "candidate \<Rightarrow> int \<times> int \<times> nat" where
  "redis_claim_order c = (case c of (i, score, doc) \<Rightarrow> (- Priority (doc_row doc), score, i))"

definition redis_claim_row :: "time \<Rightarrow> node_id \<Rightarrow> JobRow \<Rightarrow> JobRow" where
  "redis_claim_row now node r = r\<lparr>State := StateRunning, Attempt := Attempt r + 1, AttemptedAt := Some now,
     StartedAt := (case StartedAt r of None \<Rightarrow> Some now | Some t \<Rightarrow> Some t), NodeID := node,
     AttemptedBy := (if 50 \<le> length (AttemptedBy r) then tl (AttemptedBy r) else AttemptedBy r) @ [node]\<rparr>"

fun claim_take :: "time \<Rightarrow> queue_name \<Rightarrow> node_id \<Rightarrow> candidate list \<Rightarrow> redis \<Rightarrow> JobDoc list \<times> redis" where
  "claim_take now q node [] st = ([], st)"
| "claim_take now q node ((i, score, doc) # cs) st =
     (let doc' = doc\<lparr>doc_row := redis_claim_row now node (doc_row doc)\<rparr>;
          (docs, st') = claim_take now q node cs
            (run_add (unixMicros now) i (due_rem q i (put_doc i doc' st)))
      in (doc' # docs, st'))"

definition claimScript :: "time \<Rightarrow> queue_name \<Rightarrow> node_id \<Rightarrow> int \<Rightarrow> redis \<Rightarrow> JobDoc list \<times> redis" where
  "claimScript now q node maximum st =
     (let (cs, st') = claim_scan q (zrange (\<lambda>s. s \<le> unixMicros now) (r_due st q)) st
      in claim_take now q node (limit maximum (sort_key redis_claim_order cs)) st')"

definition redis_Claim ::
    "redis_env \<Rightarrow> queue_name \<Rightarrow> node_id \<Rightarrow> int \<Rightarrow> redis \<Rightarrow> (error + JobRow list) \<times> redis" where
  "redis_Claim env q node maximum st =
     (if maximum \<le> 0 then (Inr [], st)
      else case run_script env (claimScript (r_clk env 0) q node maximum) st of
        (Inl e, st') \<Rightarrow> (Inl e, st')
      | (Inr docs, st') \<Rightarrow> (decodeJobs env docs, st'))"


section \<open>Reporting on a claimed job\<close>

text \<open>The count a script replies with: no job found means \<^verbatim>\<open>ErrJobNotFound\<close>.\<close>

definition found_error :: "(error + bool) \<times> redis \<Rightarrow> error option \<times> redis" where
  "found_error res =
     (case res of (Inl e, st) \<Rightarrow> (Some e, st)
      | (Inr found, st) \<Rightarrow> (if found then None else Some ErrJobNotFound, st))"

definition redis_complete_row :: "time \<Rightarrow> bytes \<Rightarrow> JobRow \<Rightarrow> JobRow" where
  "redis_complete_row now output r = r\<lparr>State := StateCompleted, Output := Some output,
     CompletedAt := Some now, FinalizedAt := Some now\<rparr>"

definition finishScript :: "time \<Rightarrow> job_id \<Rightarrow> bytes \<Rightarrow> redis \<Rightarrow> bool \<times> redis" where
  "finishScript now i output st =
     (case get_doc st i of
        None \<Rightarrow> (False, st)
      | Some doc \<Rightarrow>
          if State (doc_row doc) \<noteq> StateRunning then (False, st)
          else (True, run_rem i (put_doc i (doc\<lparr>doc_row := redis_complete_row now output (doc_row doc)\<rparr>) st)))"

definition redis_Complete :: "redis_env \<Rightarrow> job_id \<Rightarrow> bytes option \<Rightarrow> redis \<Rightarrow> error option \<times> redis" where
  "redis_Complete env i output st =
     found_error (run_script env
       (finishScript (r_clk env 0) i (case output of None \<Rightarrow> [] | Some b \<Rightarrow> b)) st)"

definition redis_add_error :: "time \<Rightarrow> string \<Rightarrow> JobRow \<Rightarrow> AttemptError list" where
  "redis_add_error now msg r =
     Errors r @ [\<lparr>ae_Attempt = Attempt r, ae_Error = msg, ae_Timestamp = now, ae_Stack = []\<rparr>]"

definition redis_fail_row :: "time \<Rightarrow> string \<Rightarrow> JobRow \<Rightarrow> JobRow" where
  "redis_fail_row now msg r = r\<lparr>State := StateFailed, Errors := redis_add_error now msg r,
     CompletedAt := Some now, FinalizedAt := Some now\<rparr>"

definition failScript :: "time \<Rightarrow> job_id \<Rightarrow> string \<Rightarrow> redis \<Rightarrow> bool \<times> redis" where
  "failScript now i msg st =
     (case get_doc st i of
        None \<Rightarrow> (False, st)
      | Some doc \<Rightarrow>
          if State (doc_row doc) \<noteq> StateRunning \<and> State (doc_row doc) \<noteq> StateRetryable then (False, st)
          else (True, due_rem (Queue (doc_row doc)) i (run_rem i
             (put_doc i \<lparr>doc_row = redis_fail_row now msg (doc_row doc), errors_set = True\<rparr> st))))"

definition job_error_text :: "error option \<Rightarrow> string" where
  "job_error_text e = error_text (case e of None \<Rightarrow> Errorf ''job failed'' | Some x \<Rightarrow> x)"

definition redis_Fail :: "redis_env \<Rightarrow> job_id \<Rightarrow> error option \<Rightarrow> redis \<Rightarrow> error option \<times> redis" where
  "redis_Fail env i jobErr st =
     found_error (run_script env (failScript (r_clk env 0) i (job_error_text jobErr)) st)"

definition redis_retryable_row :: "time \<Rightarrow> string \<Rightarrow> time \<Rightarrow> JobRow \<Rightarrow> JobRow" where
  "redis_retryable_row now msg scheduledAt r = r\<lparr>State := StateRetryable, ScheduledAt := scheduledAt,
     NodeID := [], AttemptedAt := None, StartedAt := None, CompletedAt := None, FinalizedAt := None,
     Output := None, Errors := redis_add_error now msg r\<rparr>"

definition scheduleRetryScript :: "time \<Rightarrow> job_id \<Rightarrow> string \<Rightarrow> time \<Rightarrow> redis \<Rightarrow> bool \<times> redis" where
  "scheduleRetryScript now i msg scheduledAt st =
     (case get_doc st i of
        None \<Rightarrow> (False, st)
      | Some doc \<Rightarrow>
          if State (doc_row doc) \<noteq> StateRunning then (False, st)
          else (True, due_add (Queue (doc_row doc)) (unixMicros scheduledAt) i (run_rem i
             (put_doc i \<lparr>doc_row = redis_retryable_row now msg scheduledAt (doc_row doc), errors_set = True\<rparr> st))))"

definition redis_ScheduleRetry ::
    "redis_env \<Rightarrow> job_id \<Rightarrow> error option \<Rightarrow> time \<Rightarrow> redis \<Rightarrow> error option \<times> redis" where
  "redis_ScheduleRetry env i jobErr scheduledAt st =
     found_error (run_script env (scheduleRetryScript (r_clk env 0) i (job_error_text jobErr) scheduledAt) st)"


section \<open>Manual retry and cancellation\<close>

text \<open>The first loop of both scripts: every listed job must exist and be in an allowed state.\<close>

fun load_allowed :: "(State \<Rightarrow> bool) \<Rightarrow> job_id list \<Rightarrow> redis \<Rightarrow> error + (job_id \<times> JobDoc) list" where
  "load_allowed allowed [] st = Inr []"
| "load_allowed allowed (i # is) st =
     (case get_doc st i of
        None \<Rightarrow> Inl ErrJobNotFound
      | Some doc \<Rightarrow>
          if \<not> allowed (State (doc_row doc)) then Inl ErrInvalidTransition
          else (case load_allowed allowed is st of Inl e \<Rightarrow> Inl e | Inr ds \<Rightarrow> Inr ((i, doc) # ds)))"

definition retry_allowed :: "State \<Rightarrow> bool" where
  "retry_allowed s \<longleftrightarrow> s = StateFailed \<or> s = StateCompleted \<or> s = StateCancelled \<or> s = StateRetryable"

definition redis_retry_row :: "time \<Rightarrow> JobRow \<Rightarrow> JobRow" where
  "redis_retry_row now r = r\<lparr>State := StateAvailable, ScheduledAt := now, NodeID := [], Attempt := 0,
     Errors := [], StartedAt := None, AttemptedAt := None, CompletedAt := None, FinalizedAt := None, Output := None\<rparr>"

definition retry_put :: "time \<Rightarrow> job_id \<times> JobDoc \<Rightarrow> redis \<Rightarrow> redis" where
  "retry_put now item st =
     (case item of (i, doc) \<Rightarrow>
        run_rem i (due_add (Queue (doc_row doc)) (unixMicros now) i
          (put_doc i \<lparr>doc_row = redis_retry_row now (doc_row doc), errors_set = True\<rparr> st)))"

definition retryScript :: "time \<Rightarrow> job_id list \<Rightarrow> redis \<Rightarrow> error option \<times> redis" where
  "retryScript now is st =
     (case load_allowed retry_allowed is st of
        Inl e \<Rightarrow> (Some e, st)
      | Inr items \<Rightarrow> (None, fold (retry_put now) items st))"

definition transitionError :: "(error + error option) \<times> redis \<Rightarrow> error option \<times> redis" where
  "transitionError res = (case res of (Inl e, st) \<Rightarrow> (Some e, st) | (Inr e, st) \<Rightarrow> (e, st))"

definition retryBatch :: "redis_env \<Rightarrow> job_id list \<Rightarrow> redis \<Rightarrow> error option \<times> redis" where
  "retryBatch env is st =
     (if is = [] then (None, st)
      else transitionError (run_script env (retryScript (r_clk env 0) is) st))"

definition redis_RetryBatch :: "redis_env \<Rightarrow> job_id list \<Rightarrow> redis \<Rightarrow> error option \<times> redis" where
  "redis_RetryBatch env is st = retryBatch env is st"

definition redis_GetByID :: "redis_env \<Rightarrow> job_id \<Rightarrow> redis \<Rightarrow> error + JobRow" where
  "redis_GetByID env i st =
     (case get_err env of
        Some e \<Rightarrow> Inl e
      | None \<Rightarrow> (case get_doc st i of None \<Rightarrow> Inl ErrJobNotFound | Some doc \<Rightarrow> decodeJob env doc))"

definition redis_Retry :: "redis_env \<Rightarrow> job_id \<Rightarrow> redis \<Rightarrow> (error + JobRow) \<times> redis" where
  "redis_Retry env i st =
     (case retryBatch env [i] st of
        (Some e, st') \<Rightarrow> (Inl e, st')
      | (None, st') \<Rightarrow> (redis_GetByID env i st', st'))"

definition cancel_allowed :: "State \<Rightarrow> bool" where
  "cancel_allowed s \<longleftrightarrow> s = StateAvailable \<or> s = StatePending \<or> s = StateScheduled \<or> s = StateRetryable"

definition redis_cancel_row :: "time \<Rightarrow> JobRow \<Rightarrow> JobRow" where
  "redis_cancel_row now r = r\<lparr>State := StateCancelled, FinalizedAt := Some now\<rparr>"

definition cancel_put :: "time \<Rightarrow> job_id \<times> JobDoc \<Rightarrow> redis \<Rightarrow> redis" where
  "cancel_put now item st =
     (case item of (i, doc) \<Rightarrow>
        due_rem (Queue (doc_row doc)) i
          (put_doc i (doc\<lparr>doc_row := redis_cancel_row now (doc_row doc)\<rparr>) st))"

definition cancelScript :: "time \<Rightarrow> job_id list \<Rightarrow> redis \<Rightarrow> error option \<times> redis" where
  "cancelScript now is st =
     (case load_allowed cancel_allowed is st of
        Inl e \<Rightarrow> (Some e, st)
      | Inr items \<Rightarrow> (None, fold (cancel_put now) items st))"

definition cancelBatch :: "redis_env \<Rightarrow> job_id list \<Rightarrow> redis \<Rightarrow> error option \<times> redis" where
  "cancelBatch env is st =
     (if is = [] then (None, st)
      else transitionError (run_script env (cancelScript (r_clk env 0) is) st))"

definition redis_CancelBatch :: "redis_env \<Rightarrow> job_id list \<Rightarrow> redis \<Rightarrow> error option \<times> redis" where
  "redis_CancelBatch env is st = cancelBatch env is st"

definition redis_Cancel :: "redis_env \<Rightarrow> job_id \<Rightarrow> redis \<Rightarrow> (error + JobRow) \<times> redis" where
  "redis_Cancel env i st =
     (case cancelBatch env [i] st of
        (Some e, st') \<Rightarrow> (Inl e, st')
      | (None, st') \<Rightarrow> (redis_GetByID env i st', st'))"


section \<open>Housekeeping\<close>

definition redis_requeue_row :: "time \<Rightarrow> JobRow \<Rightarrow> JobRow" where
  "redis_requeue_row now r = r\<lparr>State := StateAvailable, NodeID := [], ScheduledAt := now\<rparr>"

fun stale_loop :: "time \<Rightarrow> (job_id \<times> int) list \<Rightarrow> int \<Rightarrow> redis \<Rightarrow> int \<times> redis" where
  "stale_loop now [] cnt st = (cnt, st)"
| "stale_loop now ((i, s) # is) cnt st =
     (case get_doc st i of
        None \<Rightarrow> stale_loop now is cnt (run_rem i st)
      | Some doc \<Rightarrow>
          if State (doc_row doc) = StateRunning
          then stale_loop now is (cnt + 1) (run_rem i (due_add (Queue (doc_row doc)) (unixMicros now) i
             (put_doc i (doc\<lparr>doc_row := redis_requeue_row now (doc_row doc)\<rparr>) st)))
          else stale_loop now is cnt (run_rem i st))"

definition staleScript :: "time \<Rightarrow> int \<Rightarrow> redis \<Rightarrow> int \<times> redis" where
  "staleScript now cutoff st = stale_loop now (zrange (\<lambda>s. s \<le> cutoff) (r_running st)) 0 st"

definition redis_RequeueStale :: "redis_env \<Rightarrow> duration \<Rightarrow> redis \<Rightarrow> (error + int) \<times> redis" where
  "redis_RequeueStale env timeout st =
     run_script env (staleScript (r_clk env 0) (unixMicros (r_clk env 0 - timeout))) st"

definition forget_job :: "job_id \<Rightarrow> JobDoc \<Rightarrow> redis \<Rightarrow> redis" where
  "forget_job i doc st = due_rem (Queue (doc_row doc)) i
     (st\<lparr>r_jobs := DAList.delete i (r_jobs st), r_uuids := DAList.delete (UUID (doc_row doc)) (r_uuids st),
         r_ids := zrem i (r_ids st), r_created := zrem i (r_created st), r_running := zrem i (r_running st)\<rparr>)"

fun prune_loop :: "State list \<Rightarrow> (job_id \<times> int) list \<Rightarrow> int \<Rightarrow> redis \<Rightarrow> int \<times> redis" where
  "prune_loop states [] cnt st = (cnt, st)"
| "prune_loop states ((i, s) # is) cnt st =
     (case get_doc st i of
        None \<Rightarrow> prune_loop states is cnt (st\<lparr>r_ids := zrem i (r_ids st), r_created := zrem i (r_created st)\<rparr>)
      | Some doc \<Rightarrow>
          if State (doc_row doc) \<in> set states then prune_loop states is (cnt + 1) (forget_job i doc st)
          else prune_loop states is cnt st)"

definition pruneScript :: "int \<Rightarrow> State list \<Rightarrow> redis \<Rightarrow> int \<times> redis" where
  "pruneScript before states st = prune_loop states (zrange (\<lambda>s. s < before) (r_created st)) 0 st"

definition redis_Prune :: "redis_env \<Rightarrow> time \<Rightarrow> State list \<Rightarrow> redis \<Rightarrow> (error + int) \<times> redis" where
  "redis_Prune env before states st =
     (if states = [] then (Inr 0, st)
      else run_script env (pruneScript (unixMicros before) states) st)"

end
