(* ===== verification/Redis_Store.thy ===== *)
theory Redis_Store
  imports Redis_Driver Fleet
begin

text \<open>
  The Redis driver as a store of jobs. The scripts keep six secondary keys in step with the job
  documents; the invariant says exactly how, job by job, and every script preserves it whatever
  happens to its reply. \<open>entry_of\<close> collects all that the keys hold about one id, so that a script is
  described by what it does to each entry.
\<close>


section \<open>Entries\<close>

record entry =
  e_doc :: "JobDoc option"
  e_due :: "queue_name \<rightharpoonup> int"
  e_run :: "int option"
  e_ids :: "int option"
  e_created :: "int option"

definition entry_of :: "redis \<Rightarrow> job_id \<Rightarrow> entry" where
  "entry_of st i = \<lparr>e_doc = get_doc st i, e_due = (\<lambda>q. DAList.lookup (r_due st q) i),
     e_run = DAList.lookup (r_running st) i, e_ids = DAList.lookup (r_ids st) i,
     e_created = DAList.lookup (r_created st) i\<rparr>"

lemma e_doc_entry_of [simp]: "e_doc (entry_of st i) = get_doc st i"
  by (simp add: entry_of_def)

lemma entry_of_prims:
  "entry_of (put_doc i doc st) j = (if j = i then (entry_of st j)\<lparr>e_doc := Some doc\<rparr> else entry_of st j)"
  "entry_of (due_add q s i st) j =
     (if j = i then (entry_of st j)\<lparr>e_due := (e_due (entry_of st j))(q \<mapsto> s)\<rparr> else entry_of st j)"
  "entry_of (due_rem q i st) j =
     (if j = i then (entry_of st j)\<lparr>e_due := (e_due (entry_of st j))(q := None)\<rparr> else entry_of st j)"
  "entry_of (run_add s i st) j = (if j = i then (entry_of st j)\<lparr>e_run := Some s\<rparr> else entry_of st j)"
  "entry_of (run_rem i st) j = (if j = i then (entry_of st j)\<lparr>e_run := None\<rparr> else entry_of st j)"
  by (auto simp: entry_of_def get_doc_def put_doc_def due_add_def due_rem_def run_add_def run_rem_def
      lookup_update fun_eq_iff)

lemma frame_prims [simp]:
  "r_last (put_doc i doc st) = r_last st" "r_uuids (put_doc i doc st) = r_uuids st"
  "r_last (due_add q s i st) = r_last st" "r_uuids (due_add q s i st) = r_uuids st"
  "r_last (due_rem q i st) = r_last st" "r_uuids (due_rem q i st) = r_uuids st"
  "r_last (run_add s i st) = r_last st" "r_uuids (run_add s i st) = r_uuids st"
  "r_last (run_rem i st) = r_last st" "r_uuids (run_rem i st) = r_uuids st"
  by (simp_all add: put_doc_def due_add_def due_rem_def run_add_def run_rem_def)

lemma get_doc_prims [simp]:
  "get_doc (put_doc i doc st) j = (if j = i then Some doc else get_doc st j)"
  "get_doc (due_add q s i st) j = get_doc st j"
  "get_doc (due_rem q i st) j = get_doc st j"
  "get_doc (run_add s i st) j = get_doc st j"
  "get_doc (run_rem i st) j = get_doc st j"
  by (simp_all add: get_doc_def put_doc_def due_add_def due_rem_def run_add_def run_rem_def lookup_update)

lemma set_zrange: "set (zrange p z) = {(i, s). DAList.lookup z i = Some s \<and> p s}"
  by (auto simp: zrange_def lookup.rep_eq)

lemma distinct_zrange: "distinct (map fst (zrange p z))"
proof -
  have "distinct (map fst (filter (\<lambda>(i, s). p s) (DAList.impl_of z)))"
    by (rule distinct_map_fst_filter) (rule impl_of_distinct)
  then show ?thesis
    unfolding zrange_def using distinct_map_perm [OF mset_sort] by blast
qed


section \<open>The invariant\<close>

text \<open>
  A due entry belongs to the job's queue, to a waiting job, and carries its scheduled time; a job
  that can be claimed has one.
\<close>

definition due_ok :: "JobRow \<Rightarrow> (queue_name \<rightharpoonup> int) \<Rightarrow> bool" where
  "due_ok r due \<longleftrightarrow>
     (\<forall>q s. due q = Some s \<longrightarrow> q = Queue r \<and> waiting (State r) \<and> s = unixMicros (ScheduledAt r)) \<and>
     (waiting (State r) \<and> Attempt r < MaxAttempts r \<longrightarrow> due (Queue r) \<noteq> None)"

text \<open>A job has an entry among the running ones while it runs, with the time of its claim.\<close>

definition run_ok :: "JobRow \<Rightarrow> int option \<Rightarrow> bool" where
  "run_ok r run \<longleftrightarrow>
     (case run of None \<Rightarrow> State r \<noteq> StateRunning | Some s \<Rightarrow> State r = StateRunning \<and> map_option unixMicros (AttemptedAt r) = Some s)"

lemma run_ok_simps [simp]:
  "run_ok r None \<longleftrightarrow> State r \<noteq> StateRunning"
  "run_ok r (Some s) \<longleftrightarrow> State r = StateRunning \<and> map_option unixMicros (AttemptedAt r) = Some s"
  by (simp_all add: run_ok_def)

lemma run_ok_idle: "State r \<noteq> StateRunning \<Longrightarrow> run_ok r run \<longleftrightarrow> run = None"
  by (cases run) simp_all

definition entry_ok :: "job_id \<Rightarrow> entry \<Rightarrow> bool" where
  "entry_ok i e \<longleftrightarrow>
     (case e_doc e of
        None \<Rightarrow> e_due e = Map.empty \<and> e_run e = None \<and> e_ids e = None \<and> e_created e = None
      | Some doc \<Rightarrow> ID (doc_row doc) = i \<and> e_ids e = Some (int i) \<and>
          e_created e = Some (unixMicros (CreatedAt (doc_row doc))) \<and>
          run_ok (doc_row doc) (e_run e) \<and> due_ok (doc_row doc) (e_due e))"

definition uuids_ok :: "redis \<Rightarrow> bool" where
  "uuids_ok st \<longleftrightarrow> (\<forall>u i. DAList.lookup (r_uuids st) u = Some i \<longleftrightarrow>
     map_option (\<lambda>doc. UUID (doc_row doc)) (get_doc st i) = Some u)"

definition redis_inv :: "redis \<Rightarrow> bool" where
  "redis_inv st \<longleftrightarrow> (\<forall>i. entry_ok i (entry_of st i)) \<and> uuids_ok st \<and> (\<forall>i. get_doc st i \<noteq> None \<longrightarrow> i \<le> r_last st)"

definition redis_look :: "redis \<Rightarrow> job_id \<Rightarrow> JobRow option" where
  "redis_look st i = map_option doc_row (get_doc st i)"

abbreviation redis_step :: "(job_id \<Rightarrow> life_event set) \<Rightarrow> redis \<Rightarrow> redis \<Rightarrow> bool" where
  "redis_step \<equiv> store_step redis_look redis_inv r_last"

text \<open>An entry moves: it stays in order, no document appears or disappears, the life of the job takes a step.\<close>

definition entry_step :: "life_event set \<Rightarrow> job_id \<Rightarrow> entry \<Rightarrow> entry \<Rightarrow> bool" where
  "entry_step E i e e' \<longleftrightarrow>
     entry_ok i e' \<and>
     (case e_doc e of
        None \<Rightarrow> e_doc e' = None
      | Some doc \<Rightarrow> \<exists>doc'. e_doc e' = Some doc' \<and> UUID (doc_row doc') = UUID (doc_row doc) \<and>
          row_step E (doc_row doc) (doc_row doc'))"

lemma entry_step_refl: "entry_ok i e \<Longrightarrow> entry_step E i e e"
  by (auto simp: entry_step_def split: option.split)

lemma entries_step:
  assumes frame: "r_last st' = r_last st" "r_uuids st' = r_uuids st"
    and step: "\<And>i. redis_inv st \<Longrightarrow> entry_step (E i) i (entry_of st i) (entry_of st' i)"
  shows "redis_step E st st'"
proof -
  have docs: "get_doc st' i = None \<longleftrightarrow> get_doc st i = None" if "redis_inv st" for i
    using step [OF that, of i] by (auto simp: entry_step_def split: option.splits)
  have rows: "UUID (doc_row doc') = UUID (doc_row doc) \<and> row_step (E i) (doc_row doc) (doc_row doc')"
    if "redis_inv st" "get_doc st i = Some doc" "get_doc st' i = Some doc'" for i doc doc'
    using step [OF that(1), of i] that(2,3) by (auto simp: entry_step_def)
  have "redis_inv st'" if inv: "redis_inv st"
    unfolding redis_inv_def
  proof (intro conjI allI impI)
    show "entry_ok i (entry_of st' i)" for i using step [OF inv, of i] by (simp add: entry_step_def)
    have "map_option (\<lambda>doc. UUID (doc_row doc)) (get_doc st' i) =
        map_option (\<lambda>doc. UUID (doc_row doc)) (get_doc st i)" for i
      using step [OF inv, of i] by (auto simp: entry_step_def split: option.splits)
    then show "uuids_ok st'" using inv by (simp add: uuids_ok_def redis_inv_def frame)
    show "get_doc st' i \<noteq> None \<Longrightarrow> i \<le> r_last st'" for i
      using inv docs [OF inv] by (simp add: redis_inv_def frame)
  qed
  then show ?thesis
    using docs rows by (auto simp: store_step_def frame redis_look_def)
qed

text \<open>A script that rewrites one document and the keys of that job.\<close>

lemma one_entry_step:
  assumes frame: "r_last st' = r_last st" "r_uuids st' = r_uuids st"
    and entry: "\<And>j. entry_of st' j = (if j = i then e else entry_of st j)"
    and step: "redis_inv st \<Longrightarrow> entry_step (E i) i (entry_of st i) e"
  shows "redis_step E st st'"
  by (rule entries_step [OF frame]) (auto simp: entry step redis_inv_def entry_step_refl)


section \<open>Scripts on one job\<close>

lemma redis_life_of_rows [row_simps]:
  "life_of (redis_claim_row now n r) = (life_of r)\<lparr>l_state := StateRunning, l_attempt := Attempt r + 1\<rparr>"
  "life_of (redis_complete_row now out r) = (life_of r)\<lparr>l_state := StateCompleted\<rparr>"
  "life_of (redis_fail_row now msg r) = (life_of r)\<lparr>l_state := StateFailed\<rparr>"
  "life_of (redis_retryable_row now msg at r) = (life_of r)\<lparr>l_state := StateRetryable\<rparr>"
  "life_of (redis_retry_row now r) = (life_of r)\<lparr>l_state := StateAvailable, l_attempt := 0\<rparr>"
  "life_of (redis_cancel_row now r) = (life_of r)\<lparr>l_state := StateCancelled\<rparr>"
  "life_of (redis_requeue_row now r) = (life_of r)\<lparr>l_state := StateAvailable\<rparr>"
  by (simp_all add: life_of_def redis_claim_row_def redis_complete_row_def redis_fail_row_def
      redis_retryable_row_def redis_retry_row_def redis_cancel_row_def redis_requeue_row_def)

lemma redis_State_of_rows [row_simps]:
  "State (redis_claim_row now n r) = StateRunning"
  "State (redis_complete_row now out r) = StateCompleted"
  "State (redis_fail_row now msg r) = StateFailed"
  "State (redis_retryable_row now msg at r) = StateRetryable"
  "State (redis_retry_row now r) = StateAvailable"
  "State (redis_cancel_row now r) = StateCancelled"
  "State (redis_requeue_row now r) = StateAvailable"
  by (simp_all add: redis_claim_row_def redis_complete_row_def redis_fail_row_def
      redis_retryable_row_def redis_retry_row_def redis_cancel_row_def redis_requeue_row_def)

text \<open>What the scripts never change, and the scheduled time they leave.\<close>

definition same_fixed :: "JobRow \<Rightarrow> JobRow \<Rightarrow> bool" where
  "same_fixed r r' \<longleftrightarrow> ID r' = ID r \<and> UUID r' = UUID r \<and> Queue r' = Queue r \<and> CreatedAt r' = CreatedAt r"

lemma redis_fixed_of_rows [row_simps]:
  "same_fixed r (redis_claim_row now n r)" "same_fixed r (redis_complete_row now out r)"
  "same_fixed r (redis_fail_row now msg r)" "same_fixed r (redis_retryable_row now msg at r)"
  "same_fixed r (redis_retry_row now r)" "same_fixed r (redis_cancel_row now r)"
  "same_fixed r (redis_requeue_row now r)"
  by (simp_all add: same_fixed_def redis_claim_row_def redis_complete_row_def redis_fail_row_def
      redis_retryable_row_def redis_retry_row_def redis_cancel_row_def redis_requeue_row_def)

lemma redis_ScheduledAt_of_rows [row_simps]:
  "ScheduledAt (redis_retryable_row now msg at r) = at" "ScheduledAt (redis_retry_row now r) = now"
  "ScheduledAt (redis_requeue_row now r) = now" "AttemptedAt (redis_claim_row now n r) = Some now"
  by (simp_all add: redis_retryable_row_def redis_retry_row_def redis_requeue_row_def redis_claim_row_def)

lemma entry_okD:
  assumes "redis_inv st" "get_doc st i = Some doc"
  shows "ID (doc_row doc) = i" "e_ids (entry_of st i) = Some (int i)"
    "e_created (entry_of st i) = Some (unixMicros (CreatedAt (doc_row doc)))"
    "e_run (entry_of st i) \<noteq> None \<longleftrightarrow> State (doc_row doc) = StateRunning"
    "due_ok (doc_row doc) (e_due (entry_of st i))" "run_ok (doc_row doc) (e_run (entry_of st i))"
  using assms unfolding redis_inv_def entry_ok_def
  by (auto dest!: spec [of _ i] simp: run_ok_def split: option.splits)

lemma entry_okN:
  assumes "redis_inv st" "get_doc st i = None"
  shows "e_due (entry_of st i) = Map.empty" "e_run (entry_of st i) = None"
    "e_ids (entry_of st i) = None" "e_created (entry_of st i) = None"
  using assms unfolding redis_inv_def entry_ok_def
  by (auto dest!: spec [of _ i])

text \<open>The two ways a job leaves the sorted set of due jobs, and the way it enters it.\<close>

lemma due_ok_queue: "due_ok r due \<Longrightarrow> q \<noteq> Queue r \<Longrightarrow> due q = None"
  unfolding due_ok_def by (cases "due q") auto

lemma due_ok_outside: "due_ok r due \<Longrightarrow> \<not> waiting (State r) \<Longrightarrow> due = Map.empty"
  unfolding due_ok_def by (rule ext, metis not_None_eq)

lemma due_ok_removed: "due_ok r due \<Longrightarrow> due(Queue r := None) = Map.empty"
  by (rule ext) (simp add: due_ok_queue)

lemma due_ok_drop: "due_ok r due \<Longrightarrow> \<not> (waiting (State r) \<and> Attempt r < MaxAttempts r) \<Longrightarrow> due_ok r (due(q := None))"
  unfolding due_ok_def fun_upd_apply by (metis option.distinct(1))

lemma due_ok_empty: "\<not> waiting (State r) \<Longrightarrow> due_ok r Map.empty"
  by (simp add: due_ok_def)

lemma due_ok_added:
  "due_ok r due \<Longrightarrow> waiting (State r') \<Longrightarrow> Queue r' = Queue r \<Longrightarrow> s = unixMicros (ScheduledAt r') \<Longrightarrow>
    due_ok r' (due(Queue r \<mapsto> s))"
  by (auto simp: due_ok_def)

lemma entry_stepI:
  assumes inv: "redis_inv st" and doc: "get_doc st i = Some doc" and row: "doc_row doc' = r'"
    and keep: "same_fixed (doc_row doc) r'" and run: "run_ok r' run"
    and due: "due_ok r' due" and life: "row_step E (doc_row doc) r'"
  shows "entry_step E i (entry_of st i) ((entry_of st i)\<lparr>e_doc := Some doc', e_due := due, e_run := run\<rparr>)"
  using entry_okD [OF inv doc] doc keep run due life row
  by (simp add: entry_step_def entry_ok_def same_fixed_def)

lemma waiting_simps [simp]:
  "waiting StateAvailable" "waiting StateScheduled" "waiting StateRetryable" "\<not> waiting StateRunning"
  "\<not> waiting StateCompleted" "\<not> waiting StateFailed" "\<not> waiting StateCancelled" "\<not> waiting StatePending"
  by (simp_all add: waiting_def)

lemma finish_step: "redis_step (op_events (OpComplete i out)) st (snd (finishScript now i b st))"
proof (cases "\<exists>doc. get_doc st i = Some doc \<and> State (doc_row doc) = StateRunning")
  case True
  then obtain doc where doc: "get_doc st i = Some doc" "State (doc_row doc) = StateRunning" by blast
  show ?thesis
  proof (rule one_entry_step [where i = i])
    let ?doc = "doc\<lparr>doc_row := redis_complete_row now b (doc_row doc)\<rparr>"
    show "entry_of (snd (finishScript now i b st)) j =
        (if j = i then (entry_of st i)\<lparr>e_doc := Some ?doc, e_due := e_due (entry_of st i), e_run := None\<rparr>
         else entry_of st j)" for j
      using doc by (simp add: finishScript_def entry_of_prims)
    assume inv: "redis_inv st"
    then show "entry_step (op_events (OpComplete i out) i) i (entry_of st i)
        ((entry_of st i)\<lparr>e_doc := Some ?doc, e_due := e_due (entry_of st i), e_run := None\<rparr>)"
      using due_ok_outside [OF entry_okD(5) [OF inv doc(1)]] doc
      by (intro entry_stepI [OF inv doc(1)]) (auto simp: row_simps row_step_def intro: due_ok_empty)
  qed (use doc in \<open>simp_all add: finishScript_def\<close>)
next
  case False
  then show ?thesis by (auto simp: finishScript_def split: option.split)
qed

lemma fail_step: "redis_step (op_events (OpFail i e)) st (snd (failScript now i msg st))"
proof (cases "\<exists>doc. get_doc st i = Some doc \<and> (State (doc_row doc) = StateRunning \<or> State (doc_row doc) = StateRetryable)")
  case True
  then obtain doc where doc: "get_doc st i = Some doc"
    and s: "State (doc_row doc) = StateRunning \<or> State (doc_row doc) = StateRetryable" by blast
  let ?due = "(e_due (entry_of st i))(Queue (doc_row doc) := None)"
  let ?e = "(entry_of st i)\<lparr>e_doc := Some \<lparr>doc_row = redis_fail_row now msg (doc_row doc), errors_set = True\<rparr>,
      e_due := ?due, e_run := None\<rparr>"
  show ?thesis
  proof (rule one_entry_step [where i = i])
    show "entry_of (snd (failScript now i msg st)) j = (if j = i then ?e else entry_of st j)" for j
      using doc s by (auto simp: failScript_def entry_of_prims)
    assume inv: "redis_inv st"
    then show "entry_step (op_events (OpFail i e) i) i (entry_of st i) ?e"
      using due_ok_removed [OF entry_okD(5) [OF inv doc(1)]] s
      by (intro entry_stepI [OF inv doc(1)]) (auto simp: row_simps row_step_def intro: due_ok_empty)
  qed (use doc s in \<open>auto simp: failScript_def\<close>)
next
  case False
  then show ?thesis by (auto simp: failScript_def split: option.split)
qed

lemma scheduleRetry_step:
  "redis_step (op_events (OpScheduleRetry i e at')) st (snd (scheduleRetryScript now i msg at st))"
proof (cases "\<exists>doc. get_doc st i = Some doc \<and> State (doc_row doc) = StateRunning")
  case True
  then obtain doc where doc: "get_doc st i = Some doc" and s: "State (doc_row doc) = StateRunning" by blast
  let ?e = "(entry_of st i)\<lparr>e_doc := Some \<lparr>doc_row = redis_retryable_row now msg at (doc_row doc), errors_set = True\<rparr>,
      e_due := (e_due (entry_of st i))(Queue (doc_row doc) \<mapsto> unixMicros at), e_run := None\<rparr>"
  show ?thesis
  proof (rule one_entry_step [where i = i])
    show "entry_of (snd (scheduleRetryScript now i msg at st)) j = (if j = i then ?e else entry_of st j)" for j
      using doc s by (simp add: scheduleRetryScript_def entry_of_prims)
    assume inv: "redis_inv st"
    have "due_ok (redis_retryable_row now msg at (doc_row doc))
        ((e_due (entry_of st i))(Queue (doc_row doc) \<mapsto> unixMicros at))"
      by (rule due_ok_added [OF entry_okD(5) [OF inv doc(1)]]) (simp_all add: row_simps redis_retryable_row_def)
    then show "entry_step (op_events (OpScheduleRetry i e at') i) i (entry_of st i) ?e"
      using s by (intro entry_stepI [OF inv doc(1)]) (auto simp: row_simps row_step_def)
  qed (use doc s in \<open>simp_all add: scheduleRetryScript_def\<close>)
next
  case False
  then show ?thesis by (auto simp: scheduleRetryScript_def split: option.split)
qed


section \<open>Scripts on several jobs\<close>

lemma load_allowed_Inr:
  "load_allowed allowed is st = Inr items \<Longrightarrow>
    items = map (\<lambda>i. (i, the (get_doc st i))) is \<and>
    (\<forall>i \<in> set is. \<exists>doc. get_doc st i = Some doc \<and> allowed (State (doc_row doc)))"
  by (induction "is" arbitrary: items) (auto split: option.splits if_splits sum.splits)

definition retried :: "time \<Rightarrow> JobDoc \<Rightarrow> entry \<Rightarrow> entry" where
  "retried now doc e = e\<lparr>e_doc := Some \<lparr>doc_row = redis_retry_row now (doc_row doc), errors_set = True\<rparr>,
     e_due := (e_due e)(Queue (doc_row doc) \<mapsto> unixMicros now), e_run := None\<rparr>"

lemma retry_fold:
  "entry_of (fold (retry_put now) (map (\<lambda>i. (i, d i)) is) st) j =
     (if j \<in> set is then retried now (d j) (entry_of st j) else entry_of st j) \<and>
   r_last (fold (retry_put now) (map (\<lambda>i. (i, d i)) is) st) = r_last st \<and>
   r_uuids (fold (retry_put now) (map (\<lambda>i. (i, d i)) is) st) = r_uuids st"
  by (induction "is" arbitrary: st) (auto simp: retry_put_def entry_of_prims retried_def)

lemma retry_step:
  "redis_step (\<lambda>i. if i \<in> set is then {LRetry} else {}) st (snd (retryScript now is st))"
proof (cases "load_allowed retry_allowed is st")
  case (Inr items)
  note items = load_allowed_Inr [OF Inr]
  let ?d = "\<lambda>i. the (get_doc st i)"
  note fold = retry_fold [of now ?d "is" st]
  have "entry_step (if j \<in> set is then {LRetry} else {}) j (entry_of st j)
      (if j \<in> set is then retried now (?d j) (entry_of st j) else entry_of st j)" if inv: "redis_inv st" for j
  proof (cases "j \<in> set is")
    case True
    with items obtain doc where doc: "get_doc st j = Some doc" "retry_allowed (State (doc_row doc))" by blast
    have "due_ok (redis_retry_row now (doc_row doc)) ((e_due (entry_of st j))(Queue (doc_row doc) \<mapsto> unixMicros now))"
      by (rule due_ok_added [OF entry_okD(5) [OF inv doc(1)]]) (simp_all add: row_simps redis_retry_row_def)
    then have "entry_step {LRetry} j (entry_of st j) (retried now doc (entry_of st j))"
      unfolding retried_def using doc(2)
      by (intro entry_stepI [OF inv doc(1)]) (auto simp: row_simps row_step_def retry_allowed_def)
    with True doc show ?thesis by simp
  next
    case False
    with inv show ?thesis by (simp add: entry_step_refl redis_inv_def)
  qed
  with Inr items fold show ?thesis
    by (intro entries_step) (simp_all add: retryScript_def)
qed (simp add: retryScript_def)

definition cancelled :: "time \<Rightarrow> JobDoc \<Rightarrow> entry \<Rightarrow> entry" where
  "cancelled now doc e = e\<lparr>e_doc := Some (doc\<lparr>doc_row := redis_cancel_row now (doc_row doc)\<rparr>),
     e_due := (e_due e)(Queue (doc_row doc) := None)\<rparr>"

lemma cancel_fold:
  "entry_of (fold (cancel_put now) (map (\<lambda>i. (i, d i)) is) st) j =
     (if j \<in> set is then cancelled now (d j) (entry_of st j) else entry_of st j) \<and>
   r_last (fold (cancel_put now) (map (\<lambda>i. (i, d i)) is) st) = r_last st \<and>
   r_uuids (fold (cancel_put now) (map (\<lambda>i. (i, d i)) is) st) = r_uuids st"
  by (induction "is" arbitrary: st) (auto simp: cancel_put_def entry_of_prims cancelled_def)

lemma cancel_step:
  "redis_step (\<lambda>i. if i \<in> set is then {LCancel} else {}) st (snd (cancelScript now is st))"
proof (cases "load_allowed cancel_allowed is st")
  case (Inr items)
  note items = load_allowed_Inr [OF Inr]
  let ?d = "\<lambda>i. the (get_doc st i)"
  note fold = cancel_fold [of now ?d "is" st]
  have "entry_step (if j \<in> set is then {LCancel} else {}) j (entry_of st j)
      (if j \<in> set is then cancelled now (?d j) (entry_of st j) else entry_of st j)" if inv: "redis_inv st" for j
  proof (cases "j \<in> set is")
    case True
    with items obtain doc where doc: "get_doc st j = Some doc" "cancel_allowed (State (doc_row doc))" by blast
    then have run: "e_run (entry_of st j) = None"
      using entry_okD(4) [OF inv doc(1)] by (auto simp: cancel_allowed_def)
    have due: "due_ok (redis_cancel_row now (doc_row doc)) ((e_due (entry_of st j))(Queue (doc_row doc) := None))"
      using due_ok_removed [OF entry_okD(5) [OF inv doc(1)]] by (simp add: due_ok_empty row_simps)
    let ?e = "((entry_of st j)\<lparr>e_doc := Some (doc\<lparr>doc_row := redis_cancel_row now (doc_row doc)\<rparr>),
           e_due := (e_due (entry_of st j))(Queue (doc_row doc) := None), e_run := None\<rparr>)"
    have "entry_step {LCancel} j (entry_of st j) ?e"
      using doc(2) due
      by (intro entry_stepI [OF inv doc(1)]) (auto simp: row_simps row_step_def cancel_allowed_def)
    moreover have "?e = cancelled now doc (entry_of st j)"
      using run by (cases "entry_of st j") (simp add: cancelled_def)
    ultimately show ?thesis using True doc by simp
  next
    case False
    with inv show ?thesis by (simp add: entry_step_refl redis_inv_def)
  qed
  with Inr items fold show ?thesis
    by (intro entries_step) (simp_all add: cancelScript_def)
qed (simp add: cancelScript_def)

text \<open>The loop over stale jobs: what it does to each entry.\<close>

definition requeued :: "time \<Rightarrow> entry \<Rightarrow> entry" where
  "requeued now e =
     (case e_doc e of
        None \<Rightarrow> e\<lparr>e_run := None\<rparr>
      | Some doc \<Rightarrow>
          if State (doc_row doc) = StateRunning
          then e\<lparr>e_doc := Some (doc\<lparr>doc_row := redis_requeue_row now (doc_row doc)\<rparr>),
                 e_due := (e_due e)(Queue (doc_row doc) \<mapsto> unixMicros now), e_run := None\<rparr>
          else e\<lparr>e_run := None\<rparr>)"

lemma requeued_idem: "requeued now (requeued now e) = requeued now e"
  by (auto simp: requeued_def row_simps split: option.split)

lemma entry_requeued:
  "entry_of (case get_doc st i of
       None \<Rightarrow> run_rem i st
     | Some doc \<Rightarrow>
         if State (doc_row doc) = StateRunning
         then run_rem i (due_add (Queue (doc_row doc)) (unixMicros now) i
            (put_doc i (doc\<lparr>doc_row := redis_requeue_row now (doc_row doc)\<rparr>) st))
         else run_rem i st) j = (if j = i then requeued now (entry_of st j) else entry_of st j)"
  by (auto simp: entry_of_prims requeued_def split: option.split)

lemma stale_loop_entries:
  "entry_of (snd (stale_loop now is cnt st)) j =
     (if j \<in> fst ` set is then requeued now (entry_of st j) else entry_of st j) \<and>
   r_last (snd (stale_loop now is cnt st)) = r_last st \<and> r_uuids (snd (stale_loop now is cnt st)) = r_uuids st"
proof (induction now "is" cnt st rule: stale_loop.induct)
  case (2 now i s "is" cnt st)
  show ?case
  proof (cases "get_doc st i")
    case None
    with 2(1) entry_requeued [where st = st and i = i and now = now and j = j] show ?thesis by (auto simp: requeued_idem)
  next
    case (Some doc)
    with 2(2,3) entry_requeued [where st = st and i = i and now = now and j = j] show ?thesis
      by (cases "State (doc_row doc) = StateRunning") (auto simp: requeued_idem)
  qed
qed simp

lemma stale_step: "redis_step (op_events (OpRequeueStale t)) st (snd (staleScript now cutoff st))"
proof (rule entries_step)
  let ?is = "zrange (\<lambda>s. s \<le> cutoff) (r_running st)"
  note loop = stale_loop_entries [of now ?is 0 st]
  show "r_last (snd (staleScript now cutoff st)) = r_last st" "r_uuids (snd (staleScript now cutoff st)) = r_uuids st"
    using loop by (simp_all add: staleScript_def)
  fix i assume inv: "redis_inv st"
  show "entry_step (op_events (OpRequeueStale t) i) i (entry_of st i) (entry_of (snd (staleScript now cutoff st)) i)"
  proof (cases "i \<in> fst ` set ?is")
    case True
    then have "e_run (entry_of st i) \<noteq> None" by (auto simp: set_zrange entry_of_def)
    then obtain doc where doc: "get_doc st i = Some doc" "State (doc_row doc) = StateRunning"
      using entry_okD(4) [OF inv, of i] entry_okN(2) [OF inv, of i] by (cases "get_doc st i") auto
    have "due_ok (redis_requeue_row now (doc_row doc)) ((e_due (entry_of st i))(Queue (doc_row doc) \<mapsto> unixMicros now))"
      by (rule due_ok_added [OF entry_okD(5) [OF inv doc(1)]]) (simp_all add: row_simps redis_requeue_row_def)
    then have "entry_step {LRequeue} i (entry_of st i) (requeued now (entry_of st i))"
      unfolding requeued_def using doc entry_stepI [OF inv doc(1)]
      by (auto simp: row_simps row_step_def)
    with True loop show ?thesis by (simp add: staleScript_def)
  next
    case False
    with inv loop [of i] show ?thesis by (simp add: staleScript_def entry_step_refl redis_inv_def)
  qed
qed


section \<open>Claiming\<close>

definition claimable_doc :: "JobDoc \<Rightarrow> bool" where
  "claimable_doc doc \<longleftrightarrow> waiting (State (doc_row doc)) \<and> Attempt (doc_row doc) < MaxAttempts (doc_row doc)"

definition claimable_id :: "redis \<Rightarrow> job_id \<Rightarrow> bool" where
  "claimable_id st i \<longleftrightarrow> (\<exists>doc. get_doc st i = Some doc \<and> claimable_doc doc)"

lemma claimable_id_due_rem [simp]: "claimable_id (due_rem q i st) j = claimable_id st j"
  by (simp add: claimable_id_def)

lemma claim_scan_Cons:
  "claim_scan q ((i, score) # due) st =
     (if claimable_id st i
      then ((i, score, the (get_doc st i)) # fst (claim_scan q due st), snd (claim_scan q due st))
      else claim_scan q due (due_rem q i st))"
  by (auto simp: claimable_id_def claimable_doc_def waiting_def split_def Let_def split: option.split)

lemma claim_scan_candidates:
  "fst (claim_scan q due st) =
     map (\<lambda>(i, s). (i, s, the (get_doc st i))) (filter (\<lambda>(i, s). claimable_id st i) due)"
proof (induction due arbitrary: st)
  case (Cons p due)
  obtain i s where p: "p = (i, s)" by (cases p)
  show ?case using Cons.IH [of st] Cons.IH [of "due_rem q i st"]
    by (simp add: p claim_scan_Cons del: claim_scan.simps)
qed simp

definition undue :: "queue_name \<Rightarrow> entry \<Rightarrow> entry" where
  "undue q e = e\<lparr>e_due := (e_due e)(q := None)\<rparr>"

lemma undue_idem [simp]: "undue q (undue q e) = undue q e"
  by (simp add: undue_def)

lemma e_doc_undue [simp]: "e_doc (undue q e) = e_doc e"
  by (simp add: undue_def)

lemma entry_of_due_rem: "entry_of (due_rem q i st) j = (if j = i then undue q (entry_of st j) else entry_of st j)"
  by (simp add: entry_of_prims undue_def)

lemma claim_scan_entries:
  "entry_of (snd (claim_scan q due st)) j =
     (if j \<in> fst ` set due \<and> \<not> claimable_id st j
      then undue q (entry_of st j) else entry_of st j) \<and>
   r_last (snd (claim_scan q due st)) = r_last st \<and> r_uuids (snd (claim_scan q due st)) = r_uuids st"
proof (induction due arbitrary: st)
  case (Cons p due)
  obtain i s where p: "p = (i, s)" by (cases p)
  show ?case using Cons.IH [of st] Cons.IH [of "due_rem q i st"]
    by (simp add: p claim_scan_Cons entry_of_due_rem del: claim_scan.simps)
qed simp

lemma get_doc_claim_scan: "get_doc (snd (claim_scan q due st)) j = get_doc st j"
proof -
  have "e_doc (entry_of (snd (claim_scan q due st)) j) = e_doc (entry_of st j)"
    using claim_scan_entries [of q due st j] by (simp del: e_doc_entry_of)
  then show ?thesis by simp
qed

definition claimed :: "time \<Rightarrow> queue_name \<Rightarrow> node_id \<Rightarrow> JobDoc \<Rightarrow> entry \<Rightarrow> entry" where
  "claimed now q node doc e = e\<lparr>e_doc := Some (doc\<lparr>doc_row := redis_claim_row now node (doc_row doc)\<rparr>),
     e_due := (e_due e)(q := None), e_run := Some (unixMicros now)\<rparr>"

lemma claim_take_entries:
  "distinct (map fst cs) \<Longrightarrow>
   entry_of (snd (claim_take now q node cs st)) j =
     (case map_of cs j of None \<Rightarrow> entry_of st j | Some (score, doc) \<Rightarrow> claimed now q node doc (entry_of st j)) \<and>
   r_last (snd (claim_take now q node cs st)) = r_last st \<and> r_uuids (snd (claim_take now q node cs st)) = r_uuids st"
proof (induction now q node cs st rule: claim_take.induct)
  case (2 now q node i score doc cs st)
  have fresh: "map_of cs i = None" using 2(2) by (simp add: map_of_eq_None_iff)
  let ?st = "run_add (unixMicros now) i (due_rem q i (put_doc i (doc\<lparr>doc_row := redis_claim_row now node (doc_row doc)\<rparr>) st))"
  have "entry_of ?st j = (if j = i then claimed now q node doc (entry_of st j) else entry_of st j)"
    by (simp add: entry_of_prims claimed_def)
  with 2 fresh show ?case
    by (auto simp: Let_def split_def split: option.split)
qed simp

lemma claim_take_docs:
  "fst (claim_take now q node cs st) = map (\<lambda>(i, s, doc). doc\<lparr>doc_row := redis_claim_row now node (doc_row doc)\<rparr>) cs"
  by (induction now q node cs st rule: claim_take.induct) (auto simp: Let_def split_def)

text \<open>The candidates that are taken, and what the script does to each entry.\<close>

definition due_now :: "time \<Rightarrow> queue_name \<Rightarrow> redis \<Rightarrow> (job_id \<times> int) list" where
  "due_now now q st = zrange (\<lambda>s. s \<le> unixMicros now) (r_due st q)"

definition taken :: "time \<Rightarrow> queue_name \<Rightarrow> int \<Rightarrow> redis \<Rightarrow> candidate list" where
  "taken now q m st = limit m (sort_key redis_claim_order (fst (claim_scan q (due_now now q st) st)))"

lemma claimScript_taken:
  "claimScript now q node m st = claim_take now q node (taken now q m st) (snd (claim_scan q (due_now now q st) st))"
  by (simp add: claimScript_def taken_def due_now_def split_def Let_def)

lemma distinct_candidates: "distinct (map fst (fst (claim_scan q (due_now now q st) st)))"
proof -
  have "map fst (fst (claim_scan q (due_now now q st) st)) = map fst (filter (\<lambda>(i, s). claimable_id st i) (due_now now q st))"
    by (simp add: claim_scan_candidates split_def)
  then show ?thesis
    using distinct_map_fst_filter [OF distinct_zrange] by (simp add: due_now_def)
qed

lemma distinct_taken: "distinct (map fst (taken now q m st))"
proof -
  have "distinct (map fst (sort_key redis_claim_order (fst (claim_scan q (due_now now q st) st))))"
    using distinct_map_perm [OF mset_sort] distinct_candidates by blast
  then show ?thesis by (simp add: taken_def limit_def take_map [symmetric])
qed

lemma taken_doc:
  assumes "(i, s, doc) \<in> set (taken now q m st)"
  shows "get_doc st i = Some doc" "claimable_doc doc" "e_due (entry_of st i) q = Some s" "s \<le> unixMicros now"
proof -
  have "(i, s, doc) \<in> set (fst (claim_scan q (due_now now q st) st))"
    using assms set_limit_subset by (fastforce simp: taken_def)
  then show "get_doc st i = Some doc" "claimable_doc doc" "e_due (entry_of st i) q = Some s" "s \<le> unixMicros now"
    by (auto simp: claim_scan_candidates claimable_id_def due_now_def set_zrange entry_of_def)
qed

lemma claimScript_entries:
  "entry_of (snd (claimScript now q node m st)) j =
     (case map_of (taken now q m st) j of
        Some (s, doc) \<Rightarrow> claimed now q node doc (entry_of st j)
      | None \<Rightarrow> if j \<in> fst ` set (due_now now q st) \<and> \<not> claimable_id st j
                then undue q (entry_of st j) else entry_of st j)"
proof (cases "map_of (taken now q m st) j")
  case None
  then show ?thesis
    using claim_take_entries [OF distinct_taken] claim_scan_entries by (simp add: claimScript_taken)
next
  case (Some p)
  obtain s doc where p: "p = (s, doc)" by (cases p)
  from map_of_SomeD [OF Some] have "claimable_id st j"
    using taken_doc by (auto simp: p claimable_id_def)
  with Some show ?thesis
    using claim_take_entries [OF distinct_taken, of now q node now q m st "snd (claim_scan q (due_now now q st) st)" j]
      claim_scan_entries [of q "due_now now q st" st j]
    by (simp add: claimScript_taken p)
qed

lemma claim_step: "redis_step (op_events (OpClaim q' n' m')) st (snd (claimScript now q node m st))"
proof (rule entries_step)
  show "r_last (snd (claimScript now q node m st)) = r_last st"
    "r_uuids (snd (claimScript now q node m st)) = r_uuids st"
    using claim_take_entries [OF distinct_taken] claim_scan_entries by (simp_all add: claimScript_taken)
  fix i assume inv: "redis_inv st"
  show "entry_step (op_events (OpClaim q' n' m') i) i (entry_of st i) (entry_of (snd (claimScript now q node m st)) i)"
  proof (cases "map_of (taken now q m st) i")
    case (Some p)
    obtain s doc where p: "p = (s, doc)" by (cases p)
    note doc = taken_doc [OF map_of_SomeD [OF Some [unfolded p]]]
    have "q = Queue (doc_row doc)"
      using entry_okD(5) [OF inv doc(1)] doc(3) due_ok_queue by (metis option.distinct(1))
    then have "(e_due (entry_of st i))(q := None) = Map.empty"
      using due_ok_removed [OF entry_okD(5) [OF inv doc(1)]] by simp
    then have "entry_step {LClaim} i (entry_of st i) (claimed now q node doc (entry_of st i))"
      unfolding claimed_def using doc(2)
      by (intro entry_stepI [OF inv doc(1)]) (auto simp: row_simps row_step_def claimable_doc_def due_ok_empty)
    with Some p show ?thesis by (simp add: claimScript_entries)
  next
    case None
    have "entry_step {LClaim} i (entry_of st i) (undue q (entry_of st i))" if "\<not> claimable_id st i"
    proof (cases "get_doc st i")
      case None
      then show ?thesis
        using entry_okN [OF inv None] by (simp add: undue_def entry_step_def entry_ok_def fun_upd_idem)
    next
      case (Some doc)
      have "due_ok (doc_row doc) ((e_due (entry_of st i))(q := None))"
        using entry_okD(5) [OF inv Some] that Some
        by (intro due_ok_drop) (simp_all add: claimable_id_def claimable_doc_def)
      then show ?thesis
        using entry_okD [OF inv Some] Some by (simp add: undue_def entry_step_def entry_ok_def)
    qed
    with None inv show ?thesis by (simp add: claimScript_entries entry_step_refl redis_inv_def)
  qed
qed


section \<open>Pruning\<close>

text \<open>Steps that only remove jobs compose.\<close>

definition only_removes :: "redis \<Rightarrow> redis \<Rightarrow> bool" where
  "only_removes st st' \<longleftrightarrow> r_last st' = r_last st \<and>
     (redis_inv st \<longrightarrow> redis_inv st' \<and> (\<forall>i. get_doc st' i = get_doc st i \<or> get_doc st' i = None))"

lemma only_removes_refl [simp]: "only_removes st st"
  by (simp add: only_removes_def)

lemma only_removes_trans: "only_removes st st' \<Longrightarrow> only_removes st' st'' \<Longrightarrow> only_removes st st''"
  unfolding only_removes_def by metis

lemma only_removes_step: "only_removes st st' \<Longrightarrow> redis_step E st st'"
  unfolding only_removes_def store_step_def redis_look_def
proof (elim conjE, intro conjI impI allI)
  fix i r r'
  assume "redis_inv st \<longrightarrow> redis_inv st' \<and> (\<forall>i. get_doc st' i = get_doc st i \<or> get_doc st' i = None)" "redis_inv st"
  then have "redis_inv st' \<and> (\<forall>i. get_doc st' i = get_doc st i \<or> get_doc st' i = None)" by (rule mp)
  then have *: "get_doc st' i = get_doc st i \<or> get_doc st' i = None" by (elim conjE allE)
  show "map_option doc_row (get_doc st i) = None \<Longrightarrow> map_option doc_row (get_doc st' i) = None"
    using * by auto
  show "map_option doc_row (get_doc st i) = Some r \<Longrightarrow> map_option doc_row (get_doc st' i) = Some r' \<Longrightarrow> row_step (E i) r r'"
    using * by auto
qed auto

lemma forget_job_entries:
  "entry_of (forget_job i doc st) j =
     (if j = i then \<lparr>e_doc = None, e_due = (e_due (entry_of st i))(Queue (doc_row doc) := None),
        e_run = None, e_ids = None, e_created = None\<rparr> else entry_of st j)"
  by (auto simp: forget_job_def due_rem_def entry_of_def get_doc_def fun_eq_iff)

lemma forget_job_removes:
  assumes "redis_inv st \<Longrightarrow> get_doc st i = Some doc"
  shows "only_removes st (forget_job i doc st)"
proof -
  let ?st = "forget_job i doc st"
  have docs: "get_doc ?st j = (if j = i then None else get_doc st j)" for j
    using arg_cong [where f = e_doc, OF forget_job_entries [of i doc st j]] by simp
  have frame: "r_last ?st = r_last st" "r_uuids ?st = DAList.delete (UUID (doc_row doc)) (r_uuids st)"
    by (simp_all add: forget_job_def due_rem_def)
  have "redis_inv ?st" if inv: "redis_inv st"
    unfolding redis_inv_def
  proof (intro conjI allI impI)
    note doc = assms [OF inv]
    show "entry_ok j (entry_of ?st j)" for j
    proof (cases "j = i")
      case True
      then show ?thesis
        using due_ok_removed [OF entry_okD(5) [OF inv doc]] by (simp add: forget_job_entries entry_ok_def)
    next
      case False
      then show ?thesis using inv by (simp add: forget_job_entries redis_inv_def)
    qed
    have u: "DAList.lookup (r_uuids st) u = Some j \<longleftrightarrow> map_option (\<lambda>d. UUID (doc_row d)) (get_doc st j) = Some u" for u j
      using inv by (simp add: redis_inv_def uuids_ok_def)
    have mine: "DAList.lookup (r_uuids st) (UUID (doc_row doc)) = Some i" using doc by (simp add: u)
    have "j = i" if "map_option (\<lambda>d. UUID (doc_row d)) (get_doc st j) = Some (UUID (doc_row doc))" for j
      using that [folded u] mine by simp
    then show "uuids_ok ?st"
      unfolding uuids_ok_def docs frame lookup_delete fun_upd_apply using u doc by auto
    show "get_doc ?st j \<noteq> None \<Longrightarrow> j \<le> r_last ?st" for j
      using inv by (simp add: docs frame redis_inv_def split: if_splits)
  qed
  then show ?thesis by (simp add: only_removes_def frame docs)
qed

lemma prune_loop_removes: "only_removes st (snd (prune_loop states is cnt st))"
proof (induction states "is" cnt st rule: prune_loop.induct)
  case (2 states i s "is" cnt st)
  show ?case
  proof (cases "get_doc st i")
    case None
    let ?st = "st\<lparr>r_ids := zrem i (r_ids st), r_created := zrem i (r_created st)\<rparr>"
    have same: "entry_of ?st j = entry_of st j" if "redis_inv st" for j
      using entry_okN(3,4) [OF that None] by (auto simp: entry_of_def get_doc_def)
    have "only_removes st ?st"
      using same by (auto simp: only_removes_def redis_inv_def uuids_ok_def get_doc_def)
    with None 2(1) show ?thesis by (simp add: only_removes_trans [of st ?st])
  next
    case (Some doc)
    with 2(2,3) only_removes_trans [OF forget_job_removes [of st i doc]] show ?thesis by simp
  qed
qed simp


section \<open>Enqueueing\<close>

definition only_adds_jobs :: "redis \<Rightarrow> redis \<Rightarrow> bool" where
  "only_adds_jobs st st' \<longleftrightarrow> r_last st \<le> r_last st' \<and> redis_inv st' \<and>
     (\<forall>i. i \<le> r_last st \<longrightarrow> get_doc st' i = get_doc st i)"

lemma only_adds_jobs_trans:
  "only_adds_jobs st st' \<Longrightarrow> only_adds_jobs st' st'' \<Longrightarrow> only_adds_jobs st st''"
  by (auto simp: only_adds_jobs_def)

lemma only_adds_jobs_step:
  assumes "redis_inv st \<Longrightarrow> only_adds_jobs st st'" and "r_last st \<le> r_last st'"
  shows "redis_step E st st'"
proof -
  have "redis_look st' i = redis_look st i" if "redis_inv st" "i \<le> r_last st" for i
    using assms(1) that by (simp add: only_adds_jobs_def redis_look_def)
  moreover have "i \<le> r_last st" if "redis_inv st" "redis_look st i = Some r" for i r
    using that by (auto simp: redis_inv_def redis_look_def)
  ultimately show ?thesis
    using assms by (auto simp: store_step_def only_adds_jobs_def)
qed

definition enqueued_doc :: "job_id \<Rightarrow> JobRow \<Rightarrow> JobDoc" where
  "enqueued_doc i job = \<lparr>doc_row = (marshalled job)\<lparr>ID := i\<rparr>, errors_set = (Errors job \<noteq> [])\<rparr>"

lemma marshalled_sel [simp]:
  "State (marshalled job) = State job" "Queue (marshalled job) = Queue job" "UUID (marshalled job) = UUID job"
  "Attempt (marshalled job) = Attempt job" "MaxAttempts (marshalled job) = MaxAttempts job"
  "ScheduledAt (marshalled job) = ScheduledAt job" "CreatedAt (marshalled job) = CreatedAt job"
  "Errors (marshalled job) = Errors job" "Priority (marshalled job) = Priority job"
  by (simp_all add: marshalled_def)

lemma enqueue_one_entries:
  "entry_of (snd (enqueue_one job st)) j =
     (if j = r_last st + 1
      then \<lparr>e_doc = Some (enqueued_doc j job),
        e_due = (if waiting (State job) then (e_due (entry_of st j))(Queue job \<mapsto> unixMicros (ScheduledAt job))
                 else e_due (entry_of st j)),
        e_run = e_run (entry_of st j), e_ids = Some (int j), e_created = Some (unixMicros (CreatedAt job))\<rparr>
      else entry_of st j)"
  by (auto simp: enqueue_one_def Let_def waiting_def enqueued_doc_def entry_of_def get_doc_def put_doc_def due_add_def
      lookup_update fun_eq_iff)

lemma enqueue_one_frame:
  "fst (enqueue_one job st) = r_last st + 1" "r_last (snd (enqueue_one job st)) = r_last st + 1"
  "r_uuids (snd (enqueue_one job st)) = DAList.update (UUID job) (r_last st + 1) (r_uuids st)"
  by (simp_all add: enqueue_one_def Let_def)

lemma enqueue_one_adds:
  assumes inv: "redis_inv st" and fresh: "DAList.lookup (r_uuids st) (UUID job) = None"
    and state: "State job \<noteq> StateRunning"
  shows "only_adds_jobs st (snd (enqueue_one job st))"
proof -
  let ?st = "snd (enqueue_one job st)" and ?i = "r_last st + 1"
  have docs: "get_doc ?st j = (if j = ?i then Some (enqueued_doc j job) else get_doc st j)" for j
    using arg_cong [where f = e_doc, OF enqueue_one_entries [of job st j]] by simp
  have new: "get_doc st ?i = None" using inv by (force simp: redis_inv_def)
  note empty = entry_okN [OF inv new]
  have "redis_inv ?st"
    unfolding redis_inv_def
  proof (intro conjI allI impI)
    show "entry_ok j (entry_of ?st j)" for j
    proof (cases "j = ?i")
      case True
      then show ?thesis
        using empty state
        by (simp add: enqueue_one_entries entry_ok_def enqueued_doc_def due_ok_def)
    next
      case False
      then show ?thesis using inv by (simp add: enqueue_one_entries redis_inv_def)
    qed
    have u: "DAList.lookup (r_uuids st) u = Some j \<longleftrightarrow> map_option (\<lambda>d. UUID (doc_row d)) (get_doc st j) = Some u" for u j
      using inv by (simp add: redis_inv_def uuids_ok_def)
    have "map_option (\<lambda>d. UUID (doc_row d)) (get_doc st j) \<noteq> Some (UUID job)" for j
      using u [of "UUID job" j] fresh by simp
    then show "uuids_ok ?st"
      using fresh new u unfolding uuids_ok_def docs enqueue_one_frame lookup_update
      by (simp add: enqueued_doc_def)
    show "get_doc ?st j \<noteq> None \<Longrightarrow> j \<le> r_last ?st" for j
      using inv by (force simp: docs enqueue_one_frame redis_inv_def split: if_splits)
  qed
  then show ?thesis by (simp add: only_adds_jobs_def enqueue_one_frame docs)
qed

lemma enqueue_all_adds:
  assumes "redis_inv st" and "distinct (map UUID js)"
    and "\<forall>j \<in> set js. DAList.lookup (r_uuids st) (UUID j) = None \<and> State j \<noteq> StateRunning"
  shows "only_adds_jobs st (snd (enqueue_all js st))"
  using assms
proof (induction js arbitrary: st)
  case Nil
  then show ?case by (simp add: only_adds_jobs_def)
next
  case (Cons j js)
  let ?st = "snd (enqueue_one j st)"
  have 1: "only_adds_jobs st ?st" using Cons.prems by (intro enqueue_one_adds) auto
  moreover have "only_adds_jobs ?st (snd (enqueue_all js ?st))"
  proof (rule Cons.IH)
    show "redis_inv ?st" using 1 by (simp add: only_adds_jobs_def)
    show "\<forall>k \<in> set js. DAList.lookup (r_uuids ?st) (UUID k) = None \<and> State k \<noteq> StateRunning"
      using Cons.prems(2,3) by (auto simp: enqueue_one_frame lookup_update)
  qed (use Cons.prems in simp)
  ultimately show ?case by (auto simp: split_def Let_def intro: only_adds_jobs_trans)
qed

lemma enqueue_all_last: "r_last st \<le> r_last (snd (enqueue_all js st))"
proof (induction js arbitrary: st)
  case (Cons j js)
  from Cons [of "snd (enqueue_one j st)"] show ?case by (simp add: split_def Let_def enqueue_one_frame)
qed simp

lemma not_duplicate_uuid:
  "\<not> duplicate_uuid seen us st \<Longrightarrow>
    distinct us \<and> set us \<inter> set seen = {} \<and> (\<forall>u \<in> set us. u \<noteq> [] \<and> DAList.lookup (r_uuids st) u = None)"
proof (induction us arbitrary: seen)
  case (Cons u us)
  from Cons.IH [of "u # seen"] Cons.prems show ?case by auto
qed simp

lemma enqueue_step:
  assumes "list_all enqueueable js"
  shows "redis_step E st (snd (enqueueScript js st))"
proof (cases "duplicate_uuid [] (map UUID js) st")
  case False
  show ?thesis
  proof (rule only_adds_jobs_step)
    have "\<forall>j \<in> set js. State j \<noteq> StateRunning"
      using assms by (auto simp: list_all_iff enqueueable_def)
    then show "redis_inv st \<Longrightarrow> only_adds_jobs st (snd (enqueueScript js st))"
      using enqueue_all_adds [of st js] not_duplicate_uuid [OF False]
      by (simp add: enqueueScript_def False split_def Let_def)
    show "r_last st \<le> r_last (snd (enqueueScript js st))"
      using enqueue_all_last [of st js] by (simp add: enqueueScript_def False split_def Let_def)
  qed
qed (simp add: enqueueScript_def)


section \<open>The Redis driver is a store of jobs\<close>

type_synonym redis_call = "driver_op \<times> redis_env"

fun redis_exec :: "redis_call \<Rightarrow> redis \<Rightarrow> redis" where
  "redis_exec (OpEnqueue r, env) st = snd (redis_Enqueue env (Some r) st)"
| "redis_exec (OpEnqueueBatch rs, env) st = snd (redis_EnqueueBatch env (map Some rs) st)"
| "redis_exec (OpClaim q n m, env) st = snd (redis_Claim env q n m st)"
| "redis_exec (OpComplete i out, env) st = snd (redis_Complete env i out st)"
| "redis_exec (OpFail i e, env) st = snd (redis_Fail env i e st)"
| "redis_exec (OpScheduleRetry i e t, env) st = snd (redis_ScheduleRetry env i e t st)"
| "redis_exec (OpRetry i, env) st = snd (redis_Retry env i st)"
| "redis_exec (OpRetryBatch is, env) st = snd (redis_RetryBatch env is st)"
| "redis_exec (OpCancel i, env) st = snd (redis_Cancel env i st)"
| "redis_exec (OpCancelBatch is, env) st = snd (redis_CancelBatch env is st)"
| "redis_exec (OpRequeueStale t, env) st = snd (redis_RequeueStale env t st)"
| "redis_exec (OpPrune t sts, env) st = snd (redis_Prune env t sts st)"

fun redis_handed :: "redis_call \<Rightarrow> redis \<Rightarrow> job_id list" where
  "redis_handed (OpClaim q n m, env) st =
     (case fst (redis_Claim env q n m st) of Inl _ \<Rightarrow> [] | Inr rows \<Rightarrow> map ID rows)"
| "redis_handed _ st = []"

lemma run_script_cases:
  "run_script env script st = (Inl (the (pre_err env)), st) \<and> pre_err env \<noteq> None \<or>
   pre_err env = None \<and> snd (run_script env script st) = snd (script st) \<and>
     (fst (run_script env script st) = Inr (fst (script st)) \<or> (\<exists>e. fst (run_script env script st) = Inl e))"
  by (auto simp: run_script_def split_def Let_def split: option.split)

lemma run_script_step: "redis_step E st (snd (script st)) \<Longrightarrow> redis_step E st (snd (run_script env script st))"
  using run_script_cases [of env script st] by auto

lemma snd_found_error [simp]: "snd (found_error res) = snd res"
  by (auto simp: found_error_def split: prod.split sum.split)

lemma snd_transitionError [simp]: "snd (transitionError res) = snd res"
  by (auto simp: transitionError_def split: prod.split sum.split)

lemma snd_redis_EnqueueBatch:
  "snd (redis_EnqueueBatch env (map Some rs) st) =
     (if rs = [] then st else snd (run_script env (enqueueScript rs) st))"
  by (auto simp: redis_EnqueueBatch_def o_def split: prod.split sum.split option.split)

lemma snd_redis_Claim:
  "snd (redis_Claim env q n m st) =
     (if m \<le> 0 then st else snd (run_script env (claimScript (r_clk env 0) q n m) st))"
  by (auto simp: redis_Claim_def split: prod.split sum.split)

lemma snd_redis_Retry: "snd (redis_Retry env i st) = snd (retryBatch env [i] st)"
  by (auto simp: redis_Retry_def split: prod.split option.split)

lemma snd_redis_Cancel: "snd (redis_Cancel env i st) = snd (cancelBatch env [i] st)"
  by (auto simp: redis_Cancel_def split: prod.split option.split)

lemma retryBatch_step: "redis_step (\<lambda>i. if i \<in> set is then {LRetry} else {}) st (snd (retryBatch env is st))"
  unfolding retryBatch_def by (simp add: run_script_step retry_step)

lemma cancelBatch_step: "redis_step (\<lambda>i. if i \<in> set is then {LCancel} else {}) st (snd (cancelBatch env is st))"
  unfolding cancelBatch_def by (simp add: run_script_step cancel_step)

lemma op_events_lists:
  "op_events (OpRetry i) = (\<lambda>j. if j \<in> set [i] then {LRetry} else {})"
  "op_events (OpRetryBatch is) = (\<lambda>i. if i \<in> set is then {LRetry} else {})"
  "op_events (OpCancel i) = (\<lambda>j. if j \<in> set [i] then {LCancel} else {})"
  "op_events (OpCancelBatch is) = (\<lambda>i. if i \<in> set is then {LCancel} else {})"
  by (auto simp: fun_eq_iff)

lemma redis_exec_step: "op_ok (fst c) \<Longrightarrow> redis_step (op_events (fst c)) st (redis_exec c st)"
proof (cases "(c, st)" rule: redis_exec.cases)
  case (1 r env st)
  then show "op_ok (fst c) \<Longrightarrow> ?thesis"
    using snd_redis_EnqueueBatch [of env "[r]"] by (simp del: op_events.simps add: redis_Enqueue_def run_script_step enqueue_step)
next
  case (2 rs env st)
  then show "op_ok (fst c) \<Longrightarrow> ?thesis"
    by (simp del: op_events.simps add: snd_redis_EnqueueBatch run_script_step enqueue_step)
next
  case (7 i env st)
  then show ?thesis
    using retryBatch_step [of "[i]"] by (simp only: fst_conv redis_exec.simps snd_redis_Retry op_events_lists prod.inject)
next
  case (8 "is" env st)
  then show ?thesis
    using retryBatch_step by (simp only: fst_conv redis_exec.simps redis_RetryBatch_def op_events_lists prod.inject)
next
  case (9 i env st)
  then show ?thesis
    using cancelBatch_step [of "[i]"] by (simp only: fst_conv redis_exec.simps snd_redis_Cancel op_events_lists prod.inject)
next
  case (10 "is" env st)
  then show ?thesis
    using cancelBatch_step by (simp only: fst_conv redis_exec.simps redis_CancelBatch_def op_events_lists prod.inject)
next
  case (12 t sts env st)
  then show ?thesis
    by (simp del: op_events.simps add: redis_Prune_def pruneScript_def run_script_step
        only_removes_step [OF prune_loop_removes])
qed (simp_all del: op_events.simps add: snd_redis_Claim redis_Complete_def redis_Fail_def redis_ScheduleRetry_def
    redis_RequeueStale_def run_script_step claim_step finish_step fail_step scheduleRetry_step stale_step)

lemma redis_handed_op: "redis_handed c st \<noteq> [] \<Longrightarrow> \<exists>q n m. fst c = OpClaim q n m"
  by (cases "(c, st)" rule: redis_handed.cases) auto

lemma decodeJobs_Inr: "decodeJobs env docs = Inr rows \<Longrightarrow> rows = map doc_row docs"
  by (induction docs arbitrary: rows) (auto simp: decodeJob_def split: sum.splits if_splits)

lemma decodeJobs_Inl: "d \<in> set docs \<Longrightarrow> \<exists>e. decodeJob env d = Inl e \<Longrightarrow> \<exists>e. decodeJobs env docs = Inl e"
  by (induction docs) (auto split: sum.split)

text \<open>A claim that returns jobs has run its script, and returns the rows of the documents it took.\<close>

lemma redis_Claim_rows:
  assumes "fst (redis_Claim env q n m st) = Inr rows" and "rows \<noteq> [] \<or> 0 < m"
  shows "snd (redis_Claim env q n m st) = snd (claimScript (r_clk env 0) q n m st)"
    "rows = map (\<lambda>(i, s, doc). redis_claim_row (r_clk env 0) n (doc_row doc)) (taken (r_clk env 0) q m st)"
proof -
  have m: "0 < m" using assms by (cases "0 < m") (auto simp: redis_Claim_def)
  with assms(1) have "fst (run_script env (claimScript (r_clk env 0) q n m) st) = Inr (fst (claimScript (r_clk env 0) q n m st))"
    and script: "snd (run_script env (claimScript (r_clk env 0) q n m) st) = snd (claimScript (r_clk env 0) q n m st)"
    and dec: "decodeJobs env (fst (claimScript (r_clk env 0) q n m st)) = Inr rows"
    using run_script_cases [of env "claimScript (r_clk env 0) q n m" st]
    by (auto simp: redis_Claim_def split: prod.splits sum.splits)
  then show "snd (redis_Claim env q n m st) = snd (claimScript (r_clk env 0) q n m st)"
    using m by (simp add: snd_redis_Claim)
  show "rows = map (\<lambda>(i, s, doc). redis_claim_row (r_clk env 0) n (doc_row doc)) (taken (r_clk env 0) q m st)"
    using decodeJobs_Inr [OF dec] by (simp add: claimScript_taken claim_take_docs split_def)
qed

lemma redis_handed_ids:
  assumes "redis_inv st"
  shows "redis_handed (OpClaim q n m, env) st = [] \<or>
    snd (redis_Claim env q n m st) = snd (claimScript (r_clk env 0) q n m st) \<and>
    redis_handed (OpClaim q n m, env) st = map fst (taken (r_clk env 0) q m st)"
proof (cases "fst (redis_Claim env q n m st)")
  case (Inr rows)
  show ?thesis
  proof (cases "rows = []")
    case False
    note rows = redis_Claim_rows [OF Inr disjI1 [OF False]]
    have "ID (redis_claim_row (r_clk env 0) n (doc_row doc)) = i" if "(i, s, doc) \<in> set (taken (r_clk env 0) q m st)" for i s doc
      using entry_okD(1) [OF assms taken_doc(1) [OF that]] redis_fixed_of_rows(1) by (metis same_fixed_def)
    then have "map ID rows = map fst (taken (r_clk env 0) q m st)" by (auto simp: rows(2))
    with rows(1) Inr show ?thesis by simp
  qed (simp add: Inr)
qed simp

interpretation redis: job_store redis_look redis_inv fst redis_exec redis_handed r_last
proof unfold_locales
  fix s :: redis and c :: redis_call and i r
  show "op_ok (fst c) \<Longrightarrow> redis_step (op_events (fst c)) s (redis_exec c s)" by (rule redis_exec_step)
  show "redis_handed c s \<noteq> [] \<Longrightarrow> \<exists>q n m. fst c = OpClaim q n m" by (rule redis_handed_op)
  show "redis_inv s \<Longrightarrow> redis_look s i = Some r \<Longrightarrow> i \<le> r_last s" by (auto simp: redis_inv_def redis_look_def)
  show "distinct (redis_handed c s)" if "redis_inv s"
  proof (cases "redis_handed c s = []")
    case False
    then obtain q n m env where "c = (OpClaim q n m, env)" using redis_handed_op by (metis prod.collapse)
    then show ?thesis using redis_handed_ids [OF that, of q n m env] distinct_taken by auto
  qed simp
  show "\<exists>r r'. redis_look s i = Some r \<and> redis_look (redis_exec c s) i = Some r' \<and>
      life_step LClaim (life_of r) = Some (life_of r')" if inv: "redis_inv s" and i: "i \<in> set (redis_handed c s)"
  proof -
    have "redis_handed c s \<noteq> []" using i by auto
    then obtain q n m env where c: "c = (OpClaim q n m, env)" using redis_handed_op by (metis prod.collapse)
    let ?now = "r_clk env 0"
    have ids: "snd (redis_Claim env q n m s) = snd (claimScript ?now q n m s)" "i \<in> fst ` set (taken ?now q m s)"
      using redis_handed_ids [OF inv, of q n m env] i unfolding c by (auto simp del: redis_handed.simps)
    then obtain sc doc where "(i, sc, doc) \<in> set (taken ?now q m s)" by auto
    note doc = taken_doc [OF this] map_of_is_SomeI [OF distinct_taken this]
    have "get_doc (redis_exec c s) i = Some (doc\<lparr>doc_row := redis_claim_row ?now n (doc_row doc)\<rparr>)"
      using arg_cong [where f = e_doc, OF claimScript_entries [of ?now q n m s i]] doc(5)
      by (simp add: c ids(1) claimed_def)
    then show ?thesis
      using doc(1,2) by (simp add: redis_look_def row_simps claimable_doc_def)
  qed
qed

end
