(* ===== verification/Redis_Properties.thy ===== *)
theory Redis_Properties
  imports Redis_Store
begin

text \<open>
  What the Redis driver guarantees: its secondary keys stay consistent under every sequence of calls and lost
  replies, the consequences of the store contract, the order in which jobs are claimed, and what the empty
  tables of the server's JSON encoder do to a manual retry.
\<close>


section \<open>A small store to evaluate on\<close>

definition redis_empty :: redis where
  "redis_empty = \<lparr>r_last = 0, r_uuids = DAList.empty, r_jobs = DAList.empty, r_ids = DAList.empty,
     r_created = DAList.empty, r_running = DAList.empty, r_due = (\<lambda>_. DAList.empty)\<rparr>"

definition redis_calm :: redis_env where
  "redis_calm = \<lparr>r_clk = (\<lambda>_. 100000), pre_err = None, post_err = None, get_err = None, empty_as_object = True\<rparr>"

definition mail_row :: "string \<Rightarrow> int \<Rightarrow> JobRow" where
  "mail_row uuid prio = zero_row\<lparr>UUID := uuid, Queue := ''default'', Kind := ''mail'', State := StateAvailable,
     Priority := prio, MaxAttempts := 3, ScheduledAt := 5000, CreatedAt := 5000\<rparr>"

lemma redis_empty_inv: "redis_inv redis_empty"
  by (simp add: redis_inv_def redis_empty_def entry_ok_def entry_of_def get_doc_def uuids_ok_def)

lemma mail_row_sel [simp]:
  "UUID (mail_row u p) = u" "State (mail_row u p) = StateAvailable" "Attempt (mail_row u p) = 0"
  "MaxAttempts (mail_row u p) = 3" "Queue (mail_row u p) = ''default''" "Priority (mail_row u p) = p"
  "ScheduledAt (mail_row u p) = 5000" "Errors (mail_row u p) = []" "Tags (mail_row u p) = None"
  "CreatedAt (mail_row u p) = 5000"
  by (simp_all add: mail_row_def zero_row_def)

text \<open>A store with two mails in it, the second with the higher priority.\<close>

definition two_mails :: redis where
  "two_mails = snd (redis_EnqueueBatch redis_calm [Some (mail_row ''a'' 0), Some (mail_row ''b'' 7)] redis_empty)"

lemma two_mails_inv: "redis_inv two_mails"
  using redis.inv_exec [OF redis_empty_inv, of "(OpEnqueueBatch [mail_row ''a'' 0, mail_row ''b'' 7], redis_calm)"]
  by (simp add: two_mails_def enqueueable_def)

lemma two_mails_docs:
  "get_doc two_mails 1 = Some (enqueued_doc 1 (mail_row ''a'' 0))"
  "get_doc two_mails 2 = Some (enqueued_doc 2 (mail_row ''b'' 7))"
  "get_doc two_mails i = None \<longleftrightarrow> i \<notin> {1, 2}" "r_last two_mails = 2"
proof -
  have two: "two_mails = snd (enqueue_one (mail_row ''b'' 7) (snd (enqueue_one (mail_row ''a'' 0) redis_empty)))"
    by (simp add: two_mails_def redis_EnqueueBatch_def run_script_def redis_calm_def enqueueScript_def split_def Let_def
        redis_empty_def enqueue_one_frame)
  have doc: "get_doc (snd (enqueue_one job st)) j = (if j = r_last st + 1 then Some (enqueued_doc j job) else get_doc st j)" for job st j
    using arg_cong [where f = e_doc, OF enqueue_one_entries [of job st j]] by simp
  have "r_last redis_empty = 0" "get_doc redis_empty i = None" for i
    by (simp_all add: redis_empty_def get_doc_def)
  then show "get_doc two_mails 1 = Some (enqueued_doc 1 (mail_row ''a'' 0))"
    "get_doc two_mails 2 = Some (enqueued_doc 2 (mail_row ''b'' 7))"
    "get_doc two_mails i = None \<longleftrightarrow> i \<notin> {1, 2}" "r_last two_mails = 2"
    by (auto simp: two doc enqueue_one_frame)
qed


section \<open>Consistency and the life of a job\<close>

text \<open>
  Property C11. Starting from an empty server, after any sequence of driver calls (any mix of operations, any calls
  that fail before they reach the server, any lost replies) all secondary keys agree with the job documents: the UUID
  hash is the inverse of the documents, the id and creation sets list exactly the stored jobs, the running set holds
  exactly the running jobs, each with the time of its claim as score, every due entry belongs to a waiting job of that queue with its scheduled time as score,
  and every job that can still be claimed has its due entry.\<close>

theorem redis_keys_stay_consistent:
  assumes "calls_ok fst cs"
  shows "redis_inv (run_calls redis_exec cs redis_empty)"
  using redis.run_inv [OF redis_empty_inv assms] .

theorem redis_keys_stay_consistent_witness:
  "redis_inv (run_calls redis_exec
     [(OpEnqueueBatch [mail_row ''a'' 0, mail_row ''b'' 7], redis_calm), (OpClaim ''default'' ''n'' 1, redis_calm),
      (OpRequeueStale 0, redis_calm), (OpPrune 9000 [StateAvailable], redis_calm)] redis_empty)"
  by (rule redis_keys_stay_consistent) (simp add: enqueueable_def)

text \<open>
  On Redis too a job with no manual retry among the calls is handed to a worker at most as often as it has
  attempts left, whatever calls are made and whichever replies are lost.\<close>

theorem redis_handed_at_most_attempts_left:
  assumes "redis_inv st" and "calls_ok fst cs" and "avoids fst i {LRetry} cs" and "redis_look st i = Some r"
  shows "times_handed redis_exec redis_handed i cs st \<le> nat (MaxAttempts r - Attempt r)"
  using assms by (rule redis.handed_at_most)

theorem redis_handed_at_most_attempts_left_witness:
  "times_handed redis_exec redis_handed 2
     [(OpClaim ''default'' ''n'' 1, redis_calm), (OpRequeueStale 0, redis_calm), (OpClaim ''default'' ''n'' 1, redis_calm)] two_mails \<le> 3"
  using redis_handed_at_most_attempts_left [OF two_mails_inv, of
      "[(OpClaim ''default'' ''n'' 1, redis_calm), (OpRequeueStale 0, redis_calm), (OpClaim ''default'' ''n'' 1, redis_calm)]" 2
      "doc_row (enqueued_doc 2 (mail_row ''b'' 7))"]
  by (simp add: redis_look_def two_mails_docs enqueued_doc_def)

text \<open>
  On Redis a running job is not handed out again until a call reports on it or re-queues it as stale.\<close>

theorem redis_running_is_exclusive:
  assumes "redis_inv st" and "calls_ok fst cs"
    and "avoids fst i {LComplete, LFail, LScheduleRetry, LRequeue} cs"
    and "redis_look st i = Some r" and "State r = StateRunning"
  shows "times_handed redis_exec redis_handed i cs st = 0 \<and>
    (\<forall>r'. redis_look (run_calls redis_exec cs st) i = Some r' \<longrightarrow> State r' = StateRunning \<and> Attempt r' = Attempt r)"
  using redis.running_exclusive [OF assms] assms(5) by (simp add: life_of_eq_iff)

lemma two_mails_due: "DAList.impl_of (r_due two_mails ''default'') = [(1, 5), (2, 5)]"
  by (simp add: two_mails_def redis_EnqueueBatch_def run_script_def redis_calm_def enqueueScript_def split_def Let_def
      redis_empty_def enqueue_one_def due_add_def put_doc_def unixMicros_def DAList.update.rep_eq DAList.empty.rep_eq)

lemma two_mails_taken:
  "taken 100000 ''default'' 1 two_mails = [(2, 5, enqueued_doc 2 (mail_row ''b'' 7))]"
proof -
  have "zrange (\<lambda>s. s \<le> 100) (r_due two_mails ''default'') = [(1, 5), (2, 5)]"
    by (simp add: zrange_def two_mails_due decimal.simps less_char_def)
  moreover have "claimable_id two_mails 1" "claimable_id two_mails 2"
    using two_mails_docs by (simp_all add: claimable_id_def claimable_doc_def enqueued_doc_def)
  ultimately show ?thesis
    using two_mails_docs
    by (simp add: taken_def due_now_def unixMicros_def claim_scan_candidates limit_def redis_claim_order_def enqueued_doc_def)
qed

definition second_running :: redis where
  "second_running = redis_exec (OpClaim ''default'' ''n'' 1, redis_calm) two_mails"

lemma second_running_facts:
  "redis_inv second_running"
  "redis_look second_running 2 = Some (redis_claim_row 100000 ''n'' (doc_row (enqueued_doc 2 (mail_row ''b'' 7))))"
proof -
  show "redis_inv second_running"
    using redis.inv_exec [OF two_mails_inv, of "(OpClaim ''default'' ''n'' 1, redis_calm)"]
    by (simp add: second_running_def)
  have run: "second_running = snd (claimScript 100000 ''default'' ''n'' 1 two_mails)"
    by (simp add: second_running_def snd_redis_Claim run_script_def redis_calm_def split_def Let_def)
  have "e_doc (entry_of second_running 2) =
      Some ((enqueued_doc 2 (mail_row ''b'' 7))\<lparr>doc_row := redis_claim_row 100000 ''n'' (doc_row (enqueued_doc 2 (mail_row ''b'' 7)))\<rparr>)"
    unfolding run claimScript_entries two_mails_taken by (simp add: claimed_def)
  then show "redis_look second_running 2 = Some (redis_claim_row 100000 ''n'' (doc_row (enqueued_doc 2 (mail_row ''b'' 7))))"
    by (simp add: redis_look_def)
qed

theorem redis_running_is_exclusive_witness:
  "times_handed redis_exec redis_handed 2 [(OpClaim ''default'' ''m'' 5, redis_calm), (OpRetry 2, redis_calm)] second_running = 0"
  using redis_running_is_exclusive [OF second_running_facts(1), of
      "[(OpClaim ''default'' ''m'' 5, redis_calm), (OpRetry 2, redis_calm)]" 2]
    second_running_facts(2) by (simp add: row_simps)


section \<open>Which jobs a claim takes\<close>

definition redis_claimable :: "time \<Rightarrow> queue_name \<Rightarrow> redis \<Rightarrow> JobRow set" where
  "redis_claimable now q st = {r. (\<exists>i. redis_look st i = Some r) \<and> Queue r = q \<and> waiting (State r) \<and>
     Attempt r < MaxAttempts r \<and> unixMicros (ScheduledAt r) \<le> unixMicros now}"

definition row_order :: "JobRow \<Rightarrow> int \<times> int \<times> nat" where
  "row_order r = (- Priority r, unixMicros (ScheduledAt r), ID r)"

definition cand_row :: "candidate \<Rightarrow> JobRow" where
  "cand_row c = doc_row (snd (snd c))"

lemma candidate_facts:
  assumes inv: "redis_inv st" and c: "c \<in> set (fst (claim_scan q (due_now now q st) st))"
  shows "redis_claim_order c = row_order (cand_row c)" "redis_look st (fst c) = Some (cand_row c)" "fst c = ID (cand_row c)"
    "cand_row c \<in> redis_claimable now q st"
proof -
  obtain i s doc where ci: "c = (i, s, doc)" by (cases c)
  have doc: "get_doc st i = Some doc" "claimable_doc doc" "e_due (entry_of st i) q = Some s" "s \<le> unixMicros now"
    using c by (auto simp: ci claim_scan_candidates claimable_id_def due_now_def set_zrange entry_of_def)
  have due: "q = Queue (doc_row doc)" "s = unixMicros (ScheduledAt (doc_row doc))"
    using entry_okD(5) [OF inv doc(1)] doc(3) by (auto simp: due_ok_def)
  have i: "i = ID (doc_row doc)" using entry_okD(1) [OF inv doc(1)] by simp
  show "redis_claim_order c = row_order (cand_row c)" "redis_look st (fst c) = Some (cand_row c)" "fst c = ID (cand_row c)"
    "cand_row c \<in> redis_claimable now q st"
    using doc due i by (auto simp: ci redis_claim_order_def row_order_def cand_row_def redis_look_def redis_claimable_def claimable_doc_def)
qed

text \<open>By the invariant the scan finds every job that can be claimed.\<close>

lemma candidates_complete:
  assumes inv: "redis_inv st" and r: "r \<in> redis_claimable now q st"
  shows "r \<in> cand_row ` set (fst (claim_scan q (due_now now q st) st))"
proof -
  from r obtain i doc where doc: "get_doc st i = Some doc" "r = doc_row doc"
    by (auto simp: redis_claimable_def redis_look_def)
  have q: "Queue r = q" "waiting (State r)" "Attempt r < MaxAttempts r" "unixMicros (ScheduledAt r) \<le> unixMicros now"
    using r by (simp_all add: redis_claimable_def)
  have ok: "due_ok r (e_due (entry_of st i))" using entry_okD(5) [OF inv doc(1)] doc(2) by simp
  then obtain s where s: "e_due (entry_of st i) q = Some s" using q by (auto simp: due_ok_def)
  then have "s = unixMicros (ScheduledAt r)" using ok unfolding due_ok_def by blast
  with s q(4) have "(i, s) \<in> set (due_now now q st)"
    by (simp add: due_now_def set_zrange entry_of_def)
  moreover have "claimable_id st i" using r doc by (simp add: claimable_id_def claimable_doc_def redis_claimable_def)
  ultimately have "(i, s, doc) \<in> set (fst (claim_scan q (due_now now q st) st))"
    using doc(1) by (force simp: claim_scan_candidates)
  then show ?thesis using doc(2) by (metis cand_row_def image_eqI snd_conv)
qed

lemma taken_rows:
  fixes now q m
  assumes inv: "redis_inv st"
  defines "cs \<equiv> map cand_row (fst (claim_scan q (due_now now q st) st))"
  shows "map cand_row (taken now q m st) = limit m (sort_key row_order cs)"
    "set cs = redis_claimable now q st" "distinct cs" "inj_on row_order (set cs)"
proof -
  note facts = candidate_facts [OF inv]
  show "map cand_row (taken now q m st) = limit m (sort_key row_order cs)"
    unfolding taken_def limit_def cs_def take_map [symmetric] using facts(1) by (simp add: map_sort_key)
  show set: "set cs = redis_claimable now q st"
    using facts(4) candidates_complete [OF inv] by (auto simp: cs_def)
  have "map ID cs = map fst (fst (claim_scan q (due_now now q st) st))"
    using facts(3) by (simp add: cs_def)
  then have "distinct (map ID cs)" using distinct_candidates by simp
  then show "distinct cs" "inj_on row_order (set cs)"
    by (auto simp: distinct_map inj_on_def row_order_def)
qed

lemma claimed_look:
  assumes inv: "redis_inv st"
  shows "redis_look (snd (claimScript now q n m st)) i =
    map_option (\<lambda>r. if r \<in> set (map cand_row (taken now q m st)) then redis_claim_row now n r else r) (redis_look st i)"
proof -
  have cand: "c \<in> set (fst (claim_scan q (due_now now q st) st))" if "c \<in> set (taken now q m st)" for c
    using subsetD [OF set_limit_subset that [unfolded taken_def]] by simp
  note look = candidate_facts(2,3) [OF inv cand]
  show ?thesis
  proof (cases "map_of (taken now q m st) i")
    case (Some p)
    obtain s doc where p: "p = (s, doc)" by (cases p)
    have mem: "(i, s, doc) \<in> set (taken now q m st)" using map_of_SomeD [OF Some] by (simp add: p)
    have "e_doc (entry_of (snd (claimScript now q n m st)) i) = Some (doc\<lparr>doc_row := redis_claim_row now n (doc_row doc)\<rparr>)"
      unfolding claimScript_entries Some p by (simp add: claimed_def)
    moreover have "doc_row doc \<in> set (map cand_row (taken now q m st))"
      using mem by (metis cand_row_def image_eqI list.set_map snd_conv)
    moreover have "redis_look st i = Some (doc_row doc)" using look(1) [OF mem] by (simp add: cand_row_def)
    ultimately show ?thesis by (simp add: redis_look_def [of "snd _"])
  next
    case None
    have "e_doc (entry_of (snd (claimScript now q n m st)) i) = get_doc st i"
      unfolding claimScript_entries None by simp
    moreover have "r \<notin> cand_row ` set (taken now q m st)" if r: "redis_look st i = Some r" for r
    proof
      assume "r \<in> cand_row ` set (taken now q m st)"
      then obtain c where c: "c \<in> set (taken now q m st)" "r = cand_row c" by blast
      obtain doc where doc: "get_doc st i = Some doc" "r = doc_row doc" using r by (auto simp: redis_look_def)
      have "i = fst c" using look(2) [OF c(1)] entry_okD(1) [OF inv doc(1)] doc(2) c(2) by simp
      with c(1) None show False by (metis map_of_eq_None_iff image_eqI)
    qed
    ultimately show ?thesis by (cases "redis_look st i") (auto simp: redis_look_def)
  qed
qed

text \<open>
  On Redis a claim that returns gives the first \<open>m\<close> of the jobs of the queue that wait, have an attempt left
  and are due to the microsecond, in the order of priority, scheduled time and id, and hands them out in that order; the
  rows returned are the updated documents and every other job is unchanged. The set of due jobs misses none.\<close>

theorem redis_claim_takes_the_first:
  assumes "redis_inv st" and "0 < m" and "fst (redis_Claim env q n m st) = Inr rows"
  shows "\<exists>xs. rows = map (redis_claim_row (r_clk env 0) n) xs \<and>
    sorted_wrt (\<lambda>r r'. row_order r < row_order r') xs \<and>
    least_by row_order (nat m) (set xs) (redis_claimable (r_clk env 0) q st) \<and>
    (\<forall>i. redis_look (snd (redis_Claim env q n m st)) i =
       map_option (\<lambda>r. if r \<in> set xs then redis_claim_row (r_clk env 0) n r else r) (redis_look st i))"
proof -
  let ?now = "r_clk env 0"
  let ?xs = "map cand_row (taken ?now q m st)"
  note claim = redis_Claim_rows [OF assms(3) disjI2 [OF assms(2)]]
  note rows = taken_rows [OF assms(1), where now = ?now and q = q]
  have "rows = map (redis_claim_row ?now n) ?xs"
    by (simp add: claim(2) cand_row_def split_def)
  moreover have "sorted_wrt (\<lambda>r r'. row_order r < row_order r') ?xs"
    unfolding rows(1) limit_def using sort_key_strict [OF rows(3,4)] by (rule sorted_wrt_take)
  moreover have "least_by row_order (nat m) (set ?xs) (redis_claimable ?now q st)"
    unfolding rows(1) limit_def by (rule take_sort_key_least [OF rows(3,4), unfolded rows(2)])
  ultimately show ?thesis
    using claimed_look [OF assms(1)] claim(1) by (intro exI [of _ ?xs]) simp
qed

theorem redis_claim_takes_the_first_witness:
  "\<exists>xs. [redis_claim_row 100000 ''n'' (doc_row (enqueued_doc 2 (mail_row ''b'' 7)))] = map (redis_claim_row 100000 ''n'') xs \<and>
     least_by row_order 1 (set xs) (redis_claimable 100000 ''default'' two_mails)"
proof -
  have "fst (redis_Claim redis_calm ''default'' ''n'' 1 two_mails) =
      Inr [redis_claim_row 100000 ''n'' (doc_row (enqueued_doc 2 (mail_row ''b'' 7)))]"
    by (simp add: redis_Claim_def run_script_def redis_calm_def claimScript_taken two_mails_taken claim_take_docs
        split_def Let_def decodeJob_def enqueued_doc_def redis_claim_row_def marshalled_def)
      (simp add: mail_row_def zero_row_def)?
  from redis_claim_takes_the_first [OF two_mails_inv zero_less_one this] obtain xs where
    "[redis_claim_row 100000 ''n'' (doc_row (enqueued_doc 2 (mail_row ''b'' 7)))] = map (redis_claim_row (r_clk redis_calm 0) ''n'') xs"
    "least_by row_order (nat 1) (set xs) (redis_claimable (r_clk redis_calm 0) ''default'' two_mails)"
    by (elim exE conjE) simp
  moreover have "r_clk redis_calm 0 = 100000" by (simp add: redis_calm_def)
  ultimately show ?thesis by (intro exI [of _ xs]) simp
qed


section \<open>Batches\<close>

lemma enqueue_all_ids: "fst (enqueue_all js st) = [r_last st + 1 ..< r_last st + 1 + length js]"
proof (induction js arbitrary: st)
  case (Cons j js)
  have "[r_last st + 1 ..< r_last st + 1 + length (j # js)] = (r_last st + 1) # [r_last st + 2 ..< r_last st + 2 + length js]"
    by (subst upt_conv_Cons) simp_all
  then show ?case using Cons [of "snd (enqueue_one j st)"]
    by (simp add: split_def Let_def enqueue_one_frame numeral_2_eq_2)
qed simp

lemma enqueue_all_docs:
  "k < length js \<Longrightarrow> get_doc (snd (enqueue_all js st)) (r_last st + 1 + k) = Some (enqueued_doc (r_last st + 1 + k) (js ! k)) \<and>
    (\<forall>i \<le> r_last st. get_doc (snd (enqueue_all js st)) i = get_doc st i)"
proof (induction js arbitrary: st k)
  case (Cons j js)
  let ?st = "snd (enqueue_one j st)"
  have doc: "get_doc ?st i = (if i = r_last st + 1 then Some (enqueued_doc i j) else get_doc st i)" for i
    using arg_cong [where f = e_doc, OF enqueue_one_entries [of j st i]] by simp
  have all: "snd (enqueue_all (j # js) st) = snd (enqueue_all js ?st)" by (simp add: split_def Let_def)
  have keep: "\<forall>i \<le> r_last st + 1. get_doc (snd (enqueue_all js ?st)) i = get_doc ?st i"
    using Cons.IH [of 0 ?st] by (cases js) (auto simp: enqueue_one_frame)
  show ?case
  proof (cases k)
    case 0
    then show ?thesis unfolding all using keep by (simp add: doc)
  next
    case (Suc k')
    with Cons.prems Cons.IH [of k' ?st] show ?thesis
      unfolding all using keep by (simp add: enqueue_one_frame doc)
  qed
qed simp

text \<open>
  \<^verbatim>\<open>EnqueueBatch\<close> on Redis: when it reports an error the caller's rows are as before, and the server is too unless
  the script ran and its reply was lost; when it reports success the rows carry the next consecutive ids and each is stored
  under its id. A UUID that is empty, repeated or taken refuses the whole batch.\<close>

theorem redis_EnqueueBatch_all_or_nothing:
  "case redis_EnqueueBatch env ojobs st of
     ((Some e, ojobs'), st') \<Rightarrow> ojobs' = ojobs \<and> (st' = st \<or> post_err env = Some e)
   | ((None, ojobs'), st') \<Rightarrow>
       map (\<lambda>oj. ID (the oj)) ojobs' = [r_last st + 1 ..< r_last st + 1 + length ojobs] \<and>
       map (\<lambda>oj. get_doc st' (ID (the oj))) ojobs' = map2 (\<lambda>oj oj'. Some (enqueued_doc (ID (the oj')) (the oj))) ojobs ojobs' \<and>
       \<not> duplicate_uuid [] (map (\<lambda>oj. UUID (the oj)) ojobs) st"
proof (cases "ojobs = [] \<or> None \<in> set ojobs \<or> pre_err env \<noteq> None")
  case True
  then show ?thesis by (auto simp: redis_EnqueueBatch_def run_script_def)
next
  case False
  let ?js = "map the ojobs"
  have ids: "map ID (map2 (\<lambda>oj i. (the oj)\<lparr>ID := i\<rparr>) ojobs is) = is" if "length is = length ojobs" for "is" :: "nat list"
    using that by (auto intro: nth_equalityI)
  have docs: "map (\<lambda>oj. get_doc (snd (enqueue_all ?js st)) (ID (the oj))) (map2 (\<lambda>oj i. Some ((the oj)\<lparr>ID := i\<rparr>)) ojobs (fst (enqueue_all ?js st))) =
      map2 (\<lambda>oj oj'. Some (enqueued_doc (ID (the oj')) (the oj))) ojobs (map2 (\<lambda>oj i. Some ((the oj)\<lparr>ID := i\<rparr>)) ojobs (fst (enqueue_all ?js st)))"
    using enqueue_all_docs [of _ ?js st] by (auto intro!: nth_equalityI simp: enqueue_all_ids simp del: upt_Suc)
  have len: "length (fst (enqueue_all ?js st)) = length ojobs" by (simp add: enqueue_all_ids del: upt_Suc)
  show ?thesis
  proof (cases "duplicate_uuid [] (map UUID ?js) st \<or> post_err env \<noteq> None")
    case True
    with False show ?thesis
      by (auto simp: redis_EnqueueBatch_def run_script_def enqueueScript_def split_def Let_def o_def split: option.split)
  next
    case ok: False
    then show ?thesis
      using False ids [OF len] docs len
      by (simp add: redis_EnqueueBatch_def run_script_def enqueueScript_def split_def Let_def o_def enqueue_all_ids del: upt_Suc)
  qed
qed

text \<open>
  \<^verbatim>\<open>RetryBatch\<close> on Redis is all or nothing: either every listed job exists and may be retried and all of them are
  reset and nothing else changes, or an error is reported and the store is as before.\<close>

theorem redis_RetryBatch_all_or_nothing:
  "(fst (redis_RetryBatch env is st) \<noteq> None \<and> snd (redis_RetryBatch env is st) = st) \<or>
   ((\<forall>i \<in> set is. \<exists>r. redis_look st i = Some r \<and> retry_allowed (State r)) \<and>
    (\<forall>j. redis_look (snd (redis_RetryBatch env is st)) j =
       map_option (\<lambda>r. if j \<in> set is then redis_retry_row (r_clk env 0) r else r) (redis_look st j)))"
proof (cases "is = [] \<or> pre_err env \<noteq> None")
  case True
  then show ?thesis
    by (auto simp: redis_RetryBatch_def retryBatch_def run_script_def transitionError_def option.map_ident)
next
  case False
  show ?thesis
  proof (cases "load_allowed retry_allowed is st")
    case (Inl e)
    with False show ?thesis
      by (auto simp: redis_RetryBatch_def retryBatch_def run_script_def transitionError_def retryScript_def split: option.split)
  next
    case (Inr items)
    note items = load_allowed_Inr [OF Inr]
    have st': "snd (redis_RetryBatch env is st) = fold (retry_put (r_clk env 0)) items st"
      using False Inr by (auto simp: redis_RetryBatch_def retryBatch_def run_script_def transitionError_def retryScript_def split: option.split)
    have doc: "get_doc (fold (retry_put (r_clk env 0)) items st) j =
        (if j \<in> set is then Some \<lparr>doc_row = redis_retry_row (r_clk env 0) (doc_row (the (get_doc st j))), errors_set = True\<rparr>
         else get_doc st j)" for j
      using arg_cong [where f = e_doc, OF conjunct1 [OF retry_fold [of "r_clk env 0" "\<lambda>i. the (get_doc st i)" "is" st j]]]
        items by (simp add: retried_def)
    have "redis_look (snd (redis_RetryBatch env is st)) j =
        map_option (\<lambda>r. if j \<in> set is then redis_retry_row (r_clk env 0) r else r) (redis_look st j)" for j
    proof (cases "j \<in> set is")
      case True
      with items obtain d where "get_doc st j = Some d" by blast
      with True show ?thesis by (simp add: st' redis_look_def doc)
    qed (simp add: st' redis_look_def doc option.map_ident)
    moreover have "\<exists>r. redis_look st i = Some r \<and> retry_allowed (State r)" if "i \<in> set is" for i
      using items that by (auto simp: redis_look_def)
    ultimately show ?thesis by blast
  qed
qed

theorem redis_RetryBatch_all_or_nothing_witness:
  "fst (redis_RetryBatch redis_calm [2, 3] two_mails) = Some ErrInvalidTransition \<and>
   snd (redis_RetryBatch redis_calm [2, 3] two_mails) = two_mails"
proof -
  have "\<not> (\<exists>r. redis_look two_mails 2 = Some r \<and> retry_allowed (State r))"
    by (simp add: redis_look_def two_mails_docs enqueued_doc_def retry_allowed_def)
  moreover have "fst (redis_RetryBatch redis_calm [2, 3] two_mails) = Some ErrInvalidTransition"
    by (simp add: redis_RetryBatch_def retryBatch_def run_script_def transitionError_def retryScript_def redis_calm_def
        two_mails_docs enqueued_doc_def retry_allowed_def)
  ultimately show ?thesis
    using redis_RetryBatch_all_or_nothing [of redis_calm "[2, 3]" two_mails] by auto
qed


section \<open>Empty tables\<close>

text \<open>
  Property C19. On a server whose \<^verbatim>\<open>cjson\<close> writes an empty table as an object, as Redis does by default, \<^verbatim>\<open>Retry\<close> of a job that may be
  retried resets the job to available but returns a decoding error, and from then on every claim that takes the job returns an error
  too, although it has made the job (and all others it took) running.\<close>

theorem redis_retried_job_cannot_be_read:
  assumes "redis_look st i = Some r" and "retry_allowed (State r)"
    and "pre_err env = None" and "post_err env = None" and "get_err env = None" and "empty_as_object env"
    and "snd (redis_Retry env i st) = st'"
  shows "(\<exists>e. fst (redis_Retry env i st) = Inl e) \<and> redis_look st' i = Some (redis_retry_row (r_clk env 0) r) \<and>
    (\<forall>env' q n m. empty_as_object env' \<and> pre_err env' = None \<and> post_err env' = None \<and> 0 < m \<and>
       i \<in> fst ` set (taken (r_clk env' 0) q m st') \<longrightarrow>
       (\<exists>e. fst (redis_Claim env' q n m st') = Inl e) \<and>
       map_option State (redis_look (snd (redis_Claim env' q n m st')) i) = Some StateRunning)"
proof -
  obtain doc where doc: "get_doc st i = Some doc" "r = doc_row doc" using assms(1) by (auto simp: redis_look_def)
  let ?doc = "\<lparr>doc_row = redis_retry_row (r_clk env 0) r, errors_set = True\<rparr>"
  have retry: "retryBatch env [i] st = (None, retry_put (r_clk env 0) (i, doc) st)"
    using assms doc by (simp add: retryBatch_def run_script_def transitionError_def retryScript_def)
  then have st': "st' = retry_put (r_clk env 0) (i, doc) st" using assms(7) by (simp add: redis_Retry_def)
  then have get: "get_doc st' i = Some ?doc" by (simp add: retry_put_def doc)
  have bad: "\<exists>e. decodeJob env' (d\<lparr>doc_row := redis_claim_row now n (doc_row d)\<rparr>) = Inl e" if "empty_as_object env'" "d = ?doc" for env' d now n
    using that by (simp add: decodeJob_def redis_retry_row_def redis_claim_row_def)
  have "\<exists>e. redis_GetByID env i st' = Inl e"
    using get assms(5,6) by (simp add: redis_GetByID_def decodeJob_def redis_retry_row_def)
  moreover have "(\<exists>e. fst (redis_Claim env' q n m st') = Inl e) \<and>
       map_option State (redis_look (snd (redis_Claim env' q n m st')) i) = Some StateRunning"
    if env': "empty_as_object env'" "pre_err env' = None" "post_err env' = None" "0 < m"
      and i: "i \<in> fst ` set (taken (r_clk env' 0) q m st')" for env' q n m
  proof -
    let ?now = "r_clk env' 0"
    obtain s d where mem: "(i, s, d) \<in> set (taken ?now q m st')" using i by auto
    have "d = ?doc" using taken_doc(1) [OF mem] get by simp
    then have "\<exists>e. decodeJobs env' (fst (claimScript ?now q n m st')) = Inl e"
      using mem bad [OF env'(1), of d] by (intro decodeJobs_Inl) (auto simp: claimScript_taken claim_take_docs)
    moreover have "get_doc (snd (claimScript ?now q n m st')) i = Some (d\<lparr>doc_row := redis_claim_row ?now n (doc_row d)\<rparr>)"
      using arg_cong [where f = e_doc, OF claimScript_entries [of ?now q n m st' i]] map_of_is_SomeI [OF distinct_taken mem]
      by (simp add: claimed_def)
    ultimately show ?thesis
      using env' by (auto simp: redis_Claim_def run_script_def redis_look_def row_simps split_def Let_def)
  qed
  moreover have "redis_look st' i = Some (redis_retry_row (r_clk env 0) r)" by (simp add: redis_look_def get)
  ultimately show ?thesis
    using retry st' by (auto simp: redis_Retry_def)
qed

text \<open>The witness retries a cancelled mail.\<close>

definition second_cancelled :: redis where
  "second_cancelled = snd (redis_Cancel redis_calm 2 two_mails)"

theorem redis_retried_job_cannot_be_read_witness:
  "\<exists>e. fst (redis_Retry redis_calm 2 second_cancelled) = Inl e"
proof -
  have "redis_look second_cancelled 2 = Some (redis_cancel_row 100000 (doc_row (enqueued_doc 2 (mail_row ''b'' 7))))"
    by (simp add: second_cancelled_def redis_Cancel_def cancelBatch_def run_script_def transitionError_def cancelScript_def
        redis_calm_def two_mails_docs enqueued_doc_def cancel_allowed_def cancel_put_def redis_look_def)
  from redis_retried_job_cannot_be_read [OF this, of redis_calm] show ?thesis
    by (simp add: row_simps retry_allowed_def redis_calm_def)
qed

end
