(* ===== verification/End_To_End.thy ===== *)
theory End_To_End
  imports Worker_Properties Dispatch_Properties Sql_Properties Redis_Properties
begin

text \<open>
  The components put together: the SQL driver as the driver a worker calls and as the driver dispatching sends to, a table in which a queue has
  one job and what each call does to it, and what executing a job that always fails comes to.
\<close>


section \<open>The SQL driver behind the interface\<close>

text \<open>A database together with the number of calls made so far; \<open>envs k\<close> is what the clock and the server give to the \<open>k\<close>-th.\<close>

definition sql_driver :: "Dialect \<Rightarrow> (nat \<Rightarrow> sql_env) \<Rightarrow> (sql_db \<times> nat) driver_call" where
  "sql_driver d envs op st = (case st of (db, k) \<Rightarrow>
     ((case op of OpClaim q n m \<Rightarrow> fst (sql_Claim d (envs k) q n m db) | _ \<Rightarrow> Inr []), (sql_exec d (op, envs k) db, k + 1)))"

text \<open>Its enqueue operations, as dispatching calls them.\<close>

definition sql_single :: "Dialect \<Rightarrow> sql_env \<Rightarrow> sql_db single_op" where
  "sql_single d env row db = (case sql_Enqueue d env (Some row) db of ((err, row'), db') \<Rightarrow> ((err, the row'), db'))"

definition sql_batch :: "Dialect \<Rightarrow> sql_env \<Rightarrow> sql_db batch_op" where
  "sql_batch d env rows db = (case sql_EnqueueBatch d env (map Some rows) db of ((err, rows'), db') \<Rightarrow> ((err, map the rows'), db'))"

definition faultless :: "sql_env \<Rightarrow> bool" where
  "faultless env \<longleftrightarrow> (\<forall>k. db_err env k = None) \<and> (\<forall>i. \<not> locked env i)"


section \<open>The only job of a queue\<close>

definition alone :: "queue_name \<Rightarrow> JobRow \<Rightarrow> sql_db \<Rightarrow> bool" where
  "alone q row db \<longleftrightarrow> sql_inv db \<and> sql_look db (ID row) = Some row \<and> Queue row = q \<and>
     (\<forall>r \<in> set (jobs db). Queue r = q \<longrightarrow> r = row)"

lemma alone_mem: "alone q row db \<Longrightarrow> row \<in> set (jobs db)"
  by (auto simp: alone_def sql_look_def dest: find_key_SomeD)

lemma alone_filter:
  assumes "alone q row db" and "P row" and "\<And>r. P r \<Longrightarrow> Queue r = q \<or> ID r = ID row"
  shows "filter P (jobs db) = [row]"
proof -
  have uniq: "r = row" if "r \<in> set (jobs db)" "ID r = ID row" for r
    using assms(1) that sql_look_Some_iff [of db "ID row"] unfolding alone_def by (metis option.inject)
  have "filter P (jobs db) = filter (\<lambda>r. ID r = ID row) (jobs db)"
    by (rule filter_cong) (use assms uniq in \<open>auto simp: alone_def\<close>)
  also have "\<dots> = [row]"
    using assms(1) by (intro filter_key_unique) (simp_all add: alone_def sql_inv_def sql_look_def)
  finally show ?thesis .
qed

lemma find_filter: "find P xs = (case filter P xs of [] \<Rightarrow> None | x # _ \<Rightarrow> Some x)"
  by (induction xs) auto

lemma alone_find:
  assumes "alone q row db" "P row" and "\<And>r. P r \<Longrightarrow> ID r = ID row"
  shows "find P (jobs db) = Some row"
proof -
  have "filter P (jobs db) = [row]" using assms(1,2) by (rule alone_filter) (use assms(3) in blast)
  then show ?thesis unfolding find_filter by (simp only: list.case)
qed

lemma alone_update:
  assumes alone: "alone q row db" and jobs': "jobs db' = update_where p f (jobs db)" and last: "last_id db' = last_id db"
    and keys: "\<And>r. ID (f r) = ID r" "\<And>r. UUID (f r) = UUID r" "\<And>r. Queue (f r) = Queue r"
    and p: "p row"
  shows "alone q (f row) db'"
proof -
  have inv: "sql_inv db'"
    using alone by (auto simp: alone_def sql_inv_def jobs' last map_update_where keys set_update_where)
  have "sql_look db' (ID (f row)) = Some (f row)"
    using alone p by (simp add: alone_def sql_look_def jobs' find_key_update_where keys)
  moreover have "r' = f row" if "r' \<in> set (jobs db')" "Queue r' = q" for r'
  proof -
    from that(1) obtain r where r: "r \<in> set (jobs db)" "r' = (if p r then f r else r)"
      by (auto simp: jobs' set_update_where)
    with that(2) have "Queue r = q" by (auto simp: keys split: if_splits)
    with alone r(1) have "r = row" by (auto simp: alone_def)
    with r(2) p show ?thesis by simp
  qed
  ultimately show ?thesis using inv alone by (simp add: alone_def keys)
qed

lemma requeue_alone:
  assumes alone: "alone q row db" and ok: "db_err env 0 = None" "stale (clk env 0 - timeout) row"
  shows "alone q (sql_requeue_row (clk env 0) row) (snd (sql_RequeueStale env timeout db))"
  by (rule alone_update [OF alone, where p = "stale (clk env 0 - timeout)" and f = "sql_requeue_row (clk env 0)"])
    (use ok in \<open>simp_all add: sql_RequeueStale_def Let_def row_simps sql_requeue_row_def\<close>)

lemma complete_alone:
  assumes alone: "alone q row db" and ok: "db_err env 0 = None" "State row = StateRunning"
  shows "fst (sql_Complete env (ID row) out db) = None"
    and "alone q (sql_complete_row (clk env 0) out row) (snd (sql_Complete env (ID row) out db))"
proof -
  let ?p = "\<lambda>r. ID r = ID row \<and> State r = StateRunning"
  have n: "count_where ?p (jobs db) \<noteq> 0"
    using alone_mem [OF alone] ok(2) by (auto simp: count_where_def filter_empty_conv)
  then show "fst (sql_Complete env (ID row) out db) = None" by (simp add: sql_Complete_def ok Let_def)
  show "alone q (sql_complete_row (clk env 0) out row) (snd (sql_Complete env (ID row) out db))"
    by (rule alone_update [OF alone, where p = ?p and f = "sql_complete_row (clk env 0) out"])
      (use ok n in \<open>simp_all add: sql_Complete_def Let_def row_simps sql_complete_row_def\<close>)
qed

lemma queue_of_rows [simp]:
  "Queue (sql_claim_row d now n r) = Queue r" "Queue (sql_retryable_row errs t r) = Queue r" "Queue (sql_fail_row errs now r) = Queue r"
  by (simp_all add: sql_claim_row_def sql_retryable_row_def sql_fail_row_def)

lemma claim_alone:
  assumes alone: "alone q row db" and ok: "faultless env" "sql_eligible q (clk env 0) row"
  shows "fst (sql_Claim d env q n 1 db) = Inr [sql_claim_row d (clk env 0) n row]"
    and "alone q (sql_claim_row d (clk env 0) n row) (snd (sql_Claim d env q n 1 db))"
    and "failed_jobs (snd (sql_Claim d env q n 1 db)) = failed_jobs db"
proof -
  have none: "db_err env k = None" "\<not> locked env i" for k i using ok(1) by (simp_all add: faultless_def)
  have "\<exists>rows. fst (sql_Claim d env q n 1 db) = Inr rows"
    by (cases d) (simp_all add: sql_Claim_def claimMySQL_def claimTransaction_def claimSkipLocked_def Let_def none)
  then obtain rows where rows: "fst (sql_Claim d env q n 1 db) = Inr rows" by blast
  have chosen: "chosen d env q 1 db = [row]"
    using alone_filter [OF alone, of "\<lambda>r. sql_eligible q (clk env 0) r \<and> \<not> skipped d env (ID r)"] ok(2)
    by (simp add: chosen_def limit_def skipped_def none sql_eligible_def)
  note upd = sql_Claim_chosen [OF rows zero_less_one, unfolded chosen list.map]
  have jobs': "jobs (snd (sql_Claim d env q n 1 db)) = update_where (\<lambda>r. ID r = ID row) (sql_claim_row d (clk env 0) n) (jobs db)"
    by (simp add: upd(1) claim_update_def)
  show alone': "alone q (sql_claim_row d (clk env 0) n row) (snd (sql_Claim d env q n 1 db))"
    by (rule alone_update [OF alone jobs']) (simp_all add: upd(1) claim_update_def row_simps)
  show "failed_jobs (snd (sql_Claim d env q n 1 db)) = failed_jobs db" by (simp add: upd(1) claim_update_def)
  have "rows_with_ids [ID row] (snd (sql_Claim d env q n 1 db)) = [sql_claim_row d (clk env 0) n row]"
    using alone_filter [OF alone', of "\<lambda>r. ID r = ID row"] by (simp add: rows_with_ids_def row_simps)
  with upd(2) have "mset rows = {# sql_claim_row d (clk env 0) n row #}" by simp
  then show "fst (sql_Claim d env q n 1 db) = Inr [sql_claim_row d (clk env 0) n row]" by (simp add: rows)
qed

lemma schedule_retry_alone:
  assumes alone: "alone q row db" and ok: "faultless env" "State row = StateRunning"
  shows "\<exists>errs. length errs = Suc (length (Errors row)) \<and>
    alone q (sql_retryable_row errs t row) (snd (sql_ScheduleRetry env (ID row) err t db)) \<and>
    failed_jobs (snd (sql_ScheduleRetry env (ID row) err t db)) = failed_jobs db"
proof -
  have none: "db_err env k = None" for k using ok(1) by (simp add: faultless_def)
  let ?p = "\<lambda>r. ID r = ID row \<and> State r = StateRunning"
  have found: "find ?p (jobs db) = Some row" by (rule alone_find [OF alone]) (use ok in auto)
  define errs where "errs = Errors row @
    [attempt_error (Attempt row) (sprint_error (Some (case err of None \<Rightarrow> Errorf ''job failed'' | Some e \<Rightarrow> e))) (clk env 0)]"
  have errs: "length errs = Suc (length (Errors row))"
    "snd (sql_ScheduleRetry env (ID row) err t db) = db\<lparr>jobs := update_where ?p (sql_retryable_row errs t) (jobs db)\<rparr>"
    by (simp_all add: sql_ScheduleRetry_def found none Let_def errs_def)
  have "alone q (sql_retryable_row errs t row) (snd (sql_ScheduleRetry env (ID row) err t db))"
    by (rule alone_update [OF alone, where p = ?p]) (use ok in \<open>simp_all add: errs(2) row_simps\<close>)
  with errs show ?thesis by auto
qed

lemma fail_alone:
  assumes alone: "alone q row db" and ok: "faultless env" "State row = StateRunning"
  shows "\<exists>errs. length errs = Suc (length (Errors row)) \<and>
    alone q (sql_fail_row errs (clk env 1) row) (snd (sql_Fail env (ID row) err db)) \<and>
    failed_jobs (snd (sql_Fail env (ID row) err db)) = failed_jobs db @ [failed_job_of (sql_fail_row errs (clk env 1) row)]"
proof -
  have none: "db_err env k = None" for k using ok(1) by (simp add: faultless_def)
  let ?p = "\<lambda>r. ID r = ID row \<and> (State r = StateRunning \<or> State r = StateRetryable)"
  have found: "find ?p (jobs db) = Some row" by (rule alone_find [OF alone]) (use ok in auto)
  define errs where "errs = Errors row @ [attempt_error (Attempt row) (sprint_error err) (clk env 0)]"
  define db1 where "db1 = db\<lparr>jobs := update_where ?p (sql_fail_row errs (clk env 1)) (jobs db)\<rparr>"
  have alone1: "alone q (sql_fail_row errs (clk env 1) row) db1"
    by (rule alone_update [OF alone, where p = ?p]) (use ok in \<open>simp_all add: db1_def row_simps\<close>)
  have "filter (\<lambda>r. ID r = ID row) (jobs db1) = [sql_fail_row errs (clk env 1) row]"
    by (rule alone_filter [OF alone1]) (simp_all add: row_simps)
  then have "snd (sql_Fail env (ID row) err db) = db1\<lparr>failed_jobs := failed_jobs db @ [failed_job_of (sql_fail_row errs (clk env 1) row)]\<rparr>"
    by (simp add: sql_Fail_def found none Let_def errs_def [symmetric] db1_def [symmetric] insertFailedJobTx_def) (simp add: db1_def)
  moreover from alone1 have "alone q (sql_fail_row errs (clk env 1) row)
      (db1\<lparr>failed_jobs := failed_jobs db @ [failed_job_of (sql_fail_row errs (clk env 1) row)]\<rparr>)"
    by (simp add: alone_def sql_inv_def sql_look_def)
  ultimately show ?thesis by (intro exI [of _ errs]) (simp add: errs_def)
qed


section \<open>A job that fails until it succeeds\<close>

text \<open>
  The execution of this claimed job decodes and errs; the job has no retry deadline and no retry hook, its backoff is the default one or one of its own, at most \<open>b\<close> in either case, and its
  failure hook returns. Or the execution succeeds.
\<close>

definition fails_now :: "('s, 'p, 'w) worker_registry \<Rightarrow> duration \<Rightarrow> JobRow \<Rightarrow> bool" where
  "fails_now reg b job \<longleftrightarrow> (\<exists>obj. worker_decodeJob reg (Kind job) (Payload job) = Inr obj \<and>
     h_RetryUntil obj = None \<and> h_BeforeRetry obj = None \<and>
     (case h_RetryBackoff obj of None \<Rightarrow> 24 * Hour \<le> b | Some cfg \<Rightarrow> MaxDelay cfg \<le> b) \<and>
     (\<forall>show_panic c s. c_row c = Some job \<longrightarrow> fst (run_recovered show_panic (collectMiddlewares reg obj) obj (Payload job) c s) \<noteq> None) \<and>
     (\<forall>f e c s. h_Failed obj = Some f \<longrightarrow> (\<exists>x s'. f (Payload job) e c s = (Ret x, s'))))"

definition succeeds_now :: "('s, 'p, 'w) worker_registry \<Rightarrow> JobRow \<Rightarrow> bool" where
  "succeeds_now reg job \<longleftrightarrow> (\<exists>obj. worker_decodeJob reg (Kind job) (Payload job) = Inr obj \<and>
     (\<forall>show_panic c s. c_row c = Some job \<longrightarrow> fst (run_recovered show_panic (collectMiddlewares reg obj) obj (Payload job) c s) = None))"

text \<open>A job of this kind and payload errs at each attempt before the \<open>g\<close>th and succeeds at that one, when \<open>lim\<close> lets it come to it.\<close>

definition first_success :: "('s, 'p, 'w) worker_registry \<Rightarrow> duration \<Rightarrow> string \<Rightarrow> bytes \<Rightarrow> int \<Rightarrow> int \<Rightarrow> bool" where
  "first_success reg b kind payload g lim \<longleftrightarrow> (\<exists>obj. worker_decodeJob reg kind payload = Inr obj \<and>
     h_RetryUntil obj = None \<and> h_BeforeRetry obj = None \<and>
     (case h_RetryBackoff obj of None \<Rightarrow> 24 * Hour \<le> b | Some cfg \<Rightarrow> MaxDelay cfg \<le> b) \<and>
     (\<forall>show_panic c s r. c_row c = Some r \<longrightarrow> Attempt r \<le> min g lim \<longrightarrow>
        (fst (run_recovered show_panic (collectMiddlewares reg obj) obj payload c s) = None \<longleftrightarrow> Attempt r = g)) \<and>
     (\<forall>f e c s. h_Failed obj = Some f \<longrightarrow> (\<exists>x s'. f payload e c s = (Ret x, s'))))"

lemma first_success_fails: "first_success reg b (Kind job) (Payload job) g lim \<Longrightarrow> Attempt job \<le> lim \<Longrightarrow> Attempt job < g \<Longrightarrow> fails_now reg b job"
  unfolding first_success_def fails_now_def by (elim exE conjE, rule exI, intro conjI) auto

lemma first_success_succeeds: "first_success reg b (Kind job) (Payload job) g lim \<Longrightarrow> Attempt job \<le> lim \<Longrightarrow> Attempt job = g \<Longrightarrow> succeeds_now reg job"
  unfolding first_success_def succeeds_now_def by (elim exE conjE, rule exI, intro conjI) auto

lemma decide_retry_exact:
  assumes "0 \<le> Attempt job" "Attempt job < 2 ^ 63 - 1" "h_BeforeRetry obj = None" "h_RetryUntil obj = None"
    and b: "case h_RetryBackoff obj of None \<Rightarrow> 24 * Hour \<le> b | Some cfg \<Rightarrow> MaxDelay cfg \<le> b"
  shows "\<exists>res. decide_retry env obj job c e s = (Ret res, s) \<and> er_err res = Some e \<and>
    (if Attempt job < effective_max job then er_state res = StateRetryable \<and> er_backoff res \<le> b else er_state res = StateFailed)"
proof (cases "Attempt job < effective_max job")
  case False
  then show ?thesis unfolding decide_retry_def ComputeNextState_Some [OF assms(1,2)] by simp
next
  case True
  have "exponential_delay (2 * Second) (24 * Hour) (Attempt job + 1) \<noteq> None"
    using assms by (simp add: exponential_delay_None_iff)
  then obtain d where d: "exponential_delay (2 * Second) (24 * Hour) (Attempt job + 1) = Some d" by blast
  then have d24: "d \<le> 24 * Hour" by (auto simp: exponential_delay_def cap_delay_le split: option.splits if_splits)
  obtain x where x: "(case h_RetryBackoff obj of None \<Rightarrow> Some d | Some cfg \<Rightarrow> computeBackoffWithConfig cfg (int64 (Attempt job + 1))) = Some x"
    using computeBackoffWithConfig_Some [OF assms(1,2)] by (cases "h_RetryBackoff obj") auto
  then have "x \<le> b"
    using b d24 by (auto dest: computeBackoffWithConfig_le split: option.splits)
  with True d x assms(3,4) show ?thesis
    unfolding decide_retry_def ComputeNextState_Some [OF assms(1,2)] by simp
qed

lemma c_row_executed [simp]: "c_row (ContextWithRow c (Some job)) = Some job"
  by (simp add: ContextWithRow_def)

lemma execute_succeeds:
  assumes "succeeds_now reg job"
  shows "\<exists>s'. execute call env reg c job (s, d) = ([OpComplete (ID job) None], Ret (), (s', snd (call (OpComplete (ID job) None) d)))"
proof -
  define c' where "c' = ContextWithRow (exec_deadline env c job) (Some job)"
  have "c_row c' = Some job" by (simp add: c'_def)
  with assms obtain obj where obj: "worker_decodeJob reg (Kind job) (Payload job) = Inr obj"
    "fst (run_recovered (w_show env) (collectMiddlewares reg obj) obj (Payload job) c' s) = None"
    unfolding succeeds_now_def by blast
  then obtain s1 where "run_recovered (w_show env) (collectMiddlewares reg obj) obj (Payload job) c' s = (None, s1)"
    by (cases "run_recovered (w_show env) (collectMiddlewares reg obj) obj (Payload job) c' s") auto
  then have "processJob env reg (exec_deadline env c job) job s = (Ret completed_result, s1)"
    by (simp add: processJob_def obj(1) c'_def [symmetric])
  then show ?thesis by (simp add: execute_def report_def completed_result_def)
qed

lemma execute_fails:
  assumes "fails_now reg b job" "0 \<le> Attempt job" "Attempt job < 2 ^ 63 - 1"
  shows "\<exists>op s' e t. execute call env reg c job (s, d) = ([op], Ret (), (s', snd (call op d))) \<and>
    (if Attempt job < effective_max job then op = OpScheduleRetry (ID job) (Some e) t \<and> t \<le> w_now env 2 + b else op = OpFail (ID job) (Some e))"
proof -
  from assms(1) obtain obj where obj: "worker_decodeJob reg (Kind job) (Payload job) = Inr obj" "h_RetryUntil obj = None" "h_BeforeRetry obj = None"
    "case h_RetryBackoff obj of None \<Rightarrow> 24 * Hour \<le> b | Some cfg \<Rightarrow> MaxDelay cfg \<le> b"
    "\<And>show_panic c s. c_row c = Some job \<Longrightarrow> fst (run_recovered show_panic (collectMiddlewares reg obj) obj (Payload job) c s) \<noteq> None"
    "\<And>f e c s. h_Failed obj = Some f \<Longrightarrow> \<exists>x s'. f (Payload job) e c s = (Ret x, s')"
    unfolding fails_now_def by blast
  define c' where "c' = ContextWithRow (exec_deadline env c job) (Some job)"
  have "c_row c' = Some job" by (simp add: c'_def)
  then obtain e s1 where run: "run_recovered (w_show env) (collectMiddlewares reg obj) obj (Payload job) c' s = (Some e, s1)"
    using obj(5) [of c' "w_show env" s] by (cases "run_recovered (w_show env) (collectMiddlewares reg obj) obj (Payload job) c' s") auto
  obtain res where res: "decide_retry env obj job c' e s1 = (Ret res, s1)" "er_err res = Some e"
    "if Attempt job < effective_max job then er_state res = StateRetryable \<and> er_backoff res \<le> b else er_state res = StateFailed"
    using decide_retry_exact [OF assms(2,3) obj(3,2,4), of env c' e s1] by blast
  have proc: "processJob env reg (exec_deadline env c job) job s = (Ret res, s1)"
    by (simp add: processJob_def obj(1) c'_def [symmetric] run res(1))
  show ?thesis
  proof (cases "Attempt job < effective_max job")
    case True
    with res proc show ?thesis by (auto simp: execute_def report_def Let_def)
  next
    case False
    have "\<exists>s2. callFailedHook reg c job (Some e) s1 = (Ret (), s2)"
      using obj(6) [of _ "Some e" c s1] by (cases "h_Failed obj") (force simp: callFailedHook_def obj(1))+
    then show ?thesis using False res proc by (auto simp: execute_def report_def Let_def)
  qed
qed

text \<open>One round: the job is claimed, executed and reported on.\<close>

lemma run_round:
  assumes "\<not> stop_before r" "call (OpClaim q n 1) d = (Inr (job # js), d1)"
    "execute call (round_env r) reg c job (s, d1) = ([op], Ret (), sd1)"
  shows "run call reg c q n (r # rs) (s, d) =
    (case run call reg c q n rs sd1 of (ops, fin, sd2) \<Rightarrow> (OpClaim q n 1 # op # ops, fin, sd2))"
  using run_executes [of r call q n d job js d1 reg c s "[op]" "Ret ()" sd1 rs] assms by simp


section \<open>Concrete rounds\<close>

definition spaced_env :: "nat \<Rightarrow> sql_env" where
  "spaced_env k = calm\<lparr>clk := (\<lambda>_. (int k + 1) * (48 * Hour))\<rparr>"

definition failing_rounds :: "unit round list" where
  "failing_rounds = replicate 3 \<lparr>stop_before = False, stop_waiting = False, round_env = noon\<rparr>"

end
