(* ===== verification/Redis_Lone.thy ===== *)
theory Redis_Lone
  imports End_To_End
begin

text \<open>
  A Redis server on which a queue has one job, and what each call of a worker or a supervisor does to it, as \<open>End_To_End\<close> has it for a database.
\<close>

definition redis_calls :: "redis_env \<Rightarrow> bool" where
  "redis_calls env \<longleftrightarrow> pre_err env = None \<and> post_err env = None"

text \<open>
  The only job of its queue, with a document that decodes on every server: no empty table is in it.\<close>

definition redis_alone :: "queue_name \<Rightarrow> JobRow \<Rightarrow> redis \<Rightarrow> bool" where
  "redis_alone q row st \<longleftrightarrow> redis_inv st \<and> Queue row = q \<and> Tags row \<noteq> Some [] \<and>
     (\<exists>doc. get_doc st (ID row) = Some doc \<and> doc_row doc = row \<and> (errors_set doc \<longrightarrow> Errors row \<noteq> [])) \<and>
     (\<forall>i r. redis_look st i = Some r \<longrightarrow> Queue r = q \<longrightarrow> r = row)"

lemma redis_alone_look: "redis_alone q row st \<Longrightarrow> redis_look st (ID row) = Some row"
  by (auto simp: redis_alone_def redis_look_def)

lemma redis_alone_update:
  assumes alone: "redis_alone q row st" and inv: "redis_inv st'" and doc': "get_doc st' (ID row) = Some doc'"
    and others: "\<And>j. j \<noteq> ID row \<Longrightarrow> map_option (\<lambda>doc. Queue (doc_row doc)) (get_doc st' j) = map_option (\<lambda>doc. Queue (doc_row doc)) (get_doc st j)"
    and keeps: "ID (doc_row doc') = ID row" "Queue (doc_row doc') = Queue row" "Tags (doc_row doc') = Tags row"
      "errors_set doc' \<longrightarrow> Errors (doc_row doc') \<noteq> []"
  shows "redis_alone q (doc_row doc') st'"
proof -
  have inv0: "redis_inv st" using alone by (simp add: redis_alone_def)
  have "r = doc_row doc'" if r: "redis_look st' i = Some r" "Queue r = q" for i r
  proof (cases "i = ID row")
    case True
    with r doc' show ?thesis by (simp add: redis_look_def)
  next
    case False
    from r others [OF False] obtain doc where doc: "get_doc st i = Some doc" "Queue (doc_row doc) = q"
      by (cases "get_doc st i") (auto simp: redis_look_def)
    then have "redis_look st i = Some (doc_row doc)" by (simp add: redis_look_def)
    with doc(2) alone have "doc_row doc = row" by (simp add: redis_alone_def)
    with entry_okD(1) [OF inv0 doc(1)] False show ?thesis by simp
  qed
  then show ?thesis using alone inv keeps doc' unfolding redis_alone_def by auto
qed

lemma unixMicros_mono: "s \<le> t \<Longrightarrow> unixMicros s \<le> unixMicros t"
  by (auto simp: unixMicros_def intro: zdiv_mono1) (smt (verit) pos_imp_zdiv_nonneg_iff)

lemma distinct_singleton_list:
  assumes "distinct xs" "set xs = {x}"
  shows "xs = [x]"
proof (cases xs)
  case (Cons y ys)
  with assms have "set ys \<subseteq> {x}" "y = x" "x \<notin> set ys" by auto
  then have "set ys = {}" using subset_singletonD by fastforce
  with Cons \<open>y = x\<close> show ?thesis by simp
qed (use assms in simp)

text \<open>A document that decodes on every server, and a queue all of whose documents do.\<close>

definition readable_doc :: "JobDoc \<Rightarrow> bool" where
  "readable_doc doc \<longleftrightarrow> Tags (doc_row doc) \<noteq> Some [] \<and> (errors_set doc \<longrightarrow> Errors (doc_row doc) \<noteq> [])"

definition readable_queue :: "queue_name \<Rightarrow> redis \<Rightarrow> bool" where
  "readable_queue q st \<longleftrightarrow> redis_inv st \<and> (\<forall>i doc. get_doc st i = Some doc \<longrightarrow> Queue (doc_row doc) = q \<longrightarrow> readable_doc doc)"

lemma decode_readable [simp]: "readable_doc doc \<Longrightarrow> decodeJob env doc = Inr (doc_row doc)"
  by (auto simp: readable_doc_def decodeJob_def)

text \<open>A claim of one job takes the first that can be claimed: its reply, and the documents after it.\<close>

lemma redis_claim_one:
  assumes q: "readable_queue q st" and ok: "redis_calls env" and some: "redis_claimable (r_clk env 0) q st \<noteq> {}"
  shows "\<exists>row doc. row \<in> redis_claimable (r_clk env 0) q st \<and>
    (\<forall>r \<in> redis_claimable (r_clk env 0) q st. r \<noteq> row \<longrightarrow> row_order row < row_order r) \<and>
    get_doc st (ID row) = Some doc \<and> doc_row doc = row \<and> fst (redis_Claim env q n 1 st) = Inr [redis_claim_row (r_clk env 0) n row] \<and>
    (\<forall>j. get_doc (snd (redis_Claim env q n 1 st)) j =
       (if j = ID row then Some (doc\<lparr>doc_row := redis_claim_row (r_clk env 0) n row\<rparr>) else get_doc st j))"
proof -
  let ?now = "r_clk env 0"
  have inv: "redis_inv st" and call: "pre_err env = None" "post_err env = None" using q ok by (simp_all add: readable_queue_def redis_calls_def)
  note rows = taken_rows [OF inv, where now = ?now and q = q]
  have "least_by row_order 1 (set (map cand_row (taken ?now q 1 st))) (redis_claimable ?now q st)"
    unfolding rows(1) limit_def using take_sort_key_least [OF rows(3,4), of 1, unfolded rows(2)] by simp
  moreover have "finite (redis_claimable ?now q st)" unfolding rows(2) [symmetric] by simp
  ultimately obtain row where row: "set (map cand_row (taken ?now q 1 st)) = {row}" "row \<in> redis_claimable ?now q st"
    "\<forall>r \<in> redis_claimable ?now q st. r \<noteq> row \<longrightarrow> row_order row < row_order r" using least_by_one [OF _ some] by blast
  have "length (taken ?now q 1 st) \<le> 1" using arg_cong [OF rows(1) [of 1], of length] by (simp add: limit_def)
  with row(1) obtain i s doc where c: "taken ?now q 1 st = [(i, s, doc)]" "doc_row doc = row"
    by (cases "taken ?now q 1 st") (auto simp: cand_row_def)
  have doc: "get_doc st i = Some doc" using taken_doc(1) [of i s doc ?now q 1 st] c(1) by simp
  have i: "i = ID row" using entry_okD(1) [OF inv doc] by (simp add: c(2))
  have "Queue row = q" using row(2) by (simp add: redis_claimable_def)
  with doc q c(2) have "readable_doc doc" by (auto simp: readable_queue_def)
  then have decode: "readable_doc (doc\<lparr>doc_row := redis_claim_row ?now n row\<rparr>)"
    using c(2) by (simp add: readable_doc_def redis_claim_row_def)
  have script: "fst (claimScript ?now q n 1 st) = [doc\<lparr>doc_row := redis_claim_row ?now n row\<rparr>]"
    by (simp add: claimScript_taken claim_take_docs c del: claim_take.simps)
  have reply: "redis_Claim env q n 1 st = (Inr [redis_claim_row ?now n row], snd (claimScript ?now q n 1 st))"
    using decode by (simp add: redis_Claim_def run_script_def call split_def Let_def script)
  have docs: "get_doc (snd (claimScript ?now q n 1 st)) j =
      (if j = ID row then Some (doc\<lparr>doc_row := redis_claim_row ?now n row\<rparr>) else get_doc st j)" for j
    using arg_cong [where f = e_doc, OF claimScript_entries [of ?now q n 1 st j]] by (simp add: c i claimed_def)
  show ?thesis using row(2,3) doc c(2) docs by (intro exI [of _ row] exI [of _ doc]) (simp add: reply i)
qed

lemma redis_alone_readable:
  assumes alone: "redis_alone q row st"
  shows "readable_queue q st"
  unfolding readable_queue_def
proof (intro conjI allI impI)
  show inv: "redis_inv st" using alone by (simp add: redis_alone_def)
  fix i doc assume doc: "get_doc st i = Some doc" "Queue (doc_row doc) = q"
  have "doc_row doc = row" using alone doc unfolding redis_alone_def redis_look_def by blast
  moreover from this have "i = ID row" using entry_okD(1) [OF inv doc(1)] by simp
  ultimately show "readable_doc doc" using alone doc(1) by (auto simp: redis_alone_def readable_doc_def)
qed

lemma redis_claim_alone:
  assumes alone: "redis_alone q row st" and ok: "redis_calls env"
    and due: "waiting (State row)" "Attempt row < MaxAttempts row" "ScheduledAt row \<le> r_clk env 0"
  shows "fst (redis_Claim env q n 1 st) = Inr [redis_claim_row (r_clk env 0) n row] \<and>
    redis_alone q (redis_claim_row (r_clk env 0) n row) (snd (redis_Claim env q n 1 st))"
proof -
  let ?now = "r_clk env 0"
  have inv: "redis_inv st" and q: "Queue row = q" and only: "\<And>i r. redis_look st i = Some r \<Longrightarrow> Queue r = q \<Longrightarrow> r = row"
    using alone by (simp_all add: redis_alone_def)
  have "row \<in> redis_claimable ?now q st"
    using redis_alone_look [OF alone] q due unixMicros_mono [OF due(3)] unfolding redis_claimable_def by blast
  with only have "redis_claimable ?now q st = {row}" unfolding redis_claimable_def by blast
  with redis_claim_one [OF redis_alone_readable [OF alone] ok, of n] obtain doc where
    doc: "get_doc st (ID row) = Some doc" "doc_row doc = row" and reply: "fst (redis_Claim env q n 1 st) = Inr [redis_claim_row ?now n row]"
    and docs: "\<forall>j. get_doc (snd (redis_Claim env q n 1 st)) j =
      (if j = ID row then Some (doc\<lparr>doc_row := redis_claim_row ?now n row\<rparr>) else get_doc st j)" by auto
  have "readable_doc doc" using redis_alone_readable [OF alone] doc q by (auto simp: readable_queue_def)
  moreover have "redis_inv (snd (redis_Claim env q n 1 st))" using redis.inv_exec [OF inv, of "(OpClaim q n 1, env)"] by simp
  ultimately have "redis_alone q (doc_row (doc\<lparr>doc_row := redis_claim_row ?now n row\<rparr>)) (snd (redis_Claim env q n 1 st))"
    using doc(2) by (intro redis_alone_update [OF alone]) (simp_all add: docs redis_claim_row_def readable_doc_def)
  with reply show ?thesis by simp
qed

text \<open>A call whose script finds the job: its effect and its reply.\<close>

lemma redis_report_alone:
  assumes alone: "redis_alone q row st" and ok: "redis_calls env" and inv: "redis_inv (snd (script st))"
    and found: "fst (script st)" and docs: "\<And>j. get_doc (snd (script st)) j = (if j = ID row then Some doc' else get_doc st j)"
    and keeps: "ID (doc_row doc') = ID row" "Queue (doc_row doc') = Queue row" "Tags (doc_row doc') = Tags row"
      "errors_set doc' \<longrightarrow> Errors (doc_row doc') \<noteq> []"
  shows "fst (found_error (run_script env script st)) = None \<and> redis_alone q (doc_row doc') (snd (found_error (run_script env script st)))"
  using ok found redis_alone_update [OF alone inv _ _ keeps]
  by (simp add: docs redis_calls_def run_script_def found_error_def split_def Let_def)

lemma redis_complete_alone:
  assumes alone: "redis_alone q row st" and ok: "redis_calls env" and "State row = StateRunning"
  shows "fst (redis_Complete env (ID row) out st) = None \<and>
    redis_alone q (redis_complete_row (r_clk env 0) (case out of None \<Rightarrow> [] | Some b \<Rightarrow> b) row) (snd (redis_Complete env (ID row) out st))"
proof -
  let ?out = "case out of None \<Rightarrow> [] | Some b \<Rightarrow> b"
  obtain doc where doc: "get_doc st (ID row) = Some doc" "doc_row doc = row" "errors_set doc \<longrightarrow> Errors row \<noteq> []" and inv: "redis_inv st"
    using alone by (auto simp: redis_alone_def)
  have "redis_inv (snd (finishScript (r_clk env 0) (ID row) ?out st))"
    using finish_step [of "ID row" out st "r_clk env 0" ?out] inv by (simp add: store_step_def)
  from redis_report_alone [where script = "finishScript (r_clk env 0) (ID row) ?out" and doc' = "doc\<lparr>doc_row := redis_complete_row (r_clk env 0) ?out row\<rparr>", OF alone ok this] doc assms(3)
  show ?thesis by (simp add: redis_Complete_def finishScript_def redis_complete_row_def)
qed

lemma redis_schedule_retry_alone:
  assumes alone: "redis_alone q row st" and ok: "redis_calls env" and "State row = StateRunning"
  shows "redis_alone q (redis_retryable_row (r_clk env 0) (job_error_text err) t row) (snd (redis_ScheduleRetry env (ID row) err t st))"
proof -
  obtain doc where doc: "get_doc st (ID row) = Some doc" "doc_row doc = row" and inv: "redis_inv st"
    using alone by (auto simp: redis_alone_def)
  have "redis_inv (snd (scheduleRetryScript (r_clk env 0) (ID row) (job_error_text err) t st))"
    using scheduleRetry_step [of "ID row" err t st "r_clk env 0" "job_error_text err" t] inv by (simp add: store_step_def)
  from redis_report_alone [where script = "scheduleRetryScript (r_clk env 0) (ID row) (job_error_text err) t" and doc' = "\<lparr>doc_row = redis_retryable_row (r_clk env 0) (job_error_text err) t row, errors_set = True\<rparr>", OF alone ok this]
    doc assms(3)
  show ?thesis by (simp add: redis_ScheduleRetry_def scheduleRetryScript_def redis_retryable_row_def redis_add_error_def)
qed

lemma redis_fail_alone:
  assumes alone: "redis_alone q row st" and ok: "redis_calls env" and "State row = StateRunning"
  shows "redis_alone q (redis_fail_row (r_clk env 0) (job_error_text err) row) (snd (redis_Fail env (ID row) err st))"
proof -
  obtain doc where doc: "get_doc st (ID row) = Some doc" "doc_row doc = row" and inv: "redis_inv st"
    using alone by (auto simp: redis_alone_def)
  have "redis_inv (snd (failScript (r_clk env 0) (ID row) (job_error_text err) st))"
    using fail_step [of "ID row" err st "r_clk env 0" "job_error_text err"] inv by (simp add: store_step_def)
  from redis_report_alone [where script = "failScript (r_clk env 0) (ID row) (job_error_text err)" and doc' = "\<lparr>doc_row = redis_fail_row (r_clk env 0) (job_error_text err) row, errors_set = True\<rparr>", OF alone ok this]
    doc assms(3)
  show ?thesis by (simp add: redis_Fail_def failScript_def redis_fail_row_def redis_add_error_def)
qed

text \<open>The re-queueing of a job that was claimed before the cutoff: the score of its running entry is the time of that claim.\<close>

lemma redis_requeue_alone:
  assumes alone: "redis_alone q row st" and ok: "redis_calls env" and row: "State row = StateRunning" "AttemptedAt row = Some t"
    and late: "t \<le> r_clk env 0 - timeout"
  shows "redis_alone q (redis_requeue_row (r_clk env 0) row) (snd (redis_RequeueStale env timeout st))"
proof -
  let ?now = "r_clk env 0" and ?cut = "unixMicros (r_clk env 0 - timeout)"
  let ?is = "zrange (\<lambda>s. s \<le> ?cut) (r_running st)"
  obtain doc where doc: "get_doc st (ID row) = Some doc" "doc_row doc = row" "errors_set doc \<longrightarrow> Errors row \<noteq> []" and inv: "redis_inv st"
    using alone by (auto simp: redis_alone_def)
  have "run_ok row (e_run (entry_of st (ID row)))" using entry_okD(6) [OF inv doc(1)] by (simp add: doc(2))
  then have "DAList.lookup (r_running st) (ID row) = Some (unixMicros t)"
    using row by (cases "e_run (entry_of st (ID row))") (auto simp: entry_of_def)
  with unixMicros_mono [OF late] have mem: "ID row \<in> fst ` set ?is" by (force simp: set_zrange)
  let ?doc = "doc\<lparr>doc_row := redis_requeue_row ?now row\<rparr>"
  have docs: "get_doc (snd (staleScript ?now ?cut st)) j =
      (if j \<in> fst ` set ?is then e_doc (requeued ?now (entry_of st j)) else get_doc st j)" for j
    using arg_cong [where f = e_doc, OF conjunct1 [OF stale_loop_entries [of ?now ?is 0 st j]]]
    by (simp add: staleScript_def split: if_splits)
  have "redis_inv (snd (staleScript ?now ?cut st))" using stale_step [of timeout st ?now ?cut] inv by (simp add: store_step_def)
  then have "redis_alone q (doc_row ?doc) (snd (staleScript ?now ?cut st))"
    using doc row(1)
    by (intro redis_alone_update [OF alone]) (simp_all add: docs mem requeued_def redis_requeue_row_def split: option.split)
  with ok show ?thesis by (simp add: redis_RequeueStale_def redis_calls_def run_script_def split_def Let_def)
qed

end
