(* ===== verification/Fleet_Properties.thy ===== *)
theory Fleet_Properties
  imports Fleet End_To_End
begin

text \<open>
  What several workers on one database or one Redis server guarantee each other: an attempt is executed by one worker, and, as long as nothing is
  re-queued, so is a job.
\<close>


section \<open>One worker per attempt\<close>

abbreviation sql_fleet :: "Dialect \<Rightarrow> life_event set \<Rightarrow> sql_db fleet \<Rightarrow> sql_db fleet \<Rightarrow> bool" where
  "sql_fleet d E \<equiv> fleet_step sql_look fst (sql_exec d) (sql_handed d) E"

abbreviation redis_fleet :: "life_event set \<Rightarrow> redis fleet \<Rightarrow> redis fleet \<Rightarrow> bool" where
  "redis_fleet E \<equiv> fleet_step redis_look fst redis_exec redis_handed E"

text \<open>The worker that holds an attempt is the only one, and no attempt held is later than the row's.\<close>

definition attempts_exclusive :: "('s \<Rightarrow> job_id \<Rightarrow> JobRow option) \<Rightarrow> 's fleet \<Rightarrow> bool" where
  "attempts_exclusive look f \<longleftrightarrow>
     (\<forall>v w i a. fl_held f v = Some (i, a) \<longrightarrow>
        (fl_held f w = Some (i, a) \<longrightarrow> v = w) \<and> (\<forall>r. look (fl_store f) i = Some r \<longrightarrow> a \<le> Attempt r))"

text \<open>The worker that holds a job is the only one, and the job is running the attempt it holds, unless it was pruned.\<close>

definition jobs_exclusive :: "('s \<Rightarrow> job_id \<Rightarrow> JobRow option) \<Rightarrow> 's fleet \<Rightarrow> bool" where
  "jobs_exclusive look f \<longleftrightarrow>
     (\<forall>v w i a b. fl_held f v = Some (i, a) \<longrightarrow>
        (fl_held f w = Some (i, b) \<longrightarrow> v = w) \<and>
        (\<forall>r. look (fl_store f) i = Some r \<longrightarrow> State r = StateRunning \<and> Attempt r = a))"

lemma attempts_exclusive_if_ok: "attempts_ok look issued f \<Longrightarrow> attempts_exclusive look f"
  unfolding attempts_ok_def attempts_exclusive_def by blast

lemma jobs_exclusive_if_ok: "jobs_ok look issued f \<Longrightarrow> jobs_exclusive look f"
  unfolding jobs_ok_def jobs_exclusive_def by blast

text \<open>
  Property C7. However the claims, reports and deaths of any number of workers interleave with the calls of other clients, with faults and lost replies, and with
  re-queueing, but without a manual retry: no two workers execute the same attempt of a job, on either store.\<close>

theorem workers_never_share_an_attempt:
  assumes "sql_inv db" and "(sql_fleet d E)\<^sup>*\<^sup>* (fleet_start db) f"
    and "redis_inv st" and "(redis_fleet E)\<^sup>*\<^sup>* (fleet_start st) g" and "LRetry \<notin> E"
  shows "attempts_exclusive sql_look f \<and> attempts_exclusive redis_look g"
  using sql.fleet_attempts [OF assms(2,5,1)] redis.fleet_attempts [OF assms(4,5,3)] by (auto intro: attempts_exclusive_if_ok)

definition two_rows :: sql_db where
  "two_rows = sample_db [sample_row 1 StateAvailable 0 5, sample_row 2 StateAvailable 7 50]"

lemma two_rows_claim: "\<exists>f. sql_fleet SQLite E (fleet_start two_rows) f \<and> fl_held f 0 = Some (2, 1)"
proof -
  let ?c = "(OpClaim ''default'' ''n1'' 1, calm)"
  note simps = sql_look_def sql_Claim_def claimTransaction_def claim_ids_def limit_def claim_order_def sql_eligible_def
    claim_update_def update_where_def Let_def sql_claim_row_def push_node_def rows_with_ids_def two_rows_def sample_simps
  have "first_held sql_look (sql_exec SQLite ?c two_rows) (sql_handed SQLite ?c two_rows) = Some (2, 1)"
    by (simp add: simps first_held_def)
  moreover have "sql_fleet SQLite E (fleet_start two_rows) ((fleet_start two_rows)\<lparr>fl_store := sql_exec SQLite ?c two_rows,
      fl_held := (fl_held (fleet_start two_rows))(0 := first_held sql_look (sql_exec SQLite ?c two_rows) (sql_handed SQLite ?c (fl_store (fleet_start two_rows))))\<rparr>)"
    by (rule fleet_step.claim) (simp_all add: fleet_start_def)
  ultimately show ?thesis by (intro exI conjI) (assumption, simp add: fleet_start_def)
qed

theorem workers_never_share_an_attempt_witness:
  "\<exists>f. (sql_fleet SQLite {LRequeue})\<^sup>*\<^sup>* (fleet_start two_rows) f \<and> fl_held f 0 = Some (2, 1) \<and> attempts_exclusive sql_look f \<and>
     attempts_exclusive redis_look (fleet_start two_mails)"
proof -
  obtain f where f: "sql_fleet SQLite {LRequeue} (fleet_start two_rows) f" "fl_held f 0 = Some (2, 1)" using two_rows_claim by blast
  have "sql_inv two_rows" using sample_inv by (simp only: two_rows_def)
  from workers_never_share_an_attempt [OF this r_into_rtranclp [where r = "sql_fleet SQLite {LRequeue}", OF f(1)] two_mails_inv rtranclp.rtrancl_refl] f
  show ?thesis by auto
qed

text \<open>
  Property C6. When nothing is re-queued either, no two workers execute the same job, and the row of a job that is being executed says so: it is running, in that very
  attempt.\<close>

theorem workers_never_share_a_job:
  assumes "sql_inv db" and "(sql_fleet d {LCancel})\<^sup>*\<^sup>* (fleet_start db) f"
    and "redis_inv st" and "(redis_fleet {LCancel})\<^sup>*\<^sup>* (fleet_start st) g"
  shows "jobs_exclusive sql_look f \<and> jobs_exclusive redis_look g"
  using sql.fleet_jobs [OF assms(2,1)] redis.fleet_jobs [OF assms(4,3)] by (auto intro: jobs_exclusive_if_ok)

theorem workers_never_share_a_job_witness:
  "\<exists>f. (sql_fleet SQLite {LCancel})\<^sup>*\<^sup>* (fleet_start two_rows) f \<and> fl_held f 0 = Some (2, 1) \<and> jobs_exclusive sql_look f \<and>
     jobs_exclusive redis_look (fleet_start two_mails)"
proof -
  obtain f where f: "sql_fleet SQLite {LCancel} (fleet_start two_rows) f" "fl_held f 0 = Some (2, 1)" using two_rows_claim by blast
  have "sql_inv two_rows" using sample_inv by (simp only: two_rows_def)
  from workers_never_share_a_job [OF this r_into_rtranclp [where r = "sql_fleet SQLite {LCancel}", OF f(1)] two_mails_inv rtranclp.rtrancl_refl] f
  show ?thesis by auto
qed

end
