(* ===== verification/Fleet_Worker.thy ===== *)
theory Fleet_Worker
  imports Fleet_Properties
begin

text \<open>
  The worker's loop of \<^verbatim>\<open>pool.go\<close> is a worker of the fleet: over any driver whose claims and reports are the calls of a \<open>job_store\<close>, the locale
  \<open>claiming_store\<close>, every part of the loop is a path of that worker's steps; both drivers are such drivers.
\<close>


section \<open>Drivers of a store\<close>

text \<open>Executing a job makes at most one call, a report on it.\<close>

lemma execute_reports:
  assumes "execute call env reg c job (s, d) = (ops, res, sd)"
  shows "ops = [] \<and> snd sd = d \<or> (\<exists>oper. ops = [oper] \<and> settles (ID job) oper \<and> snd sd = snd (call oper d))"
  using assms
  by (auto simp: execute_def report_def Let_def split: outcome.splits option.splits prod.splits if_splits)

text \<open>\<open>drive\<close> is a driver as the worker calls it, over the store and the number of calls made so far.\<close>

locale claiming_store = job_store look inv op_of exec handed issued
  for look :: "'s \<Rightarrow> job_id \<Rightarrow> JobRow option" and inv and op_of :: "'c \<Rightarrow> driver_op" and exec and handed and issued +
  fixes drive :: "'e \<Rightarrow> ('s \<times> nat) driver_call"
  assumes drive_calls: "\<exists>c. op_of c = oper \<and> snd (drive e oper (s, k)) = (exec c s, k + 1) \<and>
      (\<forall>q n m. oper = OpClaim q n m \<longrightarrow> handed c s = (case fst (drive e oper (s, k)) of Inl _ \<Rightarrow> [] | Inr rows \<Rightarrow> map ID rows))"
begin

abbreviation steps :: "life_event set \<Rightarrow> 's fleet \<Rightarrow> 's fleet \<Rightarrow> bool" where
  "steps E \<equiv> fleet_step look op_of exec handed E"

lemma drive_inv: "inv s \<Longrightarrow> op_ok oper \<Longrightarrow> snd (drive e oper (s, k)) = (s', k') \<Longrightarrow> inv s'"
  using drive_calls [of oper e s k] by (auto intro: inv_exec)

text \<open>One round: a claim, and, if it gave a job, its execution, after which the worker holds nothing again.\<close>

lemma round_claims:
  assumes "inv (fl_store f)" "fl_held f w = None" "drive e (OpClaim q n 1) (fl_store f, k) = (Inr (job # js), s1, k1)"
  shows "\<exists>a. steps E f (f\<lparr>fl_store := s1, fl_held := (fl_held f)(w := Some (ID job, a))\<rparr>)"
proof -
  from drive_calls [of "OpClaim q n 1" e "fl_store f" k] assms(3) obtain c where
    c: "op_of c = OpClaim q n 1" "s1 = exec c (fl_store f)" "handed c (fl_store f) = ID job # map ID js" by auto
  then have "ID job \<in> set (handed c (fl_store f))" by simp
  from handed_claims [OF assms(1) this] obtain r' where "look s1 (ID job) = Some r'" using c(2) by blast
  then have held: "first_held look s1 (handed c (fl_store f)) = Some (ID job, Attempt r')"
    unfolding c(3) by (simp add: first_held_def)
  have "steps E f (f\<lparr>fl_store := s1, fl_held := (fl_held f)(w := first_held look s1 (handed c (fl_store f)))\<rparr>)"
    by (rule fleet_step.claim) (use assms(2) c in simp_all)
  then show ?thesis unfolding held by blast
qed

lemma round_claims_nothing:
  assumes "fl_held f w = None" "drive e (OpClaim q n 1) (fl_store f, k) = (res, s1, k1)" and "\<And>job js. res \<noteq> Inr (job # js)"
  shows "steps E f (f\<lparr>fl_store := s1\<rparr>)"
proof -
  from drive_calls [of "OpClaim q n 1" e "fl_store f" k] assms(2) obtain c where
    c: "op_of c = OpClaim q n 1" "s1 = exec c (fl_store f)"
      "handed c (fl_store f) = (case res of Inl _ \<Rightarrow> [] | Inr rows \<Rightarrow> map ID rows)" by auto
  have "handed c (fl_store f) = []" using assms(3) unfolding c(3) by (auto split: sum.split) (metis neq_Nil_conv)
  moreover have "steps E f (f\<lparr>fl_store := s1, fl_held := (fl_held f)(w := first_held look s1 (handed c (fl_store f)))\<rparr>)"
    by (rule fleet_step.claim) (use assms(1) c in simp_all)
  moreover have "(fl_held f)(w := None) = fl_held f" using assms(1) by auto
  ultimately show ?thesis by (simp add: first_held_def)
qed

lemma execution_settles:
  assumes "execute (drive e) env reg c job (s, fl_store f, k) = (reports, out, s2, s2', k2)"
    and "inv (fl_store f)" and "fl_held f w = Some (ID job, a)"
  shows "steps E f (f\<lparr>fl_store := s2', fl_held := (fl_held f)(w := None)\<rparr>) \<and> inv s2'"
proof -
  from execute_reports [OF assms(1)] consider "s2' = fl_store f" |
      oper where "settles (ID job) oper" "(s2', k2) = snd (drive e oper (fl_store f, k))" by auto
  then show ?thesis
  proof cases
    case 1
    have "steps E f (f\<lparr>fl_held := (fl_held f)(w := None)\<rparr>)" by (rule fleet_step.crash)
    then show ?thesis using 1 assms(2) by simp
  next
    case 2
    from drive_calls [of oper e "fl_store f" k] 2(2) obtain c where c: "op_of c = oper" "s2' = exec c (fl_store f)" by auto
    have "steps E f (f\<lparr>fl_store := exec c (fl_store f), fl_held := (fl_held f)(w := None)\<rparr>)"
      by (rule fleet_step.report) (use assms(3) 2(1) c in simp_all)
    moreover have "inv s2'" using inv_exec [OF assms(2), of c] settles_ok [OF 2(1)] c by simp
    ultimately show ?thesis using c by simp
  qed
qed

text \<open>A round that executes a job takes two steps.\<close>

lemma round_executes:
  assumes "inv (fl_store f)" "fl_held f w = None" "drive e (OpClaim q n 1) (fl_store f, k) = (Inr (job # js), s1, k1)"
    and "execute (drive e) env reg c job (s, s1, k1) = (reports, out, s2, s2', k2)"
  shows "(steps E)\<^sup>*\<^sup>* f (f\<lparr>fl_store := s2'\<rparr>) \<and> inv s2'"
proof -
  obtain a where claim: "steps E f (f\<lparr>fl_store := s1, fl_held := (fl_held f)(w := Some (ID job, a))\<rparr>)" (is "steps E f ?f1")
    using round_claims [OF assms(1-3)] by blast
  have inv1: "inv s1" by (rule drive_inv [OF assms(1), of "OpClaim q n 1" e k _ k1]) (simp_all add: assms(3))
  have "steps E ?f1 (?f1\<lparr>fl_store := s2', fl_held := (fl_held ?f1)(w := None)\<rparr>) \<and> inv s2'"
    by (rule execution_settles) (use assms(4) inv1 in simp_all)
  moreover have "(fl_held f)(w := None) = fl_held f" using assms(2) by auto
  ultimately have "steps E ?f1 (f\<lparr>fl_store := s2'\<rparr>)" "inv s2'" by simp_all
  with claim show ?thesis by (meson converse_rtranclp_into_rtranclp rtranclp.rtrancl_refl)
qed

lemma loop_path:
  assumes "inv (fl_store f)" and "fl_held f w = None"
    and "run (drive e) reg c q n rs (s, (fl_store f, k)) = (ops, fin, s', (t', k'))"
  shows "\<exists>f'. (steps E)\<^sup>*\<^sup>* f f' \<and> fl_store f' = t' \<and> fl_held f' = fl_held f"
  using assms
proof (induction rs arbitrary: f s k ops fin s' t' k')
  case Nil
  then show ?case by (intro exI [of _ f]) simp
next
  case (Cons r rs)
  obtain res s1 k1 where call: "drive e (OpClaim q n 1) (fl_store f, k) = (res, s1, k1)" by (metis prod.exhaust)
  have inv1: "inv s1" by (rule drive_inv [OF Cons.prems(1), of "OpClaim q n 1" e k _ k1]) (simp_all add: call)
  have onwards: "\<exists>f'. (steps E)\<^sup>*\<^sup>* f f' \<and> fl_store f' = t' \<and> fl_held f' = fl_held f"
    if "(steps E)\<^sup>*\<^sup>* f (f\<lparr>fl_store := t\<rparr>)" "inv t" "run (drive e) reg c q n rs (u, (t, j)) = (ops1, fin1, s', (t', k'))" for t u j ops1 fin1
  proof -
    have "\<exists>f'. (steps E)\<^sup>*\<^sup>* (f\<lparr>fl_store := t\<rparr>) f' \<and> fl_store f' = t' \<and> fl_held f' = fl_held (f\<lparr>fl_store := t\<rparr>)"
      by (rule Cons.IH) (use that(2,3) Cons.prems(2) in simp_all)
    with that(1) show ?thesis by (auto intro: rtranclp_trans)
  qed
  show ?case
  proof (cases "stop_before r")
    case True
    with Cons.prems(3) show ?thesis by (intro exI [of _ f]) simp
  next
    case go: False
    show ?thesis
    proof (cases "\<exists>job js. res = Inr (job # js)")
      case True
      then obtain job js where res: "res = Inr (job # js)" by blast
      obtain reports out s2 t2 k2 where ex: "execute (drive e) (round_env r) reg c job (s, (s1, k1)) = (reports, out, s2, t2, k2)"
        by (metis prod.exhaust)
      note path = round_executes [OF Cons.prems(1,2) call [unfolded res] ex]
      show ?thesis
      proof (cases out)
        case (Panic p)
        with Cons.prems(3) go call res ex have "t' = t2" by simp
        with path show ?thesis by (intro exI [of _ "f\<lparr>fl_store := t2\<rparr>"]) simp
      next
        case (Ret u)
        obtain ops1 fin1 sd1 where rest: "run (drive e) reg c q n rs (s2, (t2, k2)) = (ops1, fin1, sd1)" by (metis prod.exhaust)
        with Cons.prems(3) go call res ex Ret have "sd1 = (s', (t', k'))" by simp
        with onwards [OF conjunct1 conjunct2, OF path path] rest show ?thesis by blast
      qed
    next
      case False
      then have step: "(steps E)\<^sup>*\<^sup>* f (f\<lparr>fl_store := s1\<rparr>)"
        using round_claims_nothing [OF Cons.prems(2) call] by (auto intro: r_into_rtranclp)
      show ?thesis
      proof (cases "t' = s1")
        case True
        with step show ?thesis by (intro exI [of _ "f\<lparr>fl_store := s1\<rparr>"]) auto
      next
        case moved: False
        obtain ops1 fin1 sd1 where rest: "run (drive e) reg c q n rs (s, (s1, k1)) = (ops1, fin1, sd1)" by (metis prod.exhaust)
        with Cons.prems(3) go call False moved have "sd1 = (s', (t', k'))"
          by (cases res) (auto simp: Let_def split: list.splits if_splits)
        with onwards [OF step inv1] rest show ?thesis by blast
      qed
    qed
  qed
qed

end


section \<open>The two drivers\<close>

interpretation sql_worker: claiming_store sql_look sql_inv fst "sql_exec d" "sql_handed d" last_id "sql_driver d" for d
  by unfold_locales (rule exI [of _ "(_, _)"], simp add: sql_driver_def, force)

text \<open>The Redis server together with the number of calls made so far.\<close>

definition redis_driver :: "(nat \<Rightarrow> redis_env) \<Rightarrow> (redis \<times> nat) driver_call" where
  "redis_driver envs op st = (case st of (srv, k) \<Rightarrow>
     ((case op of OpClaim q n m \<Rightarrow> fst (redis_Claim (envs k) q n m srv) | _ \<Rightarrow> Inr []), (redis_exec (op, envs k) srv, k + 1)))"

interpretation redis_worker: claiming_store redis_look redis_inv fst redis_exec redis_handed r_last redis_driver
  by unfold_locales (rule exI [of _ "(_, _)"], simp add: redis_driver_def, force)

text \<open>
  Property C8. Any part of a worker's loop against either driver, whatever the job's code does and however it ends, is a path of that worker's steps in the fleet.\<close>

theorem worker_loop_is_a_fleet_worker:
  assumes "sql_inv (fl_store f)" and "fl_held f w = None"
    and "run (sql_driver d envs) reg c q n rs (s, (fl_store f, k)) = (ops, fin, s', (db', k'))"
    and "redis_inv (fl_store g)" and "fl_held g v = None"
    and "run (redis_driver renvs) reg c q n rs (s, (fl_store g, i)) = (reports, fin2, t', (st', i'))"
  shows "(\<exists>f'. (sql_fleet d E)\<^sup>*\<^sup>* f f' \<and> fl_store f' = db' \<and> fl_held f' = fl_held f) \<and>
    (\<exists>g'. (redis_fleet E)\<^sup>*\<^sup>* g g' \<and> fl_store g' = st' \<and> fl_held g' = fl_held g)"
  using sql_worker.loop_path [OF assms(1-3)] redis_worker.loop_path [OF assms(4-6)] by (rule conjI)

theorem worker_loop_is_a_fleet_worker_witness:
  "\<exists>db' k' f' st' i' g'. snd (snd (snd (run (sql_driver SQLite (\<lambda>_. calm)) (one_job quiet_job) no_ctx ''default'' ''n1'' failing_rounds ((), (two_rows, 0))))) = (db', k') \<and>
     (sql_fleet SQLite {})\<^sup>*\<^sup>* (fleet_start two_rows) f' \<and> fl_store f' = db' \<and>
     snd (snd (snd (run (redis_driver (\<lambda>_. redis_calm)) (one_job quiet_job) no_ctx ''default'' ''n1'' failing_rounds ((), (two_mails, 0))))) = (st', i') \<and>
     (redis_fleet {})\<^sup>*\<^sup>* (fleet_start two_mails) g' \<and> fl_store g' = st'"
proof -
  obtain ops fin s' db' k' where run: "run (sql_driver SQLite (\<lambda>_. calm)) (one_job quiet_job) no_ctx ''default'' ''n1'' failing_rounds
      ((), (fl_store (fleet_start two_rows), 0)) = (ops, fin, s', (db', k'))" by (metis prod.exhaust)
  obtain ops2 fin2 t' st' i' where run2: "run (redis_driver (\<lambda>_. redis_calm)) (one_job quiet_job) no_ctx ''default'' ''n1'' failing_rounds
      ((), (fl_store (fleet_start two_mails), 0)) = (ops2, fin2, t', (st', i'))" by (metis prod.exhaust)
  have "sql_inv (fl_store (fleet_start two_rows))" "fl_held (fleet_start two_rows) 0 = None"
    "redis_inv (fl_store (fleet_start two_mails))" "fl_held (fleet_start two_mails) 0 = None"
    using sample_inv two_mails_inv by (simp_all add: fleet_start_def two_rows_def)
  from worker_loop_is_a_fleet_worker [OF this(1,2) run this(3,4) run2, of "{}"] run run2 show ?thesis by (auto simp: fleet_start_def)
qed

end
