(* ===== verification/Lone_Job.thy ===== *)
theory Lone_Job
  imports Redis_Lone Fleet_Worker
begin

text \<open>
  The worker's loop on a queue whose only job fails until it succeeds or its attempts run out, over any store whose calls act on that job as the drivers' do, the locale \<open>lone_job\<close>; and the
  two drivers as such stores.
\<close>


section \<open>Stores with one job in a queue\<close>

definition same_job :: "JobRow \<Rightarrow> JobRow \<Rightarrow> bool" where
  "same_job r r' \<longleftrightarrow> ID r' = ID r \<and> Kind r' = Kind r \<and> Payload r' = Payload r \<and> MaxAttempts r' = MaxAttempts r"

text \<open>
  \<open>alone q row s\<close> says that \<open>row\<close> is the only job of queue \<open>q\<close>; \<open>archive\<close> is what the store keeps of failed jobs apart, to which a failure adds
  \<open>copies\<close>. A call in good \<open>health\<close> finds the job when its state allows.
\<close>

locale lone_job =
  fixes alone :: "queue_name \<Rightarrow> JobRow \<Rightarrow> 's \<Rightarrow> bool" and health :: "'e \<Rightarrow> bool" and clock :: "'e \<Rightarrow> time"
    and archive :: "'s \<Rightarrow> 'a list" and copies :: "JobRow \<Rightarrow> 'a list" and drive :: "(nat \<Rightarrow> 'e) \<Rightarrow> ('s \<times> nat) driver_call"
  assumes claim_lone: "alone q row s \<Longrightarrow> health (envs k) \<Longrightarrow> waiting (State row) \<Longrightarrow> Attempt row < MaxAttempts row \<Longrightarrow>
      ScheduledAt row \<le> clock (envs k) \<Longrightarrow>
      \<exists>job s'. drive envs (OpClaim q n 1) (s, k) = (Inr [job], (s', k + 1)) \<and> alone q job s' \<and> same_job row job \<and>
        State job = StateRunning \<and> Attempt job = Attempt row + 1 \<and> Errors job = Errors row \<and> archive s' = archive s"
    and retry_lone: "alone q row s \<Longrightarrow> health (envs k) \<Longrightarrow> State row = StateRunning \<Longrightarrow>
      \<exists>row' s'. snd (drive envs (OpScheduleRetry (ID row) err t) (s, k)) = (s', k + 1) \<and> alone q row' s' \<and> same_job row row' \<and>
        State row' = StateRetryable \<and> ScheduledAt row' = t \<and> Attempt row' = Attempt row \<and>
        length (Errors row') = Suc (length (Errors row)) \<and> archive s' = archive s"
    and fail_lone: "alone q row s \<Longrightarrow> health (envs k) \<Longrightarrow> State row = StateRunning \<Longrightarrow>
      \<exists>row' s'. snd (drive envs (OpFail (ID row) err) (s, k)) = (s', k + 1) \<and> alone q row' s' \<and> same_job row row' \<and>
        State row' = StateFailed \<and> Attempt row' = Attempt row \<and>
        length (Errors row') = Suc (length (Errors row)) \<and> archive s' = archive s @ copies row'"
    and complete_lone: "alone q row s \<Longrightarrow> health (envs k) \<Longrightarrow> State row = StateRunning \<Longrightarrow>
      \<exists>row' s'. snd (drive envs (OpComplete (ID row) None) (s, k)) = (s', k + 1) \<and> alone q row' s' \<and> same_job row row' \<and>
        State row' = StateCompleted \<and> Attempt row' = Attempt row \<and> Errors row' = Errors row \<and> archive s' = archive s"
begin

text \<open>A round in which the job succeeds.\<close>

lemma succeeding_round:
  assumes alone: "alone q row s" and success: "\<And>job. same_job row job \<Longrightarrow> Attempt job = Attempt row + 1 \<Longrightarrow> succeeds_now reg job"
    and row: "waiting (State row)" "Attempt row < MaxAttempts row" "ScheduledAt row \<le> clock (envs k)"
    and ok: "health (envs k)" "health (envs (k + 1))" "\<not> stop_before r"
  shows "\<exists>u' s' row'. run (drive envs) reg c q n [r] (u, (s, k)) = ([OpClaim q n 1, OpComplete (ID row) None], StillRunning, u', (s', k + 2)) \<and>
    alone q row' s' \<and> same_job row row' \<and> State row' = StateCompleted \<and> Attempt row' = Attempt row + 1 \<and> Errors row' = Errors row \<and> archive s' = archive s"
proof -
  from claim_lone [where envs = envs and k = k and n = n, OF alone ok(1) row] obtain job s1 where
    called: "drive envs (OpClaim q n 1) (s, k) = (Inr [job], (s1, k + 1))" and one: "alone q job s1"
    and job: "same_job row job" "State job = StateRunning" "Attempt job = Attempt row + 1" "Errors job = Errors row" "archive s1 = archive s"
    by blast
  from execute_succeeds [OF success [OF job(1,3)], of "drive envs" "round_env r" c u "(s1, k + 1)"] obtain u' where
    ex: "execute (drive envs) (round_env r) reg c job (u, (s1, k + 1)) =
      ([OpComplete (ID job) None], Ret (), (u', snd (drive envs (OpComplete (ID job) None) (s1, k + 1))))" by blast
  from complete_lone [where envs = envs and k = "k + 1", OF one ok(2) job(2)] obtain row' s' where fin:
    "snd (drive envs (OpComplete (ID job) None) (s1, k + 1)) = (s', k + 1 + 1)" "alone q row' s'" "same_job job row'" "State row' = StateCompleted"
    "Attempt row' = Attempt job" "Errors row' = Errors job" "archive s' = archive s1" by blast
  have "run (drive envs) reg c q n [r] (u, (s, k)) = ([OpClaim q n 1, OpComplete (ID row) None], StillRunning, u', (s', k + 2))"
    using run_round [OF ok(3) called ex, of "[]"] fin(1) job(1) by (simp add: same_job_def)
  with fin(2-) job show ?thesis unfolding same_job_def by auto
qed

text \<open>One in which it fails, and is scheduled again or failed.\<close>

lemma failing_round:
  assumes alone: "alone q row s" and fails: "\<And>job. same_job row job \<Longrightarrow> Attempt job = Attempt row + 1 \<Longrightarrow> fails_now reg b job" and row: "waiting (State row)"
    "0 \<le> Attempt row" "Attempt row < MaxAttempts row" "MaxAttempts row < 2 ^ 63 - 1" "ScheduledAt row \<le> clock (envs k)"
    and ok: "health (envs k)" "health (envs (k + 1))" "\<not> stop_before r"
  shows "\<exists>op u' s' row'.
    (\<forall>rs. run (drive envs) reg c q n (r # rs) (u, (s, k)) =
      (case run (drive envs) reg c q n rs (u', (s', k + 2)) of (ops, fin, sd) \<Rightarrow> (OpClaim q n 1 # op # ops, fin, sd))) \<and>
    alone q row' s' \<and> same_job row row' \<and> Attempt row' = Attempt row + 1 \<and> length (Errors row') = Suc (length (Errors row)) \<and>
    (if Attempt row + 1 < MaxAttempts row
     then State row' = StateRetryable \<and> ScheduledAt row' \<le> w_now (round_env r) 2 + b \<and> archive s' = archive s
     else State row' = StateFailed \<and> archive s' = archive s @ copies row')"
proof -
  from claim_lone [where envs = envs and k = k and n = n, OF alone ok(1) row(1,3,5)] obtain job s1 where
    called: "drive envs (OpClaim q n 1) (s, k) = (Inr [job], (s1, k + 1))" and one: "alone q job s1"
    and job: "same_job row job" "State job = StateRunning" "Attempt job = Attempt row + 1" "Errors job = Errors row" "archive s1 = archive s"
    by blast
  have eff: "effective_max job = MaxAttempts row" using job row by (simp add: effective_max_def same_job_def)
  have "0 \<le> Attempt job" "Attempt job < 2 ^ 63 - 1" using job row by simp_all
  from execute_fails [OF fails [OF job(1,3)] this, of "drive envs" "round_env r" c u "(s1, k + 1)"] obtain op u' e t where
    ex: "execute (drive envs) (round_env r) reg c job (u, (s1, k + 1)) = ([op], Ret (), (u', snd (drive envs op (s1, k + 1))))"
    and op: "if Attempt job < effective_max job then op = OpScheduleRetry (ID job) (Some e) t \<and> t \<le> w_now (round_env r) 2 + b
      else op = OpFail (ID job) (Some e)" by blast
  have round: "\<forall>rs. run (drive envs) reg c q n (r # rs) (u, (s, k)) =
      (case run (drive envs) reg c q n rs (u', (s', k + 2)) of (ops, fin, sd) \<Rightarrow> (OpClaim q n 1 # op # ops, fin, sd))"
    if "snd (drive envs op (s1, k + 1)) = (s', k + 1 + 1)" for s'
    using run_round [OF ok(3) called ex] that by simp
  show ?thesis
  proof (cases "Attempt row + 1 < MaxAttempts row")
    case True
    with op job(3) eff have o: "op = OpScheduleRetry (ID job) (Some e) t" "t \<le> w_now (round_env r) 2 + b" by simp_all
    from retry_lone [where envs = envs and k = "k + 1", OF one ok(2) job(2)] obtain row' s' where fin: "snd (drive envs op (s1, k + 1)) = (s', k + 1 + 1)" "alone q row' s'"
      "same_job job row'" "State row' = StateRetryable" "ScheduledAt row' = t" "Attempt row' = Attempt job"
      "length (Errors row') = Suc (length (Errors job))" "archive s' = archive s1" unfolding o(1) by blast
    show ?thesis using round [OF fin(1)] fin(2-) job True o(2) unfolding same_job_def by auto
  next
    case False
    with op job(3) eff have o: "op = OpFail (ID job) (Some e)" by simp
    from fail_lone [where envs = envs and k = "k + 1", OF one ok(2) job(2)] obtain row' s' where fin: "snd (drive envs op (s1, k + 1)) = (s', k + 1 + 1)" "alone q row' s'"
      "same_job job row'" "State row' = StateFailed" "Attempt row' = Attempt job"
      "length (Errors row') = Suc (length (Errors job))" "archive s' = archive s1 @ copies row'" unfolding o by blast
    show ?thesis using round [OF fin(1)] fin(2-) job False unfolding same_job_def by auto
  qed
qed

text \<open>All rounds, by induction on the attempts that are made.\<close>

lemma retried_run:
  assumes "alone q row s" and "first_success reg b (Kind row) (Payload row) g (MaxAttempts row)" and "waiting (State row)" and "0 \<le> Attempt row"
    and "int (length rs) = min g (MaxAttempts row) - Attempt row" and "rs \<noteq> []" and "MaxAttempts row < 2 ^ 63 - 1"
    and "ScheduledAt row \<le> clock (envs k)" and "\<forall>m. health (envs m)" and "\<forall>r \<in> set rs. \<not> stop_before r"
    and "\<forall>j. Suc j < length rs \<longrightarrow> w_now (round_env (rs ! j)) 2 + b \<le> clock (envs (k + 2 * Suc j))"
  shows "\<exists>ops u' s' row'. run (drive envs) reg c q n rs (u, (s, k)) = (ops, StillRunning, u', (s', k + 2 * length rs)) \<and>
    length ops = 2 * length rs \<and> alone q row' s' \<and> same_job row row' \<and> Attempt row' = min g (MaxAttempts row) \<and>
    (if g \<le> MaxAttempts row
     then State row' = StateCompleted \<and> Suc (length (Errors row')) = length (Errors row) + length rs \<and> archive s' = archive s
     else State row' = StateFailed \<and> length (Errors row') = length (Errors row) + length rs \<and> archive s' = archive s @ copies row')"
  using assms
proof (induction rs arbitrary: row s k u)
  case (Cons r rs)
  have left: "Attempt row < MaxAttempts row" "Attempt row < g" using Cons.prems(5) by auto
  have ok: "\<not> stop_before r" "health (envs k)" "health (envs (k + 1))" using Cons.prems(9,10) by simp_all
  have kind: "Kind job = Kind row \<and> Payload job = Payload row" if "same_job row job" for job using that by (simp add: same_job_def)
  show ?case
  proof (cases "Attempt row + 1 = g")
    case True
    then have rs: "rs = []" "g \<le> MaxAttempts row" using Cons.prems(5) left by auto
    have "succeeds_now reg job" if "same_job row job" "Attempt job = Attempt row + 1" for job
      by (rule first_success_succeeds [where g = g and lim = "MaxAttempts row"]) (use Cons.prems(2) kind [OF that(1)] that(2) left True in simp_all)
    from succeeding_round [where envs = envs and k = k, OF Cons.prems(1) this Cons.prems(3) left(1) Cons.prems(8) ok(2,3,1), of c n u]
    obtain u' s' row' where "run (drive envs) reg c q n [r] (u, (s, k)) = ([OpClaim q n 1, OpComplete (ID row) None], StillRunning, u', (s', k + 2))"
      "alone q row' s'" "same_job row row'" "State row' = StateCompleted" "Attempt row' = Attempt row + 1" "Errors row' = Errors row" "archive s' = archive s"
      by blast
    with True rs show ?thesis
      by (intro exI [of _ "[OpClaim q n 1, OpComplete (ID row) None]"] exI [of _ u'] exI [of _ s'] exI [of _ row']) (simp del: run.simps)
  next
    case False
    have "fails_now reg b job" if "same_job row job" "Attempt job = Attempt row + 1" for job
      by (rule first_success_fails [where g = g and lim = "MaxAttempts row"]) (use Cons.prems(2) kind [OF that(1)] that(2) left False in simp_all)
    from failing_round [where envs = envs and k = k, OF Cons.prems(1) this Cons.prems(3,4) left(1) Cons.prems(7,8) ok(2,3,1), of c n u]
    obtain op u1 s1 row1 where one:
      "\<And>rs. run (drive envs) reg c q n (r # rs) (u, (s, k)) =
        (case run (drive envs) reg c q n rs (u1, (s1, k + 2)) of (ops, fin, sd) \<Rightarrow> (OpClaim q n 1 # op # ops, fin, sd))"
      "alone q row1 s1" "same_job row row1" "Attempt row1 = Attempt row + 1" "length (Errors row1) = Suc (length (Errors row))"
      "if Attempt row + 1 < MaxAttempts row
       then State row1 = StateRetryable \<and> ScheduledAt row1 \<le> w_now (round_env r) 2 + b \<and> archive s1 = archive s
       else State row1 = StateFailed \<and> archive s1 = archive s @ copies row1"
      by blast
    have limit: "MaxAttempts row1 = MaxAttempts row" using one(3) by (simp add: same_job_def)
    show ?thesis
    proof (cases rs)
      case Nil
      with Cons.prems(5) False left have "Attempt row + 1 = MaxAttempts row" "MaxAttempts row < g" by auto
      with Nil one show ?thesis by auto
    next
      case (Cons r' rs')
      then have len: "int (length rs) = min g (MaxAttempts row1) - Attempt row1" "rs \<noteq> []" using Cons.prems(5) one(4) limit by auto
      have "0 < length rs" using len(2) by simp
      then have "0 < int (length rs)" by (simp only: of_nat_0_less_iff)
      with len(1) one(4) limit have "Attempt row + 1 < MaxAttempts row" by linarith
      with one(6) have st: "State row1 = StateRetryable" "ScheduledAt row1 \<le> w_now (round_env r) 2 + b" "archive s1 = archive s" by simp_all
      have sched: "ScheduledAt row1 \<le> clock (envs (k + 2))" using st(2) spec [OF Cons.prems(11), of 0] Cons by simp
      have spaced: "\<forall>j. Suc j < length rs \<longrightarrow> w_now (round_env (rs ! j)) 2 + b \<le> clock (envs (k + 2 + 2 * Suc j))"
      proof (intro allI impI)
        fix j assume "Suc j < length rs"
        then show "w_now (round_env (rs ! j)) 2 + b \<le> clock (envs (k + 2 + 2 * Suc j))"
          using spec [OF Cons.prems(11), of "Suc j"] by (simp add: algebra_simps)
      qed
      have kept: "first_success reg b (Kind row1) (Payload row1) g (MaxAttempts row1)" "waiting (State row1)" "0 \<le> Attempt row1" "MaxAttempts row1 < 2 ^ 63 - 1"
        using Cons.prems(2,4,7) one(3,4) st(1) by (simp_all add: waiting_def same_job_def)
      have go: "\<forall>r \<in> set rs. \<not> stop_before r" using Cons.prems(10) by simp
      from Cons.IH [OF one(2) kept(1-3) len kept(4) sched Cons.prems(9) go spaced, of u1] obtain ops u2 s2 row2 where two:
        "run (drive envs) reg c q n rs (u1, (s1, k + 2)) = (ops, StillRunning, u2, (s2, k + 2 + 2 * length rs))"
        "length ops = 2 * length rs" "alone q row2 s2" "same_job row1 row2" "Attempt row2 = min g (MaxAttempts row1)"
        "if g \<le> MaxAttempts row1
         then State row2 = StateCompleted \<and> Suc (length (Errors row2)) = length (Errors row1) + length rs \<and> archive s2 = archive s1
         else State row2 = StateFailed \<and> length (Errors row2) = length (Errors row1) + length rs \<and> archive s2 = archive s1 @ copies row2"
        by blast
      have "same_job row row2" using one(3) two(4) by (simp add: same_job_def)
      then show ?thesis
        by (intro exI [of _ "OpClaim q n 1 # op # ops"] exI [of _ u2] exI [of _ s2] exI [of _ row2])
          (use one two st limit in simp)
    qed
  qed
qed simp

end


section \<open>The two drivers\<close>

interpretation lone_sql: lone_job alone faultless "\<lambda>env. clk env 0" failed_jobs "\<lambda>r. [failed_job_of r]" "sql_driver d" for d
proof unfold_locales
  fix q row and s :: sql_db and envs :: "nat \<Rightarrow> sql_env" and k n err t
  assume alone: "alone q row s" and ok: "faultless (envs k)"
  show "\<exists>job s'. sql_driver d envs (OpClaim q n 1) (s, k) = (Inr [job], (s', k + 1)) \<and> alone q job s' \<and> same_job row job \<and>
        State job = StateRunning \<and> Attempt job = Attempt row + 1 \<and> Errors job = Errors row \<and> failed_jobs s' = failed_jobs s"
    if "waiting (State row)" "Attempt row < MaxAttempts row" "ScheduledAt row \<le> clk (envs k) 0"
  proof -
    have "sql_eligible q (clk (envs k) 0) row" using alone that by (auto simp: sql_eligible_def alone_def waiting_def)
    from claim_alone [OF alone ok this, of d n] show ?thesis by (simp add: sql_driver_def same_job_def sql_claim_row_def)
  qed
  show "\<exists>row' s'. snd (sql_driver d envs (OpScheduleRetry (ID row) err t) (s, k)) = (s', k + 1) \<and> alone q row' s' \<and> same_job row row' \<and>
        State row' = StateRetryable \<and> ScheduledAt row' = t \<and> Attempt row' = Attempt row \<and>
        length (Errors row') = Suc (length (Errors row)) \<and> failed_jobs s' = failed_jobs s" if "State row = StateRunning"
    using schedule_retry_alone [OF alone ok that, of t err] by (auto simp: sql_driver_def same_job_def sql_retryable_row_def)
  show "\<exists>row' s'. snd (sql_driver d envs (OpFail (ID row) err) (s, k)) = (s', k + 1) \<and> alone q row' s' \<and> same_job row row' \<and>
        State row' = StateFailed \<and> Attempt row' = Attempt row \<and>
        length (Errors row') = Suc (length (Errors row)) \<and> failed_jobs s' = failed_jobs s @ [failed_job_of row']" if "State row = StateRunning"
    using fail_alone [OF alone ok that, of err] by (auto simp: sql_driver_def same_job_def sql_fail_row_def)
  show "\<exists>row' s'. snd (sql_driver d envs (OpComplete (ID row) None) (s, k)) = (s', k + 1) \<and> alone q row' s' \<and> same_job row row' \<and>
        State row' = StateCompleted \<and> Attempt row' = Attempt row \<and> Errors row' = Errors row \<and> failed_jobs s' = failed_jobs s" if "State row = StateRunning"
    using complete_alone(2) [OF alone _ that, of "envs k" None] ok
    by (intro exI [of _ "sql_complete_row (clk (envs k) 0) None row"])
      (auto simp: sql_driver_def same_job_def sql_complete_row_def faultless_def sql_Complete_def Let_def)
qed

text \<open>Redis keeps no copy of a failed job.\<close>

interpretation lone_redis: lone_job redis_alone redis_calls "\<lambda>env. r_clk env 0" "\<lambda>_. [] :: unit list" "\<lambda>_. []" redis_driver
proof unfold_locales
  fix q row and s :: redis and envs :: "nat \<Rightarrow> redis_env" and k n err t
  assume alone: "redis_alone q row s" and ok: "redis_calls (envs k)"
  show "\<exists>job s'. redis_driver envs (OpClaim q n 1) (s, k) = (Inr [job], (s', k + 1)) \<and> redis_alone q job s' \<and> same_job row job \<and>
        State job = StateRunning \<and> Attempt job = Attempt row + 1 \<and> Errors job = Errors row \<and> ([] :: unit list) = []"
    if "waiting (State row)" "Attempt row < MaxAttempts row" "ScheduledAt row \<le> r_clk (envs k) 0"
    using redis_claim_alone [OF alone ok that, of n] by (simp add: redis_driver_def same_job_def redis_claim_row_def)
  show "\<exists>row' s'. snd (redis_driver envs (OpScheduleRetry (ID row) err t) (s, k)) = (s', k + 1) \<and> redis_alone q row' s' \<and> same_job row row' \<and>
        State row' = StateRetryable \<and> ScheduledAt row' = t \<and> Attempt row' = Attempt row \<and>
        length (Errors row') = Suc (length (Errors row)) \<and> ([] :: unit list) = []" if "State row = StateRunning"
    using redis_schedule_retry_alone [OF alone ok that, of err t]
    by (auto simp: redis_driver_def same_job_def redis_retryable_row_def redis_add_error_def)
  show "\<exists>row' s'. snd (redis_driver envs (OpFail (ID row) err) (s, k)) = (s', k + 1) \<and> redis_alone q row' s' \<and> same_job row row' \<and>
        State row' = StateFailed \<and> Attempt row' = Attempt row \<and>
        length (Errors row') = Suc (length (Errors row)) \<and> ([] :: unit list) = [] @ []" if "State row = StateRunning"
    using redis_fail_alone [OF alone ok that, of err]
    by (auto simp: redis_driver_def same_job_def redis_fail_row_def redis_add_error_def)
  show "\<exists>row' s'. snd (redis_driver envs (OpComplete (ID row) None) (s, k)) = (s', k + 1) \<and> redis_alone q row' s' \<and> same_job row row' \<and>
        State row' = StateCompleted \<and> Attempt row' = Attempt row \<and> Errors row' = Errors row \<and> ([] :: unit list) = []" if "State row = StateRunning"
    using redis_complete_alone [OF alone ok that, of None] by (auto simp: redis_driver_def same_job_def redis_complete_row_def)
qed


section \<open>Twice the same job\<close>

text \<open>A stale job is re-queued, claimed again and completed by the first worker.\<close>

lemma sql_runs_twice:
  assumes alone: "alone q row db" and row: "State row = StateRunning" "AttemptedAt row = Some t" "t < clk env1 0 - timeout"
    and left: "Attempt row < MaxAttempts row" "clk env1 0 \<le> clk env2 0" and ok: "faultless env1" "faultless env2" "faultless env3"
  shows "\<exists>again. fst (sql_Claim d env2 q n 1 (snd (sql_RequeueStale env1 timeout db))) = Inr [again] \<and>
      ID again = ID row \<and> State again = StateRunning \<and> Attempt again = Attempt row + 1 \<and>
      (\<exists>db'. sql_Complete env3 (ID row) out (snd (sql_Claim d env2 q n 1 (snd (sql_RequeueStale env1 timeout db)))) = (None, db') \<and>
         (\<exists>fin. sql_look db' (ID row) = Some fin \<and> State fin = StateCompleted \<and> Attempt fin = Attempt again))"
proof -
  have none: "db_err env1 0 = None" "db_err env3 0 = None" using ok by (simp_all add: faultless_def)
  define row1 where "row1 = sql_requeue_row (clk env1 0) row"
  define row2 where "row2 = sql_claim_row d (clk env2 0) n row1"
  have "stale (clk env1 0 - timeout) row" using row by (simp add: stale_def)
  from requeue_alone [OF alone none(1) this] have one: "alone q row1 (snd (sql_RequeueStale env1 timeout db))" by (simp add: row1_def)
  have "sql_eligible q (clk env2 0) row1" using alone left by (simp add: row1_def sql_requeue_row_def sql_eligible_def alone_def)
  note two = claim_alone [OF one ok(2) this, of d n, folded row2_def]
  have row2: "ID row2 = ID row" "State row2 = StateRunning" "Attempt row2 = Attempt row + 1"
    by (simp_all add: row2_def row1_def sql_claim_row_def sql_requeue_row_def)
  note three = complete_alone [OF two(2) none(2) row2(2), of out]
  from three(2) have "sql_look (snd (sql_Complete env3 (ID row2) out (snd (sql_Claim d env2 q n 1 (snd (sql_RequeueStale env1 timeout db)))))) (ID row2) =
      Some (sql_complete_row (clk env3 0) out row2)" by (simp add: alone_def row_simps)
  with two(1) three(1) row2 show ?thesis
    by (intro exI [of _ row2]) (auto simp: prod_eq_iff sql_complete_row_def)
qed

lemma redis_runs_twice:
  assumes alone: "redis_alone q row st" and row: "State row = StateRunning" "AttemptedAt row = Some t" "t \<le> r_clk env1 0 - timeout"
    and left: "Attempt row < MaxAttempts row" "r_clk env1 0 \<le> r_clk env2 0" and ok: "redis_calls env1" "redis_calls env2" "redis_calls env3"
  shows "\<exists>again. fst (redis_Claim env2 q n 1 (snd (redis_RequeueStale env1 timeout st))) = Inr [again] \<and>
      ID again = ID row \<and> State again = StateRunning \<and> Attempt again = Attempt row + 1 \<and>
      (\<exists>st'. redis_Complete env3 (ID row) out (snd (redis_Claim env2 q n 1 (snd (redis_RequeueStale env1 timeout st)))) = (None, st') \<and>
         (\<exists>fin. redis_look st' (ID row) = Some fin \<and> State fin = StateCompleted \<and> Attempt fin = Attempt again))"
proof -
  define row1 where "row1 = redis_requeue_row (r_clk env1 0) row"
  define row2 where "row2 = redis_claim_row (r_clk env2 0) n row1"
  note one = redis_requeue_alone [OF alone ok(1) row, folded row1_def]
  have "waiting (State row1)" "Attempt row1 < MaxAttempts row1" "ScheduledAt row1 \<le> r_clk env2 0"
    using left by (simp_all add: row1_def redis_requeue_row_def)
  note two = redis_claim_alone [OF one ok(2) this, of n, folded row2_def]
  have row2: "ID row2 = ID row" "State row2 = StateRunning" "Attempt row2 = Attempt row + 1"
    by (simp_all add: row2_def row1_def redis_claim_row_def redis_requeue_row_def)
  note three = redis_complete_alone [OF conjunct2 [OF two] ok(3) row2(2), of out]
  have "redis_look (snd (redis_Complete env3 (ID row2) out (snd (redis_Claim env2 q n 1 (snd (redis_RequeueStale env1 timeout st)))))) (ID row2) =
      Some (redis_complete_row (r_clk env3 0) (case out of None \<Rightarrow> [] | Some b \<Rightarrow> b) row2)"
    using redis_alone_look [OF conjunct2 [OF three]] by (simp add: redis_complete_row_def)
  with two three row2 show ?thesis
    by (intro exI [of _ row2]) (auto simp: prod_eq_iff redis_complete_row_def)
qed


section \<open>Concrete stores\<close>

definition lone_row :: JobRow where
  "lone_row = (sample_row 1 StateAvailable 0 5)\<lparr>Tags := None\<rparr>"

definition lone_store :: redis where
  "lone_store = snd (redis_Enqueue redis_calm (Some lone_row) redis_empty)"

definition claimed_store :: redis where
  "claimed_store = snd (redis_Claim (redis_calm\<lparr>r_clk := \<lambda>_. 6\<rparr>) ''default'' ''n1'' 1 lone_store)"

definition spaced_redis :: "nat \<Rightarrow> redis_env" where
  "spaced_redis k = redis_calm\<lparr>r_clk := (\<lambda>_. (int k + 1) * (48 * Hour))\<rparr>"

lemma lone_row_alone: "alone ''default'' lone_row (sample_db [lone_row])"
  by (simp add: alone_def sql_inv_def sql_look_def lone_row_def sample_simps)

lemma lone_store_alone: "redis_alone ''default'' lone_row lone_store"
proof -
  have inv: "redis_inv lone_store"
    using redis.inv_exec [OF redis_empty_inv, of "(OpEnqueue lone_row, redis_calm)"]
    by (simp add: lone_store_def enqueueable_def lone_row_def sample_simps)
  have "lone_store = snd (enqueue_one lone_row redis_empty)"
    by (simp add: lone_store_def redis_Enqueue_def redis_EnqueueBatch_def run_script_def redis_calm_def enqueueScript_def split_def Let_def
        redis_empty_def enqueue_one_frame lone_row_def sample_simps)
  then have "get_doc lone_store j = (if j = 1 then Some (enqueued_doc j lone_row) else get_doc redis_empty j)" for j
    using arg_cong [where f = e_doc, OF enqueue_one_entries [of lone_row redis_empty j]] by (simp add: redis_empty_def)
  moreover have "get_doc redis_empty j = None" for j by (simp add: redis_empty_def get_doc_def)
  moreover have "enqueued_doc 1 lone_row = \<lparr>doc_row = lone_row, errors_set = False\<rparr>"
    by (simp add: enqueued_doc_def marshalled_def lone_row_def sample_simps)
  ultimately have docs: "get_doc lone_store j = (if j = 1 then Some \<lparr>doc_row = lone_row, errors_set = False\<rparr> else None)" for j by simp
  have "ID lone_row = 1" "Queue lone_row = ''default''" "Tags lone_row = None" by (simp_all add: lone_row_def sample_simps)
  with inv docs show ?thesis by (auto simp: redis_alone_def redis_look_def split: if_splits)
qed

lemma claimed_store_alone: "redis_alone ''default'' (sql_claim_row MySQL 6 ''n1'' lone_row) claimed_store"
proof -
  have "waiting (State lone_row)" "Attempt lone_row < MaxAttempts lone_row" "ScheduledAt lone_row \<le> r_clk (redis_calm\<lparr>r_clk := \<lambda>_. 6\<rparr>) 0"
    by (simp_all add: lone_row_def sample_simps)
  from redis_claim_alone [OF lone_store_alone _ this, of "''n1''"]
  have "redis_alone ''default'' (redis_claim_row 6 ''n1'' lone_row) claimed_store"
    by (simp add: claimed_store_def redis_calls_def redis_calm_def)
  moreover have "redis_claim_row 6 ''n1'' lone_row = sql_claim_row MySQL 6 ''n1'' lone_row"
    by (simp add: redis_claim_row_def sql_claim_row_def push_node_def lone_row_def sample_simps)
  ultimately show ?thesis by simp
qed

text \<open>A job that fails at its first attempt and succeeds at the second.\<close>

definition flaky_job :: "('s, 'p) JobObj" where
  "flaky_job = quiet_job\<lparr>h_Handle := (\<lambda>c s. (Ret (case c_row c of Some r \<Rightarrow> if Attempt r = 2 then None else Some ErrJobTimedOut | None \<Rightarrow> None), s))\<rparr>"

lemma flaky_job_succeeds: "first_success (one_job flaky_job) (24 * Hour) ''mail'' payload 2 lim"
  by (auto simp: first_success_def worker_decodeJob_def one_job_def GetRegisteredJob_def flaky_job_def quiet_job_def run_recovered_def collectMiddlewares_def
      runFunc_def run_hook_def split: outcome.split)

lemma quiet_job_fails: "lim < g \<Longrightarrow> first_success (one_job quiet_job) (24 * Hour) ''mail'' payload g lim"
  by (auto simp: first_success_def worker_decodeJob_def one_job_def GetRegisteredJob_def quiet_job_def run_recovered_def collectMiddlewares_def
      runFunc_def run_hook_def)

end
