(* ===== verification/Delivery.thy ===== *)
theory Delivery
  imports End_To_End
begin

text \<open>
  Dispatching into a store: what \<^verbatim>\<open>Dispatch\<close> and \<^verbatim>\<open>Chain\<close> (\<^verbatim>\<open>tasker.go\<close>) need of a driver's two enqueue operations, the locale
  \<open>dispatch_store\<close>, and what they promise over any driver that gives it, proved once; then the two drivers.
\<close>


section \<open>Stores that take rows\<close>

text \<open>The fields of the row that is stored are those of the row that was sent; the store may normalise the lists, the output and an empty map.\<close>

definition keeps_row :: "JobRow \<Rightarrow> JobRow \<Rightarrow> bool" where
  "keeps_row sent stored \<longleftrightarrow>
     UUID stored = UUID sent \<and> Kind stored = Kind sent \<and> Payload stored = Payload sent \<and> Queue stored = Queue sent \<and>
     State stored = State sent \<and> Priority stored = Priority sent \<and> Attempt stored = Attempt sent \<and> MaxAttempts stored = MaxAttempts sent \<and>
     ScheduledAt stored = ScheduledAt sent \<and> CreatedAt stored = CreatedAt sent \<and> BatchID stored = BatchID sent \<and> Timeout stored = Timeout sent \<and>
     (\<forall>k v. (\<exists>m. Metadata sent = Some m \<and> m k = Some v) \<longrightarrow> (\<exists>m. Metadata stored = Some m \<and> m k = Some v))"

locale dispatch_store = job_store look inv op_of exec handed issued
  for look :: "'s \<Rightarrow> job_id \<Rightarrow> JobRow option" and inv and op_of :: "'c \<Rightarrow> driver_op" and exec and handed and issued +
  fixes single :: "'e \<Rightarrow> 's single_op" and batch :: "'e \<Rightarrow> 's batch_op"
  assumes single_stores: "inv s \<Longrightarrow> enqueueable row \<Longrightarrow> single e row s = ((None, row'), s') \<Longrightarrow>
      inv s' \<and> row' = row\<lparr>ID := ID row'\<rparr> \<and> issued s < ID row' \<and>
      (\<exists>r. look s' (ID row') = Some r \<and> ID r = ID row' \<and> keeps_row row r) \<and> (\<forall>j. j \<noteq> ID row' \<longrightarrow> look s' j = look s j)"
    and batch_stores: "inv s \<Longrightarrow> list_all enqueueable rows \<Longrightarrow> batch e rows s = ((None, rows'), s') \<Longrightarrow>
      inv s' \<and> length rows' = length rows \<and> distinct (map ID rows') \<and>
      (\<forall>k < length rows. rows' ! k = (rows ! k)\<lparr>ID := ID (rows' ! k)\<rparr> \<and> issued s < ID (rows' ! k) \<and>
         (\<exists>r. look s' (ID (rows' ! k)) = Some r \<and> ID r = ID (rows' ! k) \<and> keeps_row (rows ! k) r))"
begin

lemma dispatched:
  assumes "inv s" and sent: "Dispatch (single e) [] cfg benv job opts s = (Inr row, s')"
  obtains built stored where "buildJobRow benv job cfg opts = Inr built" "row = built\<lparr>ID := ID row\<rparr>" "issued s < ID row" "look s (ID row) = None"
    "look s' (ID row) = Some stored" "ID stored = ID row" "keeps_row built stored" "\<And>j. j \<noteq> ID row \<Longrightarrow> look s' j = look s j" "inv s'"
proof -
  obtain built where built: "buildJobRow benv job cfg opts = Inr built"
    using sent by (cases "buildJobRow benv job cfg opts") (simp_all add: Dispatch_def)
  have "single e built s = ((None, row), s')"
    using sent by (auto simp: Dispatch_def built enqueue_def send_one_def split: prod.splits option.splits)
  from single_stores [OF assms(1) buildJobRow_enqueueable [OF built] this] have stored:
    "inv s'" "row = built\<lparr>ID := ID row\<rparr>" "issued s < ID row" "\<exists>r. look s' (ID row) = Some r \<and> ID r = ID row \<and> keeps_row built r"
    "\<forall>j. j \<noteq> ID row \<longrightarrow> look s' j = look s j" by simp_all
  have "look s (ID row) = None" using look_issued [OF assms(1), of "ID row"] stored(3) by (cases "look s (ID row)") auto
  with stored built that show ?thesis by blast
qed

lemma row_with_id: "row = built\<lparr>ID := ID row\<rparr> \<Longrightarrow>
    Queue row = Queue built \<and> ScheduledAt row = ScheduledAt built \<and> MaxAttempts row = MaxAttempts built \<and> UUID row = UUID built"
  by (metis JobRow.select_convs JobRow.surjective JobRow.update_convs(1))

text \<open>What \<^verbatim>\<open>Dispatch\<close> stores waits for its scheduled time.\<close>

lemma dispatched_waits:
  assumes "inv s" and "Dispatch (single e) [] cfg benv job opts s = (Inr row, s')"
  shows "inv s' \<and> look s (ID row) = None \<and> (\<forall>j. j \<noteq> ID row \<longrightarrow> look s' j = look s j) \<and>
    (\<exists>stored. look s' (ID row) = Some stored \<and> ID stored = ID row \<and> Kind stored = j_kind job \<and> j_payload job = Inr (Payload stored) \<and>
      Queue stored = Queue row \<and> (State stored = StateAvailable \<or> State stored = StateScheduled) \<and> Attempt stored = 0 \<and>
      MaxAttempts stored = MaxAttempts row \<and> ScheduledAt stored = ScheduledAt row)"
  using assms
proof (rule dispatched)
  fix built stored
  assume built: "buildJobRow benv job cfg opts = Inr built" and row: "row = built\<lparr>ID := ID row\<rparr>" and fresh: "look s (ID row) = None"
    and stored: "look s' (ID row) = Some stored" "ID stored = ID row" "keeps_row built stored"
    and others: "\<And>j. j \<noteq> ID row \<Longrightarrow> look s' j = look s j" and inv': "inv s'"
  show ?thesis
    using row_with_id [OF row] buildJobRow_Inr(1,2,4,5) [OF built] stored fresh inv' others
    by (auto simp: keeps_row_def)
qed

text \<open>Without an attempt it waits for ever.\<close>

lemma no_attempts_never_handed:
  assumes "inv s" and "Dispatch (single e) [] cfg benv job opts s = (Inr row, s')" and "MaxAttempts row \<le> 0"
    and "calls_ok op_of cs" and "avoids op_of (ID row) {LCancel} cs"
  shows "times_handed exec handed (ID row) cs s' = 0"
proof -
  from dispatched_waits [OF assms(1,2)] obtain stored where stored: "inv s'" "look s' (ID row) = Some stored"
    "State stored = StateAvailable \<or> State stored = StateScheduled" "MaxAttempts stored \<le> Attempt stored"
    using assms(3) by auto
  from no_attempts_stuck [OF stored(1) assms(4,5) stored(2-4)] show ?thesis by simp
qed

text \<open>The jobs of a chain after the first are stored pending, under ids of their own, and stay so.\<close>

lemma chained:
  assumes "inv s" and sent: "Chain (batch e) [] cfg envs js opts s = (Inr rows, s')"
  shows "inv s' \<and> length rows = length js \<and> distinct (map ID rows) \<and>
    (\<forall>k < length rows. 0 < k \<longrightarrow> (\<exists>stored m. look s' (ID (rows ! k)) = Some stored \<and> State stored = StatePending \<and>
       Metadata stored = Some m \<and> m ''parent_id'' = Some (UUID (rows ! (k - 1)))))"
proof -
  obtain built where built: "chain_rows envs 0 None js cfg opts = Inr built"
    using sent by (cases "chain_rows envs 0 None js cfg opts") (simp_all add: Chain_def dispatch_rows_def)
  note links = chain_rows_links [OF built]
  have "batch e built s = ((None, rows), s')"
    using sent by (auto simp: Chain_def dispatch_rows_def built enqueue_def send_batch_def split: prod.splits option.splits)
  from batch_stores [OF assms(1) _ this] links have res: "inv s'" "length rows = length built" "distinct (map ID rows)"
    and each: "\<And>k. k < length built \<Longrightarrow> rows ! k = (built ! k)\<lparr>ID := ID (rows ! k)\<rparr> \<and>
      (\<exists>r. look s' (ID (rows ! k)) = Some r \<and> keeps_row (built ! k) r)" by blast+
  have "\<exists>stored m. look s' (ID (rows ! k)) = Some stored \<and> State stored = StatePending \<and>
       Metadata stored = Some m \<and> m ''parent_id'' = Some (UUID (rows ! (k - 1)))" if k: "k < length rows" "0 < k" for k
  proof -
    from each [of k] k res(2) obtain r where r: "look s' (ID (rows ! k)) = Some r" "keeps_row (built ! k) r" by auto
    have "UUID (rows ! (k - 1)) = UUID (built ! (k - 1))"
      using each [of "k - 1"] k res(2) row_with_id [of "rows ! (k - 1)" "built ! (k - 1)"] by simp
    moreover from links k res have "State (built ! k) = StatePending \<and> (\<exists>m. Metadata (built ! k) = Some m \<and> m ''parent_id'' = Some (UUID (built ! (k - 1))))"
      by auto
    ultimately show ?thesis using r by (auto simp: keeps_row_def)
  qed
  with res links show ?thesis by simp
qed

lemma chained_never_handed:
  assumes "inv s" and "Chain (batch e) [] cfg envs js opts s = (Inr rows, s')" and "0 < k" and "k < length js"
    and "calls_ok op_of cs" and "avoids op_of (ID (rows ! k)) {LCancel} cs"
  shows "(\<exists>stored. look s' (ID (rows ! k)) = Some stored \<and> State stored = StatePending) \<and>
    times_handed exec handed (ID (rows ! k)) cs s' = 0 \<and>
    (\<forall>r'. look (run_calls exec cs s') (ID (rows ! k)) = Some r' \<longrightarrow> State r' = StatePending)"
proof -
  from chained [OF assms(1,2)] assms(3,4) obtain stored where
    stored: "look s' (ID (rows ! k)) = Some stored" "State stored = StatePending" and inv: "inv s'" by auto
  from pending_stuck [OF inv assms(5,6) stored] stored show ?thesis by (simp add: life_of_eq_iff)
qed

end


section \<open>The SQL driver\<close>

lemma inserted_row_sel [simp]:
  "ID (inserted_row d i r) = i" "State (inserted_row d i r) = State r" "Attempt (inserted_row d i r) = Attempt r"
  "MaxAttempts (inserted_row d i r) = MaxAttempts r" "ScheduledAt (inserted_row d i r) = ScheduledAt r"
  "Queue (inserted_row d i r) = Queue r" "Kind (inserted_row d i r) = Kind r" "Payload (inserted_row d i r) = Payload r"
  "UUID (inserted_row d i r) = UUID r" "Metadata (inserted_row d i r) = Some (case Metadata r of None \<Rightarrow> Map.empty | Some m \<Rightarrow> m)"
  by (simp_all add: inserted_row_def)

lemma inserted_row_keeps: "keeps_row r (inserted_row d i r)"
  by (auto simp: keeps_row_def) (simp_all add: inserted_row_def)

lemma sql_single_stores:
  assumes inv: "sql_inv db" and ok: "enqueueable row" and sent: "sql_single d env row db = ((None, row'), db')"
  shows "sql_inv db' \<and> row' = row\<lparr>ID := ID row'\<rparr> \<and> last_id db < ID row' \<and>
    (\<exists>r. sql_look db' (ID row') = Some r \<and> ID r = ID row' \<and> keeps_row row r) \<and> (\<forall>j. j \<noteq> ID row' \<longrightarrow> sql_look db' j = sql_look db j)"
proof -
  obtain i where i: "insert_job d env row db = (Inr i, db')" "row' = row\<lparr>ID := i\<rparr>" and call: "snd (sql_Enqueue d env (Some row) db) = db'"
    using sent by (auto simp: sql_single_def sql_Enqueue_def split: option.splits sum.splits prod.splits if_splits)
  from i(1) have db': "jobs db' = jobs db @ [inserted_row d i row]" "last_id db < i"
    by (auto simp: insert_job_def Let_def split: if_splits)
  have "sql_look db i = None" using inv db'(2) by (auto simp: sql_look_def sql_inv_def find_key_None_iff)
  then have "sql_look db' j = (if j = i then Some (inserted_row d i row) else sql_look db j)" for j
    by (auto simp: sql_look_def db'(1) find_key_append split: option.split)
  moreover have "sql_inv db'" using sql.inv_exec [of db "(OpEnqueue row, env)" d] inv ok call by simp
  ultimately show ?thesis using i(2) db'(2) by (simp add: inserted_row_keeps)
qed

lemma sql_batch_stores:
  assumes inv: "sql_inv db" and ok: "list_all enqueueable rows" and sent: "sql_batch d env rows db = ((None, rows'), db')"
  shows "sql_inv db' \<and> length rows' = length rows \<and> distinct (map ID rows') \<and>
    (\<forall>k < length rows. rows' ! k = (rows ! k)\<lparr>ID := ID (rows' ! k)\<rparr> \<and> last_id db < ID (rows' ! k) \<and>
       (\<exists>r. sql_look db' (ID (rows' ! k)) = Some r \<and> ID r = ID (rows' ! k) \<and> keeps_row (rows ! k) r))"
proof -
  have ins: "insert_batch d env 2 rows db = (Inr rows', db')" and call: "snd (sql_EnqueueBatch d env (map Some rows) db) = db'"
    using sent by (auto simp: sql_batch_def sql_EnqueueBatch_def o_def split: prod.splits option.splits sum.splits if_splits)
  note res = insert_batch_result [OF ins]
  have inv': "sql_inv db'" using sql.inv_exec [of db "(OpEnqueueBatch rows, env)" d] inv ok call by simp
  have "rows' ! k = (rows ! k)\<lparr>ID := ID (rows' ! k)\<rparr> \<and> last_id db < ID (rows' ! k) \<and>
       (\<exists>r. sql_look db' (ID (rows' ! k)) = Some r \<and> ID r = ID (rows' ! k) \<and> keeps_row (rows ! k) r)" if k: "k < length rows" for k
  proof (intro conjI)
    from res k have "(rows' ! k)\<lparr>ID := 0\<rparr> = (rows ! k)\<lparr>ID := 0\<rparr>" by (metis nth_map)
    then show "rows' ! k = (rows ! k)\<lparr>ID := ID (rows' ! k)\<rparr>" by (cases "rows' ! k", cases "rows ! k") simp
    show "last_id db < ID (rows' ! k)" using res k by simp
    let ?stored = "inserted_row d (ID (rows' ! k)) (rows ! k)"
    have "map2 (\<lambda>r r'. inserted_row d (ID r') r) rows rows' ! k = ?stored" "k < length (map2 (\<lambda>r r'. inserted_row d (ID r') r) rows rows')"
      using k res by simp_all
    then have "?stored \<in> set (map2 (\<lambda>r r'. inserted_row d (ID r') r) rows rows')" by (metis nth_mem)
    with res have "?stored \<in> set (jobs db')" by simp
    then have "sql_look db' (ID (rows' ! k)) = Some ?stored" by (simp add: sql_look_Some_iff [OF inv'])
    then show "\<exists>r. sql_look db' (ID (rows' ! k)) = Some r \<and> ID r = ID (rows' ! k) \<and> keeps_row (rows ! k) r"
      by (simp add: inserted_row_keeps)
  qed
  moreover have "distinct (map ID rows')" using res by (simp add: strict_sorted_iff)
  ultimately show ?thesis using inv' res by simp
qed

interpretation sql_queue: dispatch_store sql_look sql_inv fst "sql_exec d" "sql_handed d" last_id "sql_single d'" "sql_batch d'" for d d'
  by unfold_locales (fact sql_single_stores sql_batch_stores)+


section \<open>The Redis driver\<close>

definition redis_single :: "redis_env \<Rightarrow> redis single_op" where
  "redis_single env row st = (case redis_Enqueue env (Some row) st of ((err, rows'), st') \<Rightarrow> ((err, the (hd rows')), st'))"

definition redis_batch :: "redis_env \<Rightarrow> redis batch_op" where
  "redis_batch env rows st = (case redis_EnqueueBatch env (map Some rows) st of ((err, rows'), st') \<Rightarrow> ((err, map the rows'), st'))"

lemma redis_EnqueueBatch_success:
  assumes "redis_EnqueueBatch env (map Some rows) st = ((None, rows'), st')" and "rows \<noteq> []"
  shows "st' = snd (enqueue_all rows st) \<and> rows' = map2 (\<lambda>r i. Some (r\<lparr>ID := i\<rparr>)) rows [r_last st + 1 ..< r_last st + 1 + length rows]"
proof -
  have js: "map the (map Some rows) = rows" by (simp add: o_def)
  have ids: "fst (enqueue_all rows st) = [r_last st + 1 ..< r_last st + 1 + length rows]" by (rule enqueue_all_ids)
  from assms show ?thesis
    by (auto simp: redis_EnqueueBatch_def run_script_def enqueueScript_def Let_def js split_def ids zip_map1 split: option.splits if_splits simp del: upt_Suc)
qed

lemma enqueued_keeps: "keeps_row r (doc_row (enqueued_doc i r))"
  by (auto simp: keeps_row_def enqueued_doc_def) (auto simp: marshalled_def)

lemma enqueued_ID: "ID (doc_row (enqueued_doc i r)) = i"
  by (simp add: enqueued_doc_def)

lemma redis_batch_stores:
  assumes inv: "redis_inv st" and ok: "list_all enqueueable rows" and sent: "redis_batch env rows st = ((None, rows'), st')"
  shows "redis_inv st' \<and> length rows' = length rows \<and> distinct (map ID rows') \<and>
    (\<forall>k < length rows. rows' ! k = (rows ! k)\<lparr>ID := ID (rows' ! k)\<rparr> \<and> r_last st < ID (rows' ! k) \<and>
       (\<exists>r. redis_look st' (ID (rows' ! k)) = Some r \<and> ID r = ID (rows' ! k) \<and> keeps_row (rows ! k) r))"
proof (cases "rows = []")
  case True
  with sent inv show ?thesis by (simp add: redis_batch_def redis_EnqueueBatch_def)
next
  case False
  obtain os where call: "redis_EnqueueBatch env (map Some rows) st = ((None, os), st')" "rows' = map the os"
    using sent by (auto simp: redis_batch_def split: prod.splits)
  note res = redis_EnqueueBatch_success [OF call(1) False]
  have ids: "map ID rows' = [r_last st + 1 ..< r_last st + 1 + length rows]"
    by (rule nth_equalityI) (simp_all add: call(2) res del: upt_Suc)
  have nth: "rows' ! k = (rows ! k)\<lparr>ID := r_last st + 1 + k\<rparr>" if "k < length rows" for k
    using that by (simp add: call(2) res del: upt_Suc)
  have "redis_inv st'" using redis.inv_exec [OF inv, of "(OpEnqueueBatch rows, env)"] ok call(1) by simp
  moreover have "length rows' = length rows" using arg_cong [OF ids, of length] by (simp del: upt_Suc)
  moreover have "distinct (map ID rows')" by (simp only: ids distinct_upt)
  moreover have "redis_look st' (r_last st + 1 + k) = Some (doc_row (enqueued_doc (r_last st + 1 + k) (rows ! k)))" if "k < length rows" for k
    using enqueue_all_docs [OF that, of st] res by (simp add: redis_look_def)
  ultimately show ?thesis using nth by (simp add: enqueued_keeps enqueued_ID)
qed

lemma redis_single_stores:
  assumes inv: "redis_inv st" and ok: "enqueueable row" and sent: "redis_single env row st = ((None, row'), st')"
  shows "redis_inv st' \<and> row' = row\<lparr>ID := ID row'\<rparr> \<and> r_last st < ID row' \<and>
    (\<exists>r. redis_look st' (ID row') = Some r \<and> ID r = ID row' \<and> keeps_row row r) \<and> (\<forall>j. j \<noteq> ID row' \<longrightarrow> redis_look st' j = redis_look st j)"
proof -
  obtain os where call: "redis_EnqueueBatch env (map Some [row]) st = ((None, os), st')" "row' = the (hd os)"
    using sent by (auto simp: redis_single_def redis_Enqueue_def split: prod.splits)
  from redis_EnqueueBatch_success [OF call(1)] call(2) have res: "st' = snd (enqueue_one row st)" "row' = row\<lparr>ID := r_last st + 1\<rparr>"
    by (auto simp: split_def Let_def)
  have docs: "get_doc st' j = (if j = r_last st + 1 then Some (enqueued_doc j row) else get_doc st j)" for j
    using arg_cong [where f = e_doc, OF enqueue_one_entries [of row st j]] by (simp add: res(1))
  have "redis_inv st'" using redis.inv_exec [OF inv, of "(OpEnqueueBatch [row], env)"] ok call(1) by simp
  then show ?thesis by (auto simp: res(2) redis_look_def docs enqueued_keeps enqueued_ID)
qed

interpretation redis_queue: dispatch_store redis_look redis_inv fst redis_exec redis_handed r_last redis_single redis_batch
  by unfold_locales (fact redis_single_stores redis_batch_stores)+


section \<open>Evaluating concrete dispatches\<close>

lemmas dispatch_simps = Dispatch_def Chain_def dispatch_rows_def buildJobRow_def link_row_def plain_job_def apply_options_def no_options_def DefaultConfig_def
  NewConfiguredManager_def NewManager_def WithDefaultQueue_def WithMaxAttempts_def WithNodeID_def enqueue_def send_one_def send_batch_def Let_def

lemmas sql_dispatch_simps = sql_single_def sql_batch_def sql_Enqueue_def sql_EnqueueBatch_def insert_job_def columns_fit_def sample_simps

lemmas redis_dispatch_simps = redis_single_def redis_batch_def redis_Enqueue_def redis_EnqueueBatch_def run_script_def redis_calm_def enqueueScript_def
  split_def enqueue_one_frame redis_empty_def empty.rep_eq lookup.rep_eq

end
