(* ===== verification/Pool.thy ===== *)
theory Pool
  imports Worker Redis_Driver
begin

text \<open>
  Pools of workers: \<^verbatim>\<open>Pool\<close> and \<^verbatim>\<open>PoolManager\<close> of \<^verbatim>\<open>pool.go\<close>, and \<^verbatim>\<open>Work\<close> and \<^verbatim>\<open>Stop\<close> of \<^verbatim>\<open>tasker.go\<close>. A worker is what its owner keeps of it: its name, its
  queue, and whether it has been told to stop (its \<^verbatim>\<open>done\<close> channel is closed). \<open>p_retired\<close> lists the workers a pool started and no longer holds.
\<close>


section \<open>Pool\<close>

record worker =
  w_id :: string
  w_queue :: queue_name
  w_done :: bool

definition newWorker :: "string \<Rightarrow> queue_name \<Rightarrow> worker" where
  "newWorker i q = \<lparr>w_id = i, w_queue = q, w_done = False\<rparr>"

definition worker_stop :: "worker \<Rightarrow> worker" where
  "worker_stop w = w\<lparr>w_done := True\<rparr>"

definition worker_name :: "node_id \<Rightarrow> queue_name \<Rightarrow> nat \<Rightarrow> string" where
  "worker_name node q i = node @ ''-'' @ q @ ''-'' @ decimal i"

text \<open>The number a text of decimal digits stands for.\<close>

definition digits_value :: "string \<Rightarrow> nat" where
  "digits_value s = foldl (\<lambda>a c. 10 * a + (of_char c - 48)) 0 s"

lemma digits_value_decimal: "digits_value (decimal n) = n"
proof (induction n rule: decimal.induct)
  case (1 n)
  have digit: "(of_char (char_of (48 + d) :: char) :: nat) - 48 = d" if "d < 10" for d :: nat
    using that by simp
  show ?case
  proof (cases "n < 10")
    case True
    then show ?thesis by (simp add: decimal.simps [of n] digits_value_def digit)
  next
    case False
    with 1 have "digits_value (decimal n) = 10 * (n div 10) + n mod 10"
      by (simp add: decimal.simps [of n] digits_value_def digit)
    then show ?thesis by simp
  qed
qed

record Pool =
  p_queue :: queue_name
  p_maxWorkers :: int
  p_workers :: "worker list"
  p_running :: bool
  p_stopped :: bool
  p_retired :: "worker list"

definition NewPool :: "queue_name \<Rightarrow> int \<Rightarrow> Pool" where
  "NewPool q maxWorkers = \<lparr>p_queue = q, p_maxWorkers = maxWorkers, p_workers = [], p_running = False, p_stopped = False, p_retired = []\<rparr>"

definition start_workers :: "node_id \<Rightarrow> queue_name \<Rightarrow> nat \<Rightarrow> nat \<Rightarrow> worker list" where
  "start_workers node q i n = map (\<lambda>k. newWorker (worker_name node q k) q) [i..<n]"

text \<open>\<^verbatim>\<open>make\<close> panics on a negative capacity, after the pool is marked as running.\<close>

definition Pool_Start :: "node_id \<Rightarrow> Pool \<Rightarrow> (error option, unit) outcome \<times> Pool" where
  "Pool_Start node p =
     (if p_running p then (Ret (Some (Errorf (''pool already running for queue '' @ p_queue p))), p)
      else let p1 = p\<lparr>p_stopped := False, p_running := True\<rparr> in
        if p_maxWorkers p < 0 then (Panic (), p1)
        else (Ret None, p1\<lparr>p_workers := start_workers node (p_queue p) 0 (nat (p_maxWorkers p)),
                p_retired := p_retired p @ p_workers p\<rparr>))"

text \<open>
  \<open>ctx_err\<close> is the error of the caller's context when it ends before every worker has been told to stop. The workers are told by goroutines
  that go on either way; waiting for one only waits until it has been told.
\<close>

definition Pool_Stop :: "error option \<Rightarrow> Pool \<Rightarrow> error option \<times> Pool" where
  "Pool_Stop ctx_err p =
     (if \<not> p_running p then (None, p)
      else let p1 = p\<lparr>p_running := False, p_workers := map worker_stop (p_workers p)\<rparr>
           in (case ctx_err of None \<Rightarrow> (None, p1\<lparr>p_stopped := True\<rparr>) | Some e \<Rightarrow> (Some e, p1)))"

definition Pool_Scale :: "node_id \<Rightarrow> int \<Rightarrow> Pool \<Rightarrow> Pool" where
  "Pool_Scale node target0 p =
     (let target = nat (if target0 < 1 then 1 else target0); current = length (p_workers p) in
      if current < target then p\<lparr>p_workers := p_workers p @ start_workers node (p_queue p) current target\<rparr>
      else if target < current
      then p\<lparr>p_workers := take target (p_workers p), p_retired := p_retired p @ map worker_stop (drop target (p_workers p))\<rparr>
      else p)"

definition Pool_WorkerCount :: "Pool \<Rightarrow> int" where
  "Pool_WorkerCount p = int (length (p_workers p))"


section \<open>PoolManager\<close>

text \<open>The pools by queue, in the order a \<^verbatim>\<open>range\<close> visits them.\<close>

type_synonym pools = "(queue_name \<times> Pool) list"

definition put_pool :: "queue_name \<Rightarrow> Pool \<Rightarrow> pools \<Rightarrow> pools" where
  "put_pool q p ps = (if map_of ps q = None then ps @ [(q, p)] else map (\<lambda>(q', p'). (q', if q' = q then p else p')) ps)"

definition drop_pool :: "queue_name \<Rightarrow> pools \<Rightarrow> pools" where
  "drop_pool q ps = filter (\<lambda>(q', _). q' \<noteq> q) ps"

definition StartPool :: "node_id \<Rightarrow> queue_name \<Rightarrow> int \<Rightarrow> pools \<Rightarrow> (error option, unit) outcome \<times> pools" where
  "StartPool node q concurrency ps =
     (case map_of ps q of
        Some _ \<Rightarrow> (Ret (Some (Errorf (''pool already exists for queue '' @ q))), ps)
      | None \<Rightarrow>
          (case Pool_Start node (NewPool q concurrency) of
             (Panic u, _) \<Rightarrow> (Panic u, ps)
           | (Ret (Some e), _) \<Rightarrow> (Ret (Some e), ps)
           | (Ret None, p) \<Rightarrow> (Ret None, put_pool q p ps)))"

definition StopPool :: "error option \<Rightarrow> queue_name \<Rightarrow> pools \<Rightarrow> error option \<times> pools" where
  "StopPool ctx_err q ps =
     (case map_of ps q of
        None \<Rightarrow> (None, ps)
      | Some p \<Rightarrow>
          (case Pool_Stop ctx_err p of
             (Some e, p') \<Rightarrow> (Some e, put_pool q p' ps)
           | (None, _) \<Rightarrow> (None, drop_pool q ps)))"

definition ScalePool :: "node_id \<Rightarrow> queue_name \<Rightarrow> int \<Rightarrow> pools \<Rightarrow> error option \<times> pools" where
  "ScalePool node q target ps =
     (case map_of ps q of
        None \<Rightarrow> (Some (Errorf (''no pool for queue '' @ q)), ps)
      | Some p \<Rightarrow> (None, put_pool q (Pool_Scale node target p) ps))"

text \<open>The loop of \<^verbatim>\<open>StopAll\<close>: stopped pools leave the map; the first error ends it.\<close>

fun StopAll :: "(queue_name \<Rightarrow> error option) \<Rightarrow> pools \<Rightarrow> error option \<times> pools" where
  "StopAll ctx_err [] = (None, [])"
| "StopAll ctx_err ((q, p) # ps) =
     (case Pool_Stop (ctx_err q) p of
        (Some e, p') \<Rightarrow> (Some e, (q, p') # ps)
      | (None, _) \<Rightarrow> StopAll ctx_err ps)"

definition WorkerCount :: "pools \<Rightarrow> int" where
  "WorkerCount ps = sum_list (map (\<lambda>(_, p). Pool_WorkerCount p) ps)"


section \<open>Manager\<close>

record manager =
  m_workers :: pools
  m_done :: bool

text \<open>\<^verbatim>\<open>Work\<close> stores the new pool before it starts it, in place of any pool of that queue.\<close>

definition Manager_Work :: "node_id \<Rightarrow> queue_name \<Rightarrow> int \<Rightarrow> manager \<Rightarrow> (error option, unit) outcome \<times> manager" where
  "Manager_Work node q concurrency m =
     (case Pool_Start node (NewPool q concurrency) of (res, p) \<Rightarrow> (res, m\<lparr>m_workers := put_pool q p (m_workers m)\<rparr>))"

fun stop_pools :: "(queue_name \<Rightarrow> error option) \<Rightarrow> pools \<Rightarrow> error option \<times> pools" where
  "stop_pools ctx_err [] = (None, [])"
| "stop_pools ctx_err ((q, p) # ps) =
     (case Pool_Stop (ctx_err q) p of
        (Some e, p') \<Rightarrow> (Some e, (q, p') # ps)
      | (None, p') \<Rightarrow> (case stop_pools ctx_err ps of (res, ps') \<Rightarrow> (res, (q, p') # ps')))"

text \<open>Closing the closed \<^verbatim>\<open>done\<close> channel panics.\<close>

definition Manager_Stop :: "(queue_name \<Rightarrow> error option) \<Rightarrow> manager \<Rightarrow> (error option, unit) outcome \<times> manager" where
  "Manager_Stop ctx_err m =
     (if m_done m then (Panic (), m)
      else case stop_pools ctx_err (m_workers m) of (res, ps) \<Rightarrow> (Ret res, m\<lparr>m_done := True, m_workers := ps\<rparr>))"


section \<open>What a pool keeps\<close>

text \<open>
  The workers a pool holds are named by their position; a worker that left the pool has been told to stop, and so have all of a pool that is not
  running.
\<close>

definition pool_ok :: "node_id \<Rightarrow> Pool \<Rightarrow> bool" where
  "pool_ok node p \<longleftrightarrow>
     map w_id (p_workers p) = map (worker_name node (p_queue p)) [0..<length (p_workers p)] \<and>
     list_all (\<lambda>w. w_queue w = p_queue p) (p_workers p) \<and>
     list_all w_done (p_retired p) \<and> (\<not> p_running p \<longrightarrow> list_all w_done (p_workers p))"

definition all_told :: "Pool \<Rightarrow> bool" where
  "all_told p \<longleftrightarrow> list_all w_done (p_workers p @ p_retired p)"

lemma worker_stop_sel [simp]: "w_id (worker_stop w) = w_id w" "w_queue (worker_stop w) = w_queue w" "w_done (worker_stop w)"
  by (simp_all add: worker_stop_def)

lemma newWorker_sel [simp]: "w_id (newWorker i q) = i" "w_queue (newWorker i q) = q" "\<not> w_done (newWorker i q)"
  by (simp_all add: newWorker_def)

lemma start_workers_sel [simp]:
  "map w_id (start_workers node q i n) = map (worker_name node q) [i..<n]" "length (start_workers node q i n) = n - i"
  "list_all (\<lambda>w. w_queue w = q) (start_workers node q i n)"
  by (simp_all add: start_workers_def list_all_iff)

lemma NewPool_sel [simp]: "p_queue (NewPool q n) = q" "p_maxWorkers (NewPool q n) = n" "\<not> p_running (NewPool q n)"
  "p_workers (NewPool q n) = []" "p_retired (NewPool q n) = []"
  by (simp_all add: NewPool_def)

lemma NewPool_ok: "pool_ok node (NewPool q n)"
  by (simp add: pool_ok_def)

lemma Pool_Start_ok: "pool_ok node p \<Longrightarrow> pool_ok node (snd (Pool_Start node p))"
  by (auto simp: pool_ok_def Pool_Start_def Let_def)

lemma Pool_Stop_ok: "pool_ok node p \<Longrightarrow> pool_ok node (snd (Pool_Stop ctx_err p))"
  by (auto simp: pool_ok_def Pool_Stop_def Let_def comp_def list_all_iff split: option.split)

lemma Pool_Stop_told: "pool_ok node p \<Longrightarrow> all_told (snd (Pool_Stop ctx_err p))"
  by (auto simp: pool_ok_def all_told_def Pool_Stop_def Let_def list_all_iff split: option.split)

lemma upt_take: "n \<le> length xs \<Longrightarrow> map f xs = map g [0..<length xs] \<Longrightarrow> map f (take n xs) = map g [0..<n]"
  by (metis add_0 diff_zero length_upt take_map take_upt)

lemma upt_extend: "map f xs = map g [0..<length xs] \<Longrightarrow> map f ys = map g [length xs..<n] \<Longrightarrow> length xs \<le> n \<Longrightarrow>
    map f (xs @ ys) = map g [0..<n]"
  by (metis le_add_diff_inverse map_append upt_add_eq_append zero_le)

lemma Pool_Scale_cases:
  obtains (more) n where "length (p_workers p) < n" "n = nat (max 1 target)"
      "Pool_Scale node target p = p\<lparr>p_workers := p_workers p @ start_workers node (p_queue p) (length (p_workers p)) n\<rparr>"
  | (fewer) n where "n < length (p_workers p)" "n = nat (max 1 target)"
      "Pool_Scale node target p = p\<lparr>p_workers := take n (p_workers p), p_retired := p_retired p @ map worker_stop (drop n (p_workers p))\<rparr>"
  | (same) "length (p_workers p) = nat (max 1 target)" "Pool_Scale node target p = p"
proof -
  define n where "n = nat (max 1 target)"
  then have n: "nat (if target < 1 then 1 else target) = n" by simp
  show ?thesis
    using more [of n] fewer [of n] same n_def unfolding Pool_Scale_def n Let_def
    by (cases "length (p_workers p) < n"; cases "n < length (p_workers p)") auto
qed

lemma Pool_Scale_ok: "pool_ok node p \<Longrightarrow> p_running p \<Longrightarrow> pool_ok node (Pool_Scale node target p)"
proof (cases rule: Pool_Scale_cases [of p target node])
  case (more n)
  assume "pool_ok node p" "p_running p"
  with more upt_extend [of w_id "p_workers p" "worker_name node (p_queue p)" "start_workers node (p_queue p) (length (p_workers p)) n" n]
  show ?thesis by (simp add: pool_ok_def)
next
  case (fewer n)
  assume "pool_ok node p" "p_running p"
  with fewer upt_take [of n "p_workers p" w_id "worker_name node (p_queue p)"]
  show ?thesis by (auto simp: pool_ok_def list_all_iff dest: in_set_takeD)
qed simp

lemma Pool_Scale_running [simp]: "p_running (Pool_Scale node target p) = p_running p" "p_queue (Pool_Scale node target p) = p_queue p"
  by (simp_all add: Pool_Scale_def Let_def)

lemma Pool_Scale_length: "length (p_workers (Pool_Scale node target p)) = nat (max 1 target)"
  by (cases rule: Pool_Scale_cases [of p target node]) auto

lemma Pool_Stop_running [simp]: "\<not> p_running (snd (Pool_Stop ctx_err p))" "p_queue (snd (Pool_Stop ctx_err p)) = p_queue p"
  by (simp_all add: Pool_Stop_def Let_def split: option.split)

lemma Pool_Start_queue [simp]: "p_queue (snd (Pool_Start node p)) = p_queue p"
  by (simp add: Pool_Start_def Let_def)

lemma Pool_Start_None: "Pool_Start node p = (Ret None, p') \<Longrightarrow> p_running p'"
  by (auto simp: Pool_Start_def Let_def split: if_splits)

end
