(* ===== verification/Leases.thy ===== *)
theory Leases
  imports Tasker_Types
begin

text \<open>
  The contract behind leader election and named locks, for which the drivers offer the same pair of
  calls: a node asks for a lease on a key for a fixed time, and may give it back. The locale states
  what a driver promises about one such call, whatever faults occur; mutual exclusion over any
  sequence of calls is proved here once. The SQL locks, the SQL leader row and the Redis keys
  interpret it.
\<close>

datatype ('e, 'k) lease_call = Acquire 'e 'k node_id | Release 'e 'k node_id

type_synonym ('e, 'k, 's) acquire_fun = "'e \<Rightarrow> 'k \<Rightarrow> node_id \<Rightarrow> 's \<Rightarrow> bool \<times> 's"
type_synonym ('e, 'k, 's) release_fun = "'e \<Rightarrow> 'k \<Rightarrow> node_id \<Rightarrow> 's \<Rightarrow> 's"

fun perform :: "('e, 'k, 's) acquire_fun \<Rightarrow> ('e, 'k, 's) release_fun \<Rightarrow> ('e, 'k) lease_call \<Rightarrow> 's \<Rightarrow> 's" where
  "perform acquire release (Acquire e k n) s = snd (acquire e k n s)"
| "perform acquire release (Release e k n) s = release e k n s"

fun call_instant :: "('e \<Rightarrow> time) \<Rightarrow> ('e, 'k) lease_call \<Rightarrow> time" where
  "call_instant instant (Acquire e k n) = instant e"
| "call_instant instant (Release e k n) = instant e"

text \<open>How often the calls of a run give \<open>k\<close> to a node other than \<open>n\<close>.\<close>

fun intrusions ::
    "('e, 'k, 's) acquire_fun \<Rightarrow> ('e, 'k, 's) release_fun \<Rightarrow> 'k \<Rightarrow> node_id \<Rightarrow> ('e, 'k) lease_call list \<Rightarrow> 's \<Rightarrow> nat" where
  "intrusions acquire release k n [] s = 0"
| "intrusions acquire release k n (c # cs) s =
     (case c of Acquire e k' m \<Rightarrow> if k' = k \<and> m \<noteq> n \<and> fst (acquire e k' m s) then 1 else 0 | Release _ _ _ \<Rightarrow> 0)
     + intrusions acquire release k n cs (perform acquire release c s)"

text \<open>A call made from instant \<open>a\<close> on and before \<open>b\<close> that is not the release of \<open>k\<close> by \<open>n\<close>.\<close>

definition leaves_alone :: "('e \<Rightarrow> time) \<Rightarrow> 'k \<Rightarrow> node_id \<Rightarrow> time \<Rightarrow> time \<Rightarrow> ('e, 'k) lease_call \<Rightarrow> bool" where
  "leaves_alone instant k n a b c \<longleftrightarrow> a \<le> call_instant instant c \<and> call_instant instant c < b \<and>
     (case c of Acquire _ _ _ \<Rightarrow> True | Release _ k' m \<Rightarrow> (k', m) \<noteq> (k, n))"

text \<open>
  \<open>holder s k t\<close> is the node whose lease on \<open>k\<close> covers instant \<open>t\<close> in state \<open>s\<close>; \<open>instant e\<close> is the time a
  call reads from the clock; \<open>e\<close> carries the faults of the call as well.
\<close>

locale lease =
  fixes holder :: "'s \<Rightarrow> 'k \<Rightarrow> time \<Rightarrow> node_id option"
    and valid :: "'s \<Rightarrow> bool"
    and instant :: "'e \<Rightarrow> time"
    and acquire :: "'e \<Rightarrow> 'k \<Rightarrow> node_id \<Rightarrow> 's \<Rightarrow> bool \<times> 's"
    and release :: "'e \<Rightarrow> 'k \<Rightarrow> node_id \<Rightarrow> 's \<Rightarrow> 's"
    and ttl :: duration
  assumes valid_acquire: "valid s \<Longrightarrow> valid (snd (acquire e k n s))"
    and valid_release: "valid s \<Longrightarrow> valid (release e k n s)"
    and granted: "valid s \<Longrightarrow> fst (acquire e k n s) \<Longrightarrow> instant e \<le> t \<Longrightarrow> t < instant e + ttl \<Longrightarrow>
      holder (snd (acquire e k n s)) k t = Some n"
    and denied: "valid s \<Longrightarrow> holder s k (instant e) = Some n \<Longrightarrow> m \<noteq> n \<Longrightarrow> \<not> fst (acquire e k m s)"
    and kept: "valid s \<Longrightarrow> holder s k t = Some n \<Longrightarrow> instant e \<le> t \<Longrightarrow> t < instant e + ttl \<Longrightarrow>
      holder (snd (acquire e k' m s)) k t = Some n"
    and release_kept: "valid s \<Longrightarrow> holder s k t = Some n \<Longrightarrow> (k', m) \<noteq> (k, n) \<Longrightarrow>
      holder (release e k' m s) k t = Some n"
begin

lemma perform_valid: "valid s \<Longrightarrow> valid (perform acquire release c s)"
  by (cases c) (simp_all add: valid_acquire valid_release)

lemma perform_keeps:
  assumes "valid s" "leaves_alone instant k n a b c" "b \<le> a + ttl" and hold: "\<And>t. a \<le> t \<Longrightarrow> t < b \<Longrightarrow> holder s k t = Some n"
    and t: "call_instant instant c \<le> t" "t < b"
  shows "holder (perform acquire release c s) k t = Some n"
proof (cases c)
  case (Acquire e k' m)
  then have "instant e \<le> t" "t < instant e + ttl" "a \<le> t"
    using assms t by (auto simp: leaves_alone_def)
  then show ?thesis using kept [OF assms(1) hold [of t]] t Acquire by simp
next
  case (Release e k' m)
  have "a \<le> t" using assms(2) t by (auto simp: leaves_alone_def)
  then show ?thesis using release_kept [OF assms(1) hold [of t]] assms(2) t Release by (simp add: leaves_alone_def)
qed

text \<open>
  Mutual exclusion: while the lease of \<open>n\<close> on \<open>k\<close> lasts, calls made at non-decreasing instants, none of which is the
  release by \<open>n\<close> itself, never give \<open>k\<close> to another node, and \<open>n\<close> still holds it afterwards.
\<close>

lemma exclusive:
  assumes "valid s" "a \<le> b" "b \<le> a + ttl" "sorted (map (call_instant instant) cs)" "list_all (leaves_alone instant k n a b) cs"
    and "\<And>t. a \<le> t \<Longrightarrow> t < b \<Longrightarrow> holder s k t = Some n"
  shows "intrusions acquire release k n cs s = 0 \<and> (\<forall>t. (\<forall>c \<in> set cs. call_instant instant c \<le> t) \<longrightarrow> a \<le> t \<longrightarrow> t < b \<longrightarrow>
    holder (fold (perform acquire release) cs s) k t = Some n)"
  using assms
proof (induction cs arbitrary: s a)
  case Nil
  then show ?case by simp
next
  case (Cons c cs)
  let ?s = "perform acquire release c s"
  have c: "leaves_alone instant k n a b c" using Cons.prems(5) by simp
  have inst: "a \<le> call_instant instant c" "call_instant instant c < b" using c by (auto simp: leaves_alone_def)
  have "list_all (leaves_alone instant k n (call_instant instant c) b) cs"
    using Cons.prems(4,5) by (auto simp: list_all_iff leaves_alone_def)
  then have IH: "intrusions acquire release k n cs ?s = 0 \<and> (\<forall>t. (\<forall>c \<in> set cs. call_instant instant c \<le> t) \<longrightarrow> call_instant instant c \<le> t \<longrightarrow> t < b \<longrightarrow>
      holder (fold (perform acquire release) cs ?s) k t = Some n)"
    using Cons.prems inst perform_keeps [OF Cons.prems(1) c Cons.prems(3,6)]
    by (intro Cons.IH) (auto simp: perform_valid)
  have "\<not> (k' = k \<and> m \<noteq> n \<and> fst (acquire e k' m s))" if "c = Acquire e k' m" for e k' m
    using denied [OF Cons.prems(1) Cons.prems(6), of e m] inst that by auto
  with IH show ?case by (auto split: lease_call.split)
qed

lemma exclusive_after_grant:
  assumes "valid s" "fst (acquire e k n s)" "0 \<le> ttl" "sorted (map (call_instant instant) cs)"
    "list_all (leaves_alone instant k n (instant e) (instant e + ttl)) cs"
  shows "intrusions acquire release k n cs (snd (acquire e k n s)) = 0 \<and>
    (\<forall>t. (\<forall>c \<in> set cs. call_instant instant c \<le> t) \<longrightarrow> instant e \<le> t \<longrightarrow> t < instant e + ttl \<longrightarrow>
      holder (fold (perform acquire release) cs (snd (acquire e k n s))) k t = Some n)"
  by (rule exclusive) (use assms granted valid_acquire in auto)

end


text \<open>
  A lease that is also handed out: a call that meets no fault is granted when the key is free or held by the caller. \<open>healthy e\<close> says that
  the call meets none.
\<close>

locale fair_lease = lease holder valid instant acquire release ttl
  for holder :: "'s \<Rightarrow> 'k \<Rightarrow> time \<Rightarrow> node_id option" and valid :: "'s \<Rightarrow> bool" and instant :: "'e \<Rightarrow> time"
    and acquire :: "'e \<Rightarrow> 'k \<Rightarrow> node_id \<Rightarrow> 's \<Rightarrow> bool \<times> 's" and release :: "'e \<Rightarrow> 'k \<Rightarrow> node_id \<Rightarrow> 's \<Rightarrow> 's" and ttl :: duration +
  fixes healthy :: "'e \<Rightarrow> bool"
  assumes free_granted: "valid s \<Longrightarrow> healthy e \<Longrightarrow> holder s k (instant e) \<in> {None, Some n} \<Longrightarrow> fst (acquire e k n s)"
begin

lemma granted_iff: "valid s \<Longrightarrow> healthy e \<Longrightarrow> fst (acquire e k n s) \<longleftrightarrow> holder s k (instant e) \<in> {None, Some n}"
  using free_granted [of s e k n] denied [of s k e _ n] by (cases "holder s k (instant e)") blast+

text \<open>While a lease lasts, exactly the calls under the holder's own id are granted.\<close>

lemma second_grant_iff:
  assumes "valid s" "fst (acquire e k n s)" "healthy e'" "instant e \<le> instant e'" "instant e' < instant e + ttl"
  shows "fst (acquire e' k m (snd (acquire e k n s))) \<longleftrightarrow> m = n"
  using granted [OF assms(1,2,4,5)] granted_iff [OF valid_acquire [OF assms(1)] assms(3)] by auto

end

end
