(* ===== verification/Sql_Cluster.thy ===== *)
theory Sql_Cluster
  imports Sql_Driver Leases
begin

text \<open>
  The node registry, the leader row and the named locks of \<^verbatim>\<open>driver/sqldriver/driver.go\<close>, and the
  interpretation of the lease contract for the last two.
\<close>


section \<open>Nodes\<close>

definition stored_node :: "Dialect \<Rightarrow> time \<Rightarrow> NodeInfo \<Rightarrow> NodeInfo" where
  "stored_node d now node = node\<lparr>
     ni_Queues := (case decodeTextArray (encodeStrings d (Some (ni_Queues node))) of None \<Rightarrow> [] | Some qs \<Rightarrow> qs),
     ni_LastHeartbeat := now\<rparr>"

definition sql_RegisterNode :: "Dialect \<Rightarrow> sql_env \<Rightarrow> NodeInfo \<Rightarrow> duration \<Rightarrow> sql_db \<Rightarrow> error option \<times> sql_db" where
  "sql_RegisterNode d env node ttl db =
     (case db_err env 0 of
        Some e \<Rightarrow> (Some e, db)
      | None \<Rightarrow>
          let row = stored_node d (clk env 0) node in
          (None, db\<lparr>nodes := (if ni_ID node \<in> ni_ID ` set (nodes db)
             then update_where (\<lambda>r. ni_ID r = ni_ID node) (\<lambda>_. row) (nodes db) else nodes db @ [row])\<rparr>))"

definition sql_DeregisterNode :: "sql_env \<Rightarrow> node_id \<Rightarrow> sql_db \<Rightarrow> error option \<times> sql_db" where
  "sql_DeregisterNode env n db =
     (case db_err env 0 of
        Some e \<Rightarrow> (Some e, db)
      | None \<Rightarrow> (None, db\<lparr>nodes := filter (\<lambda>r. ni_ID r \<noteq> n) (nodes db)\<rparr>))"

definition sql_Heartbeat :: "sql_env \<Rightarrow> node_id \<Rightarrow> duration \<Rightarrow> sql_db \<Rightarrow> error option \<times> sql_db" where
  "sql_Heartbeat env n ttl db =
     (case db_err env 0 of
        Some e \<Rightarrow> (Some e, db)
      | None \<Rightarrow>
          let p = (\<lambda>r. ni_ID r = n);
              db' = db\<lparr>nodes := update_where p (\<lambda>r. r\<lparr>ni_LastHeartbeat := clk env 0\<rparr>) (nodes db)\<rparr>
          in if count_where p (nodes db) = 0
             then (case db_err env 1 of Some e \<Rightarrow> (Some e, db') | None \<Rightarrow> (Some ErrNodeNotFound, db'))
             else (None, db'))"

definition sql_ListNodes :: "sql_env \<Rightarrow> sql_db \<Rightarrow> error + NodeInfo list" where
  "sql_ListNodes env db =
     (case db_err env 0 of Some e \<Rightarrow> Inl e | None \<Rightarrow>
      case db_err env 1 of Some e \<Rightarrow> Inl e | None \<Rightarrow>
      Inr (sort_key ni_StartedAt
        (filter (\<lambda>r. clk env 0 - NodeLivenessWindow < ni_LastHeartbeat r) (nodes db))))"


section \<open>Leader\<close>

text \<open>Database calls: 0 the update, 1 the insert, 2 the read of the current leader.\<close>

definition sql_LeaderElection ::
    "sql_env \<Rightarrow> node_id \<Rightarrow> duration \<Rightarrow> sql_db \<Rightarrow> (bool \<times> error option) \<times> sql_db" where
  "sql_LeaderElection env n ttl db =
     (let now = clk env 0; mine = \<lparr>ld_NodeID = n, ld_StartedAt = now, ld_LastHeartbeat = now\<rparr> in
      case db_err env 0 of Some e \<Rightarrow> ((False, Some e), db) | None \<Rightarrow>
      if (case leader db of None \<Rightarrow> False | Some r \<Rightarrow> ld_NodeID r = n \<or> ld_LastHeartbeat r \<le> now - ttl)
      then ((True, None), db\<lparr>leader := Some mine\<rparr>)
      else case db_err env 1 of Some e \<Rightarrow> ((False, Some e), db) | None \<Rightarrow>
      (case leader db of
         None \<Rightarrow> ((True, None), db\<lparr>leader := Some mine\<rparr>)
       | Some r \<Rightarrow>
           (case db_err env 2 of
              Some e \<Rightarrow> (([] = n, Some e), db)
            | None \<Rightarrow> ((ld_NodeID r = n, None), db))))"

definition sql_IsLeader :: "sql_env \<Rightarrow> node_id \<Rightarrow> sql_db \<Rightarrow> bool \<times> error option" where
  "sql_IsLeader env n db =
     (case db_err env 0 of
        Some e \<Rightarrow> (False, Some e)
      | None \<Rightarrow> ((case leader db of None \<Rightarrow> False
                  | Some r \<Rightarrow> ld_NodeID r = n \<and> clk env 0 - 15 * Second < ld_LastHeartbeat r), None))"

definition sql_ResignLeadership :: "sql_env \<Rightarrow> node_id \<Rightarrow> sql_db \<Rightarrow> error option \<times> sql_db" where
  "sql_ResignLeadership env n db =
     (case db_err env 0 of
        Some e \<Rightarrow> (Some e, db)
      | None \<Rightarrow> (None, case leader db of None \<Rightarrow> db | Some r \<Rightarrow> if ld_NodeID r = n then db\<lparr>leader := None\<rparr> else db))"


section \<open>Locks\<close>

text \<open>
  Database calls: 0 the renewal, 1 the removal of an expired lock, 2 the insert, which also fails on
  a lock that exists, 3 the read of its owner.
\<close>

definition sql_AcquireLock ::
    "sql_env \<Rightarrow> string \<Rightarrow> node_id \<Rightarrow> duration \<Rightarrow> sql_db \<Rightarrow> (bool \<times> error option) \<times> sql_db" where
  "sql_AcquireLock env key n ttl db =
     (let now = clk env 0; mine = (\<lambda>r. lk_Key r = key \<and> lk_NodeID r = n \<and> now < lk_ExpiresAt r) in
      case db_err env 0 of Some e \<Rightarrow> ((False, Some e), db) | None \<Rightarrow>
      if count_where mine (locks db) > 0
      then ((True, None), db\<lparr>locks := update_where mine (\<lambda>r. r\<lparr>lk_ExpiresAt := now + ttl\<rparr>) (locks db)\<rparr>)
      else case db_err env 1 of Some e \<Rightarrow> ((False, Some e), db) | None \<Rightarrow>
      let db1 = db\<lparr>locks := filter (\<lambda>r. \<not> (lk_Key r = key \<and> lk_ExpiresAt r \<le> now)) (locks db)\<rparr>;
          insert_err = (case db_err env 2 of Some e \<Rightarrow> Some e
             | None \<Rightarrow> if key \<in> lk_Key ` set (locks db1) then Some (constraint_err env) else None)
      in case insert_err of
           None \<Rightarrow> ((True, None), db1\<lparr>locks := locks db1 @ [\<lparr>lk_Key = key, lk_NodeID = n, lk_ExpiresAt = now + ttl\<rparr>]\<rparr>)
         | Some e \<Rightarrow>
             (case (db_err env 3, find_key lk_Key key (locks db1)) of
                (None, Some r) \<Rightarrow> ((lk_NodeID r = n, None), db1)
              | _ \<Rightarrow> ((False, Some e), db1)))"

definition sql_ReleaseLock :: "sql_env \<Rightarrow> string \<Rightarrow> node_id \<Rightarrow> sql_db \<Rightarrow> error option \<times> sql_db" where
  "sql_ReleaseLock env key n db =
     (case db_err env 0 of
        Some e \<Rightarrow> (Some e, db)
      | None \<Rightarrow> (None, db\<lparr>locks := filter (\<lambda>r. \<not> (lk_Key r = key \<and> lk_NodeID r = n)) (locks db)\<rparr>))"


section \<open>The lease contract\<close>

text \<open>A call grants the lease when it returns true and no error.\<close>

definition lock_acquire :: "duration \<Rightarrow> sql_env \<Rightarrow> string \<Rightarrow> node_id \<Rightarrow> sql_db \<Rightarrow> bool \<times> sql_db" where
  "lock_acquire ttl env key n db =
     (case sql_AcquireLock env key n ttl db of ((b, err), db') \<Rightarrow> (b \<and> err = None, db'))"

definition lock_release :: "sql_env \<Rightarrow> string \<Rightarrow> node_id \<Rightarrow> sql_db \<Rightarrow> sql_db" where
  "lock_release env key n db = snd (sql_ReleaseLock env key n db)"

definition lock_holder :: "sql_db \<Rightarrow> string \<Rightarrow> time \<Rightarrow> node_id option" where
  "lock_holder db key t =
     (case find_key lk_Key key (locks db) of
        None \<Rightarrow> None | Some r \<Rightarrow> if t < lk_ExpiresAt r then Some (lk_NodeID r) else None)"

definition locks_valid :: "sql_db \<Rightarrow> bool" where
  "locks_valid db \<longleftrightarrow> distinct (map lk_Key (locks db))"

abbreviation env_instant :: "sql_env \<Rightarrow> time" where "env_instant env \<equiv> clk env 0"

lemma lock_holder_SomeD:
  "lock_holder db k t = Some n \<Longrightarrow> \<exists>r. find_key lk_Key k (locks db) = Some r \<and> lk_NodeID r = n \<and> t < lk_ExpiresAt r"
  by (auto simp: lock_holder_def split: option.splits if_splits)

text \<open>The ways a request for a lock can end.\<close>

lemma lock_acquire_cases:
  fixes env ttl key n
  assumes "locks_valid db"
  defines "now \<equiv> clk env 0" and "res \<equiv> lock_acquire ttl env key n db"
  obtains (same) "\<not> fst res" "snd res = db"
  | (renewed) r where "fst res" "find_key lk_Key key (locks db) = Some r" "lk_NodeID r = n" "now < lk_ExpiresAt r"
      "locks (snd res) = update_where (\<lambda>r. lk_Key r = key \<and> lk_NodeID r = n \<and> now < lk_ExpiresAt r)
         (\<lambda>r. r\<lparr>lk_ExpiresAt := now + ttl\<rparr>) (locks db)"
  | (refused) "\<not> fst res" "locks (snd res) = filter (\<lambda>r. \<not> (lk_Key r = key \<and> lk_ExpiresAt r \<le> now)) (locks db)"
  | (inserted) "fst res" "key \<notin> lk_Key ` {r \<in> set (locks db). \<not> (lk_Key r = key \<and> lk_ExpiresAt r \<le> now)}"
      "locks (snd res) = filter (\<lambda>r. \<not> (lk_Key r = key \<and> lk_ExpiresAt r \<le> now)) (locks db) @
         [\<lparr>lk_Key = key, lk_NodeID = n, lk_ExpiresAt = now + ttl\<rparr>]"
proof (cases "db_err env 0")
  case (Some e)
  then show ?thesis by (intro same) (simp_all add: res_def lock_acquire_def sql_AcquireLock_def Let_def)
next
  case ok0: None
  let ?mine = "\<lambda>r. lk_Key r = key \<and> lk_NodeID r = n \<and> now < lk_ExpiresAt r"
  let ?locks = "filter (\<lambda>r. \<not> (lk_Key r = key \<and> lk_ExpiresAt r \<le> now)) (locks db)"
  have dist: "distinct (map lk_Key (locks db))" using assms(1) by (simp add: locks_valid_def)
  show ?thesis
  proof (cases "\<exists>r \<in> set (locks db). ?mine r")
    case hit: True
    then obtain r where r: "r \<in> set (locks db)" "?mine r" by blast
    then have "find_key lk_Key key (locks db) = Some r" using dist by (simp add: find_key_Some_iff)
    with r hit ok0 show ?thesis
      by (intro renewed [of r]) (simp_all add: res_def lock_acquire_def sql_AcquireLock_def Let_def now_def)
  next
    case False
    note none = this
    have other: "lk_NodeID r \<noteq> n" if "find_key lk_Key key ?locks = Some r" for r
      using find_key_SomeD [OF that] False by auto
    show ?thesis
    proof (cases "db_err env 1")
      case (Some e)
      with ok0 none show ?thesis
        by (intro same) (simp_all add: res_def lock_acquire_def sql_AcquireLock_def Let_def now_def)
    next
      case ok1: None
      show ?thesis
      proof (cases "db_err env 2 = None \<and> key \<notin> lk_Key ` set ?locks")
        case True
        with ok0 ok1 none show ?thesis
          by (intro inserted) (auto simp: res_def lock_acquire_def sql_AcquireLock_def Let_def now_def)
      next
        case False
        with ok0 ok1 none other show ?thesis
          by (intro refused) (auto simp: res_def lock_acquire_def sql_AcquireLock_def Let_def now_def split: option.split)
      qed
    qed
  qed
qed

lemma lock_holder_update:
  assumes "lock_holder db k t = Some n" "t < now + ttl"
    and "locks db' = update_where (\<lambda>r. lk_Key r = key \<and> lk_NodeID r = m \<and> now < lk_ExpiresAt r)
      (\<lambda>r. r\<lparr>lk_ExpiresAt := now + ttl\<rparr>) (locks db)"
  shows "lock_holder db' k t = Some n"
  using lock_holder_SomeD [OF assms(1)] assms(2)
  by (auto simp: lock_holder_def assms(3) find_key_update_where)

lemma lock_holder_purge:
  assumes "locks_valid db" "lock_holder db k t = Some n" "now \<le> t"
    and "locks db' = filter (\<lambda>r. \<not> (lk_Key r = key \<and> lk_ExpiresAt r \<le> now)) (locks db) @ rest"
  shows "lock_holder db' k t = Some n"
  using lock_holder_SomeD [OF assms(2)] assms(1,3)
  by (auto simp: lock_holder_def assms(4) find_key_append find_key_filter locks_valid_def)

interpretation lock: lease lock_holder locks_valid env_instant "lock_acquire ttl" lock_release ttl for ttl
proof unfold_locales
  fix s :: sql_db and e :: sql_env and k k' :: string and n m :: node_id and t :: time
  show "locks_valid (snd (lock_acquire ttl e k n s))" if "locks_valid s"
    using that
    by (cases rule: lock_acquire_cases [OF that, of ttl e k n])
      (auto simp: locks_valid_def map_update_where distinct_map_filter image_iff)
  show "locks_valid s \<Longrightarrow> locks_valid (lock_release e k n s)"
    by (auto simp: lock_release_def sql_ReleaseLock_def locks_valid_def distinct_map_filter split: option.split)
  show "lock_holder (snd (lock_acquire ttl e k n s)) k t = Some n"
    if "locks_valid s" "fst (lock_acquire ttl e k n s)" "env_instant e \<le> t" "t < env_instant e + ttl"
    using that
    by (cases rule: lock_acquire_cases [OF that(1), of ttl e k n])
      (auto simp: lock_holder_def find_key_update_where find_key_append find_key_None_iff split: option.split,
        (force simp: find_key_None_iff dest!: find_key_SomeD)+)
  show "\<not> fst (lock_acquire ttl e k m s)"
    if "locks_valid s" "lock_holder s k (env_instant e) = Some n" "m \<noteq> n"
    using lock_holder_SomeD [OF that(2)] that
    by (cases rule: lock_acquire_cases [OF that(1), of ttl e k m]) (auto dest!: find_key_SomeD)
  show "lock_holder (snd (lock_acquire ttl e k' m s)) k t = Some n"
    if "locks_valid s" "lock_holder s k t = Some n" "env_instant e \<le> t" "t < env_instant e + ttl"
    using that(1)
  proof (cases rule: lock_acquire_cases [where ttl = ttl and env = e and key = k' and n = m])
    case same
    with that show ?thesis by simp
  next
    case (renewed r)
    show ?thesis by (rule lock_holder_update [OF that(2,4) renewed(5)])
  next
    case refused
    show ?thesis by (rule lock_holder_purge [OF that(1-3), where rest = "[]"]) (simp add: refused)
  next
    case inserted
    show ?thesis by (rule lock_holder_purge [OF that(1-3) inserted(3)])
  qed
  show "lock_holder (lock_release e k' m s) k t = Some n"
    if "locks_valid s" "lock_holder s k t = Some n" "(k', m) \<noteq> (k, n)"
    using lock_holder_SomeD [OF that(2)] that
    by (auto simp: lock_release_def sql_ReleaseLock_def lock_holder_def find_key_filter locks_valid_def
        dest: find_key_SomeD split: option.split)
qed

text \<open>The leader row is a lease on a single key.\<close>

definition leader_acquire :: "duration \<Rightarrow> sql_env \<Rightarrow> unit \<Rightarrow> node_id \<Rightarrow> sql_db \<Rightarrow> bool \<times> sql_db" where
  "leader_acquire ttl env u n db =
     (case sql_LeaderElection env n ttl db of ((b, err), db') \<Rightarrow> (b \<and> err = None, db'))"

definition leader_release :: "sql_env \<Rightarrow> unit \<Rightarrow> node_id \<Rightarrow> sql_db \<Rightarrow> sql_db" where
  "leader_release env u n db = snd (sql_ResignLeadership env n db)"

definition leader_holder :: "duration \<Rightarrow> sql_db \<Rightarrow> unit \<Rightarrow> time \<Rightarrow> node_id option" where
  "leader_holder ttl db u t =
     (case leader db of None \<Rightarrow> None | Some r \<Rightarrow> if t < ld_LastHeartbeat r + ttl then Some (ld_NodeID r) else None)"

interpretation leader: lease "leader_holder ttl" "\<lambda>_. True" env_instant "leader_acquire ttl" leader_release ttl for ttl
  by unfold_locales
    (auto simp: leader_holder_def leader_acquire_def leader_release_def sql_LeaderElection_def sql_ResignLeadership_def
      Let_def split: option.splits if_splits)

end
