(* ===== verification/Redis_Cluster.thy ===== *)
theory Redis_Cluster
  imports Redis_Driver Leases
begin

text \<open>
  The node registry, leader election and named locks of \<^verbatim>\<open>driver/redisdriver/driver.go\<close>: keys with an
  expiry. Instants here are the server's clock in milliseconds; a key whose expiry has passed reads
  as absent. The lease contract is interpreted for leader and lock keys alike, for both go through the
  same two scripts.
\<close>

datatype lease_key = LeaderKey | LockKey string

record redis_keys =
  k_lease :: "lease_key \<Rightarrow> (node_id \<times> int) option"
  k_node :: "node_id \<Rightarrow> (NodeInfo \<times> int) option"
  k_nodes :: "node_id list"

text \<open>
  What decides one call: the server's clock, the caller's clock, a fault before the script runs or after it ran,
  and faults of the reads of a listing (the \<open>k\<close>-th read).
\<close>

record cluster_env =
  srv_ms :: int
  wall :: time
  c_pre :: "error option"
  c_post :: "error option"
  c_read :: "nat \<Rightarrow> error option"

definition live :: "int \<Rightarrow> ('a \<times> int) option \<Rightarrow> 'a option" where
  "live now entry = (case entry of None \<Rightarrow> None | Some (v, expires) \<Rightarrow> if now \<le> expires then Some v else None)"

definition run_cluster ::
    "cluster_env \<Rightarrow> (redis_keys \<Rightarrow> 'a \<times> redis_keys) \<Rightarrow> redis_keys \<Rightarrow> (error + 'a) \<times> redis_keys" where
  "run_cluster env script st =
     (case c_pre env of
        Some e \<Rightarrow> (Inl e, st)
      | None \<Rightarrow> (let (reply, st') = script st in
                 case c_post env of Some e \<Rightarrow> (Inl e, st') | None \<Rightarrow> (Inr reply, st')))"


section \<open>Leader election and locks\<close>

definition renewScript :: "int \<Rightarrow> lease_key \<Rightarrow> node_id \<Rightarrow> int \<Rightarrow> redis_keys \<Rightarrow> nat \<times> redis_keys" where
  "renewScript now key n ms st =
     (case live now (k_lease st key) of
        None \<Rightarrow> (1, st\<lparr>k_lease := (k_lease st)(key \<mapsto> (n, now + ms))\<rparr>)
      | Some owner \<Rightarrow>
          if owner = n then (1, st\<lparr>k_lease := (k_lease st)(key \<mapsto> (owner, now + ms))\<rparr>) else (0, st))"

definition ownerDeleteScript :: "int \<Rightarrow> lease_key \<Rightarrow> node_id \<Rightarrow> redis_keys \<Rightarrow> nat \<times> redis_keys" where
  "ownerDeleteScript now key n st =
     (if live now (k_lease st key) = Some n then (1, st\<lparr>k_lease := (k_lease st)(key := None)\<rparr>) else (0, st))"

definition renew :: "cluster_env \<Rightarrow> lease_key \<Rightarrow> node_id \<Rightarrow> duration \<Rightarrow> redis_keys \<Rightarrow> (bool \<times> error option) \<times> redis_keys" where
  "renew env key n ttl st =
     (case run_cluster env (renewScript (srv_ms env) key n (ttlMillis ttl)) st of
        (Inl e, st') \<Rightarrow> ((False, Some e), st')
      | (Inr reply, st') \<Rightarrow> ((reply = 1, None), st'))"

definition owner_delete :: "cluster_env \<Rightarrow> lease_key \<Rightarrow> node_id \<Rightarrow> redis_keys \<Rightarrow> error option \<times> redis_keys" where
  "owner_delete env key n st =
     (case run_cluster env (ownerDeleteScript (srv_ms env) key n) st of
        (Inl e, st') \<Rightarrow> (Some e, st') | (Inr _, st') \<Rightarrow> (None, st'))"

definition redis_LeaderElection :: "cluster_env \<Rightarrow> node_id \<Rightarrow> duration \<Rightarrow> redis_keys \<Rightarrow> (bool \<times> error option) \<times> redis_keys" where
  "redis_LeaderElection env n ttl st = renew env LeaderKey n ttl st"

definition redis_IsLeader :: "cluster_env \<Rightarrow> node_id \<Rightarrow> redis_keys \<Rightarrow> bool \<times> error option" where
  "redis_IsLeader env n st =
     (case c_pre env of
        Some e \<Rightarrow> ([] = n, Some e)
      | None \<Rightarrow> (case live (srv_ms env) (k_lease st LeaderKey) of None \<Rightarrow> (False, None) | Some v \<Rightarrow> (v = n, None)))"

definition redis_ResignLeadership :: "cluster_env \<Rightarrow> node_id \<Rightarrow> redis_keys \<Rightarrow> error option \<times> redis_keys" where
  "redis_ResignLeadership env n st = owner_delete env LeaderKey n st"

definition redis_AcquireLock ::
    "cluster_env \<Rightarrow> string \<Rightarrow> node_id \<Rightarrow> duration \<Rightarrow> redis_keys \<Rightarrow> (bool \<times> error option) \<times> redis_keys" where
  "redis_AcquireLock env key n ttl st = renew env (LockKey key) n ttl st"

definition redis_ReleaseLock :: "cluster_env \<Rightarrow> string \<Rightarrow> node_id \<Rightarrow> redis_keys \<Rightarrow> error option \<times> redis_keys" where
  "redis_ReleaseLock env key n st = owner_delete env (LockKey key) n st"


section \<open>Nodes\<close>

definition registerNodeScript :: "int \<Rightarrow> NodeInfo \<Rightarrow> int \<Rightarrow> redis_keys \<Rightarrow> nat \<times> redis_keys" where
  "registerNodeScript now node ms st =
     (1, st\<lparr>k_node := (k_node st)(ni_ID node \<mapsto> (node, now + ms)),
            k_nodes := (if ni_ID node \<in> set (k_nodes st) then k_nodes st else k_nodes st @ [ni_ID node])\<rparr>)"

definition redis_RegisterNode :: "cluster_env \<Rightarrow> NodeInfo \<Rightarrow> duration \<Rightarrow> redis_keys \<Rightarrow> error option \<times> redis_keys" where
  "redis_RegisterNode env node ttl st =
     (case run_cluster env (registerNodeScript (srv_ms env) (node\<lparr>ni_LastHeartbeat := wall env\<rparr>) (ttlMillis ttl)) st of
        (Inl e, st') \<Rightarrow> (Some e, st') | (Inr _, st') \<Rightarrow> (None, st'))"

definition redis_DeregisterNode :: "cluster_env \<Rightarrow> node_id \<Rightarrow> redis_keys \<Rightarrow> error option \<times> redis_keys" where
  "redis_DeregisterNode env n st =
     (case run_cluster env (\<lambda>st. ((), st\<lparr>k_node := (k_node st)(n := None), k_nodes := filter (\<lambda>m. m \<noteq> n) (k_nodes st)\<rparr>)) st of
        (Inl e, st') \<Rightarrow> (Some e, st') | (Inr _, st') \<Rightarrow> (None, st'))"

definition heartbeatScript :: "int \<Rightarrow> node_id \<Rightarrow> time \<Rightarrow> int \<Rightarrow> redis_keys \<Rightarrow> nat \<times> redis_keys" where
  "heartbeatScript now n at ms st =
     (case live now (k_node st n) of
        None \<Rightarrow> (0, st)
      | Some node \<Rightarrow> (1, st\<lparr>k_node := (k_node st)(n \<mapsto> (node\<lparr>ni_LastHeartbeat := at\<rparr>, now + ms))\<rparr>))"

definition redis_Heartbeat :: "cluster_env \<Rightarrow> node_id \<Rightarrow> duration \<Rightarrow> redis_keys \<Rightarrow> error option \<times> redis_keys" where
  "redis_Heartbeat env n ttl st =
     (case run_cluster env (heartbeatScript (srv_ms env) n (wall env) (ttlMillis ttl)) st of
        (Inl e, st') \<Rightarrow> (Some e, st')
      | (Inr reply, st') \<Rightarrow> (if reply = 0 then Some ErrNodeNotFound else None, st'))"

text \<open>The loop of \<^verbatim>\<open>ListNodes\<close> over the members: the nodes found and the members whose key has expired.\<close>

fun read_nodes :: "cluster_env \<Rightarrow> nat \<Rightarrow> node_id list \<Rightarrow> redis_keys \<Rightarrow> error + NodeInfo list \<times> node_id list" where
  "read_nodes env k [] st = Inr ([], [])"
| "read_nodes env k (n # ns) st =
     (case c_read env k of
        Some e \<Rightarrow> Inl e
      | None \<Rightarrow>
          (case read_nodes env (k + 1) ns st of
             Inl e \<Rightarrow> Inl e
           | Inr (found, stale) \<Rightarrow>
               (case live (srv_ms env) (k_node st n) of
                  None \<Rightarrow> Inr (found, n # stale)
                | Some node \<Rightarrow> Inr (node # found, stale))))"

definition redis_ListNodes :: "cluster_env \<Rightarrow> redis_keys \<Rightarrow> (error + NodeInfo list) \<times> redis_keys" where
  "redis_ListNodes env st =
     (case c_pre env of
        Some e \<Rightarrow> (Inl e, st)
      | None \<Rightarrow>
          (case read_nodes env 0 (k_nodes st) st of
             Inl e \<Rightarrow> (Inl e, st)
           | Inr (found, stale) \<Rightarrow>
               (Inr (sort_key ni_StartedAt found),
                if stale \<noteq> [] \<and> c_post env = None
                then st\<lparr>k_nodes := filter (\<lambda>n. n \<notin> set stale) (k_nodes st)\<rparr> else st)))"


section \<open>The lease contract\<close>

definition key_acquire :: "duration \<Rightarrow> cluster_env \<Rightarrow> lease_key \<Rightarrow> node_id \<Rightarrow> redis_keys \<Rightarrow> bool \<times> redis_keys" where
  "key_acquire ttl env key n st =
     (case (case key of LeaderKey \<Rightarrow> redis_LeaderElection env n ttl st | LockKey k \<Rightarrow> redis_AcquireLock env k n ttl st) of
        ((b, err), st') \<Rightarrow> (b \<and> err = None, st'))"

definition key_release :: "cluster_env \<Rightarrow> lease_key \<Rightarrow> node_id \<Rightarrow> redis_keys \<Rightarrow> redis_keys" where
  "key_release env key n st =
     snd (case key of LeaderKey \<Rightarrow> redis_ResignLeadership env n st | LockKey k \<Rightarrow> redis_ReleaseLock env k n st)"

definition key_holder :: "redis_keys \<Rightarrow> lease_key \<Rightarrow> time \<Rightarrow> node_id option" where
  "key_holder st key t = live t (k_lease st key)"

lemma key_acquire_renew: "key_acquire ttl env key n st = (case renew env key n ttl st of ((b, err), st') \<Rightarrow> (b \<and> err = None, st'))"
  by (cases key) (simp_all add: key_acquire_def redis_LeaderElection_def redis_AcquireLock_def)

lemma key_release_delete: "key_release env key n st = snd (owner_delete env key n st)"
  by (cases key) (simp_all add: key_release_def redis_ResignLeadership_def redis_ReleaseLock_def)

interpretation rkey: lease key_holder "\<lambda>_. True" srv_ms "key_acquire ttl" key_release "ttlMillis ttl" for ttl
  by unfold_locales
    (auto simp: key_holder_def key_acquire_renew key_release_delete renew_def owner_delete_def run_cluster_def renewScript_def
      ownerDeleteScript_def live_def split: option.splits prod.splits if_splits)

lemma ttlMillis_pos: "1 \<le> ttlMillis ttl"
  by (simp add: ttlMillis_def Let_def)

end
