(* ===== verification/Queries.thy ===== *)
theory Queries
  imports Complex_Main Sql_Cluster Redis_Cluster "HOL-Library.List_Lexorder"
begin

text \<open>
  Listing and statistics: \<^verbatim>\<open>QueryJobs\<close>, \<^verbatim>\<open>QueueStats\<close>, \<^verbatim>\<open>GlobalStats\<close> and \<^verbatim>\<open>JobStats\<close> of both drivers. Averages are exact
  quotients here where the code has \<^verbatim>\<open>float64\<close>. The SQL driver builds its query text from numbered placeholders and a list
  of arguments; the model builds the conditions with the same numbers and evaluates them against the arguments.
\<close>


section \<open>Results\<close>

record QueueStats =
  qs_Queue :: queue_name
  qs_Available :: int
  qs_Running :: int
  qs_Completed :: int
  qs_Failed :: int
  qs_Retryable :: int
  qs_Scheduled :: int
  qs_AvgRuntimeMs :: rat
  qs_ThroughputPerMin :: int
  qs_WaitTimeMs :: rat

record GlobalStats =
  gs_Status :: string
  gs_JobsPerMinute :: int
  gs_Processes :: int
  gs_FailedJobs :: int
  gs_RecentJobs :: int
  gs_PausedMasters :: int

record JobTypeStats =
  js_Kind :: string
  js_Throughput :: int
  js_AvgRuntimeMs :: rat
  js_FailedCount :: int
  js_TotalCount :: int
  js_Samples :: int

text \<open>The sum over the number, zero when there are none.\<close>

definition average :: "rat list \<Rightarrow> rat" where
  "average xs = (if xs = [] then 0 else sum_list xs / of_nat (length xs))"


section \<open>Redis: listing\<close>

definition lower_char :: "char \<Rightarrow> char" where
  "lower_char c = (if CHR ''A'' \<le> c \<and> c \<le> CHR ''Z'' then char_of (of_char c + (32 :: nat)) else c)"

definition to_lower :: "string \<Rightarrow> string" where
  "to_lower s = map lower_char s"

fun is_prefix_of :: "string \<Rightarrow> string \<Rightarrow> bool" where
  "is_prefix_of [] t = True"
| "is_prefix_of (c # s) [] = False"
| "is_prefix_of (c # s) (c' # t) = (c = c' \<and> is_prefix_of s t)"

fun strings_Contains :: "string \<Rightarrow> string \<Rightarrow> bool" where
  "strings_Contains [] sub = (sub = [])"
| "strings_Contains (c # t) sub = (is_prefix_of sub (c # t) \<or> strings_Contains t sub)"

definition tag_list :: "JobRow \<Rightarrow> string list" where
  "tag_list r = (case Tags r of None \<Rightarrow> [] | Some ts \<Rightarrow> ts)"

text \<open>\<open>lower\<close> is \<^verbatim>\<open>strings.ToLower\<close>; \<open>to_lower\<close> is what it does to ASCII text.\<close>

definition matchesFilter :: "(string \<Rightarrow> string) \<Rightarrow> JobRow \<Rightarrow> JobFilter \<Rightarrow> bool" where
  "matchesFilter lower job f \<longleftrightarrow>
     (if jf_States f \<noteq> [] \<and> State job \<notin> set (jf_States f) then False
      else if jf_Queues f \<noteq> [] \<and> Queue job \<notin> set (jf_Queues f) then False
      else if jf_Kinds f \<noteq> [] \<and> Kind job \<notin> set (jf_Kinds f) then False
      else if \<not> list_all (\<lambda>tag. tag \<in> set (tag_list job)) (jf_Tags f) then False
      else let search = lower (jf_Search f) in
        search = [] \<or> strings_Contains (lower (Kind job)) search \<or> strings_Contains (lower (UUID job)) search)"

text \<open>
  The comparison of one column as the order of a list of integers: a number is the list of itself, a string the list of its bytes.
\<close>

definition bytes_key :: "string \<Rightarrow> int list" where
  "bytes_key s = map of_char s"

definition redis_column :: "string \<Rightarrow> JobRow \<Rightarrow> int list" where
  "redis_column orderBy r =
     (if orderBy = ''id'' then [int (ID r)]
      else if orderBy = ''uuid'' then bytes_key (UUID r)
      else if orderBy = ''queue'' then bytes_key (Queue r)
      else if orderBy = ''kind'' then bytes_key (Kind r)
      else if orderBy = ''state'' then bytes_key (string_of_state (State r))
      else if orderBy = ''priority'' then [Priority r]
      else if orderBy = ''attempt'' then [Attempt r]
      else if orderBy = ''scheduled_at'' then [ScheduledAt r]
      else [CreatedAt r])"

text \<open>A stable sort in descending order of a key.\<close>

definition sort_desc :: "('a \<Rightarrow> 'b::linorder) \<Rightarrow> 'a list \<Rightarrow> 'a list" where
  "sort_desc f xs = rev (sort_key f (rev xs))"

definition sortJobs :: "(string \<Rightarrow> string) \<Rightarrow> string \<Rightarrow> string \<Rightarrow> JobRow list \<Rightarrow> JobRow list" where
  "sortJobs lower orderBy order js =
     (let key = (\<lambda>r. (redis_column orderBy r, ID r)) in
      if lower order \<noteq> ''asc'' then sort_desc key js else sort_key key js)"

definition allJobs :: "redis_env \<Rightarrow> redis \<Rightarrow> error + JobRow list" where
  "allJobs env st =
     (case get_err env of Some e \<Rightarrow> Inl e | None \<Rightarrow> decodeJobs env (map snd (DAList.impl_of (r_jobs st))))"

text \<open>
  The page of a sorted listing: \<^verbatim>\<open>filtered[offset:end]\<close>, with \<^verbatim>\<open>end\<close> computed in 64 bits; a slice whose end lies before its start
  panics.
\<close>

definition redis_page :: "int \<Rightarrow> int \<Rightarrow> JobRow list \<Rightarrow> (JobRow list, unit) outcome" where
  "redis_page mx off rows =
     (let mx1 = (if mx \<le> 0 then 50 else mx); off1 = (if off < 0 then 0 else off); n = int (length rows) in
      if n \<le> off1 then Ret []
      else let end0 = int64 (off1 + mx1); end1 = (if n < end0 then n else end0)
           in if end1 < off1 then Panic () else Ret (take (nat (end1 - off1)) (drop (nat off1) rows)))"

definition redis_QueryJobs ::
    "(string \<Rightarrow> string) \<Rightarrow> redis_env \<Rightarrow> JobFilter \<Rightarrow> redis \<Rightarrow> (error + JobRow list \<times> int, unit) outcome" where
  "redis_QueryJobs lower env f st =
     (case allJobs env st of
        Inl e \<Rightarrow> Ret (Inl e)
      | Inr js \<Rightarrow>
          let filtered = filter (\<lambda>j. matchesFilter lower j f) js;
              total = int (length filtered)
          in (case redis_page (jf_Limit f) (jf_Offset f) (sortJobs lower (jf_OrderBy f) (jf_Order f) filtered) of
                Panic u \<Rightarrow> Panic u | Ret page \<Rightarrow> Ret (Inr (page, total))))"


section \<open>Redis: statistics\<close>

definition millis :: "duration \<Rightarrow> int" where
  "millis d = (if 0 \<le> d then d div Millisecond else - ((- d) div Millisecond))"

text \<open>One step of the loop of \<^verbatim>\<open>QueueStats\<close>: the counters, and the samples of runtimes and waits collected so far.\<close>

definition queue_stats_step :: "time \<Rightarrow> JobRow \<Rightarrow> QueueStats \<times> rat list \<times> rat list \<Rightarrow> QueueStats \<times> rat list \<times> rat list" where
  "queue_stats_step now job acc =
     (case acc of (stats, runtimes, waits) \<Rightarrow>
        if Queue job \<noteq> qs_Queue stats then acc
        else
          let s1 = (case State job of
                StateAvailable \<Rightarrow> stats\<lparr>qs_Available := qs_Available stats + 1\<rparr>
              | StateRunning \<Rightarrow> stats\<lparr>qs_Running := qs_Running stats + 1\<rparr>
              | StateCompleted \<Rightarrow> stats\<lparr>qs_Completed := qs_Completed stats + 1\<rparr>
              | StateFailed \<Rightarrow> stats\<lparr>qs_Failed := qs_Failed stats + 1\<rparr>
              | StateRetryable \<Rightarrow> stats\<lparr>qs_Retryable := qs_Retryable stats + 1\<rparr>
              | StateScheduled \<Rightarrow> stats\<lparr>qs_Scheduled := qs_Scheduled stats + 1\<rparr>
              | StatePending \<Rightarrow> stats\<lparr>qs_Scheduled := qs_Scheduled stats + 1\<rparr>
              | _ \<Rightarrow> stats);
              waits' = (case StartedAt job of None \<Rightarrow> waits | Some t \<Rightarrow> waits @ [of_int (millis (t - CreatedAt job))]);
              runtimes' = (case (StartedAt job, CompletedAt job) of
                  (Some t, Some t') \<Rightarrow> runtimes @ [of_int (millis (t' - t))] | _ \<Rightarrow> runtimes);
              s2 = (if now - Minute < CreatedAt job then s1\<lparr>qs_ThroughputPerMin := qs_ThroughputPerMin s1 + 1\<rparr> else s1)
          in (s2, runtimes', waits'))"

definition zero_queue_stats :: "queue_name \<Rightarrow> QueueStats" where
  "zero_queue_stats q = \<lparr>qs_Queue = q, qs_Available = 0, qs_Running = 0, qs_Completed = 0, qs_Failed = 0, qs_Retryable = 0,
     qs_Scheduled = 0, qs_AvgRuntimeMs = 0, qs_ThroughputPerMin = 0, qs_WaitTimeMs = 0\<rparr>"

definition redis_QueueStats :: "redis_env \<Rightarrow> queue_name \<Rightarrow> redis \<Rightarrow> error + QueueStats" where
  "redis_QueueStats env q st =
     (case allJobs env st of
        Inl e \<Rightarrow> Inl e
      | Inr js \<Rightarrow>
          (case fold (queue_stats_step (r_clk env 0)) js (zero_queue_stats q, [], []) of (stats, runtimes, waits) \<Rightarrow>
             Inr (stats\<lparr>qs_AvgRuntimeMs := average runtimes, qs_WaitTimeMs := average waits\<rparr>)))"

definition finished_since :: "time \<Rightarrow> JobRow \<Rightarrow> bool" where
  "finished_since t job \<longleftrightarrow> (case FinalizedAt job of None \<Rightarrow> False | Some f \<Rightarrow> t < f) \<and>
     (State job = StateCompleted \<or> State job = StateFailed)"

definition global_stats_step :: "time \<Rightarrow> JobRow \<Rightarrow> GlobalStats \<Rightarrow> GlobalStats" where
  "global_stats_step now job s0 =
     (let s1 = (if now - Hour < CreatedAt job then s0\<lparr>gs_RecentJobs := gs_RecentJobs s0 + 1\<rparr> else s0);
          s2 = (if State job = StateFailed then s1\<lparr>gs_FailedJobs := gs_FailedJobs s1 + 1\<rparr> else s1)
      in if finished_since (now - Minute) job then s2\<lparr>gs_JobsPerMinute := gs_JobsPerMinute s2 + 1\<rparr> else s2)"

definition zero_global_stats :: GlobalStats where
  "zero_global_stats = \<lparr>gs_Status = ''running'', gs_JobsPerMinute = 0, gs_Processes = 0, gs_FailedJobs = 0, gs_RecentJobs = 0,
     gs_PausedMasters = 0\<rparr>"

definition redis_GlobalStats ::
    "redis_env \<Rightarrow> cluster_env \<Rightarrow> redis \<Rightarrow> redis_keys \<Rightarrow> (error + GlobalStats) \<times> redis_keys" where
  "redis_GlobalStats env cenv st keys =
     (case allJobs env st of
        Inl e \<Rightarrow> (Inl e, keys)
      | Inr js \<Rightarrow>
          let stats = fold (global_stats_step (r_clk env 0)) js zero_global_stats
          in (case redis_ListNodes cenv keys of
                (Inl _, keys') \<Rightarrow> (Inr (stats\<lparr>gs_Processes := 0\<rparr>), keys')
              | (Inr ns, keys') \<Rightarrow> (Inr (stats\<lparr>gs_Processes := int (length ns)\<rparr>), keys')))"

definition job_stats_step :: "time \<Rightarrow> JobRow \<Rightarrow> JobTypeStats \<times> rat list \<Rightarrow> JobTypeStats \<times> rat list" where
  "job_stats_step now job acc =
     (case acc of (stats, runtimes) \<Rightarrow>
        if Kind job \<noteq> js_Kind stats then acc
        else
          let s1 = stats\<lparr>js_TotalCount := js_TotalCount stats + 1\<rparr>;
              s2 = (if State job = StateFailed then s1\<lparr>js_FailedCount := js_FailedCount s1 + 1\<rparr> else s1);
              s3 = (if now - Minute < CreatedAt job then s2\<lparr>js_Throughput := js_Throughput s2 + 1\<rparr> else s2)
          in (case (StartedAt job, CompletedAt job) of
                (Some t, Some t') \<Rightarrow> (s3\<lparr>js_Samples := js_Samples s3 + 1\<rparr>, runtimes @ [of_int (millis (t' - t))])
              | _ \<Rightarrow> (s3, runtimes)))"

definition redis_JobStats :: "redis_env \<Rightarrow> string \<Rightarrow> redis \<Rightarrow> error + JobTypeStats" where
  "redis_JobStats env kind st =
     (case allJobs env st of
        Inl e \<Rightarrow> Inl e
      | Inr js \<Rightarrow>
          (case fold (job_stats_step (r_clk env 0)) js
                  (\<lparr>js_Kind = kind, js_Throughput = 0, js_AvgRuntimeMs = 0, js_FailedCount = 0, js_TotalCount = 0, js_Samples = 0\<rparr>, []) of
             (stats, runtimes) \<Rightarrow> Inr (stats\<lparr>js_AvgRuntimeMs := average runtimes\<rparr>)))"


section \<open>SQL: conditions, placeholders, arguments\<close>

datatype column = ColState | ColQueue | ColKind

datatype condition = CondIn column "nat list" | CondSearch nat nat | CondTag nat

record query_build =
  qb_conditions :: "condition list"
  qb_args :: "string list"
  qb_argIdx :: nat

text \<open>The loop that gives every value its placeholder.\<close>

fun number_values :: "string list \<Rightarrow> query_build \<Rightarrow> nat list \<times> query_build" where
  "number_values [] b = ([], b)"
| "number_values (v # vs) b =
     (case number_values vs (b\<lparr>qb_args := qb_args b @ [v], qb_argIdx := qb_argIdx b + 1\<rparr>) of (ks, b') \<Rightarrow> (qb_argIdx b # ks, b'))"

definition add_in :: "column \<Rightarrow> string list \<Rightarrow> query_build \<Rightarrow> query_build" where
  "add_in col vs b =
     (if vs = [] then b
      else case number_values vs b of (ks, b') \<Rightarrow> b'\<lparr>qb_conditions := qb_conditions b' @ [CondIn col ks]\<rparr>)"

definition add_search :: "string \<Rightarrow> query_build \<Rightarrow> query_build" where
  "add_search term0 b =
     (if term0 = [] then b
      else let pat = ''%'' @ term0 @ ''%'' in
        b\<lparr>qb_conditions := qb_conditions b @ [CondSearch (qb_argIdx b) (qb_argIdx b + 1)],
          qb_args := qb_args b @ [pat, pat], qb_argIdx := qb_argIdx b + 2\<rparr>)"

definition add_tag :: "string \<Rightarrow> query_build \<Rightarrow> query_build" where
  "add_tag tag b = b\<lparr>qb_conditions := qb_conditions b @ [CondTag (qb_argIdx b)], qb_args := qb_args b @ [tag], qb_argIdx := qb_argIdx b + 1\<rparr>"

definition build_where :: "JobFilter \<Rightarrow> query_build" where
  "build_where f =
     (let b0 = \<lparr>qb_conditions = [], qb_args = [], qb_argIdx = 1\<rparr>;
          b1 = add_in ColState (map string_of_state (jf_States f)) b0;
          b2 = add_in ColQueue (jf_Queues f) b1;
          b3 = add_in ColKind (jf_Kinds f) b2;
          b4 = add_search (jf_Search f) b3
      in fold add_tag (jf_Tags f) b4)"

text \<open>
  \<^verbatim>\<open>LIKE\<close>: the percent sign stands for any text, the underscore for one character, and \<open>esc\<close> is the escape character, a backslash on Postgres
  and MySQL and none on SQLite.
\<close>

fun like :: "char option \<Rightarrow> string \<Rightarrow> string \<Rightarrow> bool" where
  "like esc [] s = (s = [])"
| "like esc (c # p) s =
     (if esc = Some c \<and> p \<noteq> [] then (case s of [] \<Rightarrow> False | x # s' \<Rightarrow> x = hd p \<and> like esc (tl p) s')
      else if c = CHR ''%'' then like esc p s \<or> (case s of [] \<Rightarrow> False | _ # s' \<Rightarrow> like esc (c # p) s')
      else if c = CHR ''_'' then (case s of [] \<Rightarrow> False | _ # s' \<Rightarrow> like esc p s')
      else (case s of [] \<Rightarrow> False | x # s' \<Rightarrow> x = c \<and> like esc p s'))"

definition like_escape :: "Dialect \<Rightarrow> char option" where
  "like_escape d = (if d = SQLite then None else Some (CHR 0x5C))"

text \<open>\<^verbatim>\<open>escapeLike\<close>, which no query calls.\<close>

definition escapeLike :: "string \<Rightarrow> string" where
  "escapeLike value =
     (let v1 = replace_all backslash [backslash, backslash] value;
          v2 = replace_all (CHR ''%'') [backslash, CHR ''%''] v1
      in replace_all (CHR ''_'') [backslash, CHR ''_''] v2)"

text \<open>
  What the database brings to a query: its case folding, its collation, how it lists rows that compare equal, how it measures the time
  between two columns, and, for the JSON columns, whether a row that reads back as the one tag \<^verbatim>\<open>null\<close> holds that tag or the JSON value
  \<^verbatim>\<open>null\<close>.
\<close>

record query_env =
  q_sql :: sql_env
  q_fold :: "string \<Rightarrow> string"
  q_coll :: "string \<Rightarrow> int list"
  q_tie :: "JobRow \<Rightarrow> nat"
  q_dur :: "time \<Rightarrow> time \<Rightarrow> rat"
  q_null_tag :: "JobRow \<Rightarrow> bool"

definition sql_has_tag :: "query_env \<Rightarrow> Dialect \<Rightarrow> string \<Rightarrow> JobRow \<Rightarrow> bool" where
  "sql_has_tag qe d tag r \<longleftrightarrow>
     (if d \<noteq> Postgres \<and> Tags r = Some [''null''] then tag = ''null'' \<and> q_null_tag qe r else tag \<in> set (tag_list r))"

definition column_text :: "column \<Rightarrow> JobRow \<Rightarrow> string" where
  "column_text col r = (case col of ColState \<Rightarrow> string_of_state (State r) | ColQueue \<Rightarrow> Queue r | ColKind \<Rightarrow> Kind r)"

fun condition_holds :: "query_env \<Rightarrow> Dialect \<Rightarrow> string list \<Rightarrow> condition \<Rightarrow> JobRow \<Rightarrow> bool" where
  "condition_holds qe d args (CondIn col ks) r = list_ex (\<lambda>k. column_text col r = args ! (k - 1)) ks"
| "condition_holds qe d args (CondSearch k1 k2) r =
     (like (like_escape d) (q_fold qe (args ! (k1 - 1))) (q_fold qe (Kind r)) \<or>
      like (like_escape d) (q_fold qe (args ! (k2 - 1))) (q_fold qe (UUID r)))"
| "condition_holds qe d args (CondTag k) r = sql_has_tag qe d (args ! (k - 1)) r"

definition sql_where :: "query_env \<Rightarrow> Dialect \<Rightarrow> JobFilter \<Rightarrow> JobRow \<Rightarrow> bool" where
  "sql_where qe d f r = (let b = build_where f in list_all (\<lambda>c. condition_holds qe d (qb_args b) c r) (qb_conditions b))"


section \<open>SQL: listing\<close>

text \<open>Nulls sort above every instant on Postgres and below on the others.\<close>

definition null_key :: "Dialect \<Rightarrow> time option \<Rightarrow> int list" where
  "null_key d t = (case t of None \<Rightarrow> if d = Postgres then [1] else [- 1] | Some x \<Rightarrow> [0, x])"

definition sql_column :: "query_env \<Rightarrow> Dialect \<Rightarrow> string \<Rightarrow> (JobRow \<Rightarrow> int list) option" where
  "sql_column qe d orderBy =
     (if orderBy = ''id'' then Some (\<lambda>r. [int (ID r)])
      else if orderBy = ''uuid'' then Some (\<lambda>r. q_coll qe (UUID r))
      else if orderBy = ''queue'' then Some (\<lambda>r. q_coll qe (Queue r))
      else if orderBy = ''kind'' then Some (\<lambda>r. q_coll qe (Kind r))
      else if orderBy = ''state'' then Some (\<lambda>r. q_coll qe (string_of_state (State r)))
      else if orderBy = ''priority'' then Some (\<lambda>r. [Priority r])
      else if orderBy = ''attempt'' then Some (\<lambda>r. [Attempt r])
      else if orderBy = ''scheduled_at'' then Some (\<lambda>r. [ScheduledAt r])
      else if orderBy = ''created_at'' then Some (\<lambda>r. [CreatedAt r])
      else if orderBy = ''started_at'' then Some (\<lambda>r. null_key d (StartedAt r))
      else if orderBy = ''completed_at'' then Some (\<lambda>r. null_key d (CompletedAt r))
      else if orderBy = ''finalized_at'' then Some (\<lambda>r. null_key d (FinalizedAt r))
      else None)"

text \<open>\<open>lower\<close> decides \<^verbatim>\<open>strings.EqualFold\<close> with the lower-case text \<^verbatim>\<open>asc\<close>. Rows that compare equal come in the order of \<open>q_tie\<close>.\<close>

definition sql_sorted :: "(string \<Rightarrow> string) \<Rightarrow> query_env \<Rightarrow> Dialect \<Rightarrow> string \<Rightarrow> string \<Rightarrow> JobRow list \<Rightarrow> JobRow list" where
  "sql_sorted lower qe d orderBy order rows =
     (let listed = sort_key (q_tie qe) rows in
      case sql_column qe d orderBy of
        None \<Rightarrow> sort_desc (\<lambda>r. [CreatedAt r]) listed
      | Some key \<Rightarrow> if lower order = ''asc'' then sort_key key listed else sort_desc key listed)"

definition sql_page :: "int \<Rightarrow> int \<Rightarrow> JobRow list \<Rightarrow> JobRow list" where
  "sql_page mx off rows =
     (let mx1 = (if mx \<le> 0 then 50 else mx); off1 = (if off < 0 then 0 else off)
      in take (nat mx1) (drop (nat off1) rows))"

text \<open>Database calls: 0 the count, 1 the query, 2 the reading of its rows.\<close>

definition sql_QueryJobs ::
    "(string \<Rightarrow> string) \<Rightarrow> query_env \<Rightarrow> Dialect \<Rightarrow> JobFilter \<Rightarrow> sql_db \<Rightarrow> error + JobRow list \<times> int" where
  "sql_QueryJobs lower qe d f db =
     (let matching = filter (sql_where qe d f) (jobs db) in
      case db_err (q_sql qe) 0 of Some e \<Rightarrow> Inl e | None \<Rightarrow>
      case db_err (q_sql qe) 1 of Some e \<Rightarrow> Inl e | None \<Rightarrow>
      case db_err (q_sql qe) 2 of Some e \<Rightarrow> Inl e | None \<Rightarrow>
      Inr (sql_page (jf_Limit f) (jf_Offset f) (sql_sorted lower qe d (jf_OrderBy f) (jf_Order f) matching), int (length matching)))"


section \<open>SQL: statistics\<close>

definition tally :: "('a \<Rightarrow> bool) \<Rightarrow> 'a list \<Rightarrow> int" where
  "tally p xs = int (length (filter p xs))"

definition runtime :: "query_env \<Rightarrow> JobRow \<Rightarrow> rat option" where
  "runtime qe r = (case (StartedAt r, CompletedAt r) of (Some t, Some t') \<Rightarrow> Some (q_dur qe t t') | _ \<Rightarrow> None)"

text \<open>Averages leave out null values, as \<^verbatim>\<open>AVG\<close> does. Each query is one database call with its own clock.\<close>

definition sql_QueueStats :: "query_env \<Rightarrow> queue_name \<Rightarrow> sql_db \<Rightarrow> error + QueueStats" where
  "sql_QueueStats qe q db =
     (let env = q_sql qe; rows = filter (\<lambda>r. Queue r = q) (jobs db); n = (\<lambda>st. tally (\<lambda>r. State r = st) rows) in
      case db_err env 0 of Some e \<Rightarrow> Inl e | None \<Rightarrow>
      case db_err env 1 of Some e \<Rightarrow> Inl e | None \<Rightarrow>
      case db_err env 2 of Some e \<Rightarrow> Inl e | None \<Rightarrow>
      Inr ((zero_queue_stats q)\<lparr>qs_Available := n StateAvailable, qs_Running := n StateRunning, qs_Completed := n StateCompleted,
        qs_Failed := n StateFailed, qs_Retryable := n StateRetryable,
        qs_Scheduled := tally (\<lambda>r. State r = StateScheduled \<or> State r = StatePending) rows,
        qs_AvgRuntimeMs := average (List.map_filter (runtime qe)
          (filter (\<lambda>r. State r = StateCompleted \<and> StartedAt r \<noteq> None \<and>
             (case CompletedAt r of None \<Rightarrow> False | Some t \<Rightarrow> clk env 0 - Hour < t)) rows)),
        qs_ThroughputPerMin := tally (\<lambda>r. clk env 1 - Minute < CreatedAt r) rows\<rparr>))"

definition sql_GlobalStats :: "query_env \<Rightarrow> sql_db \<Rightarrow> error + GlobalStats" where
  "sql_GlobalStats qe db =
     (let env = q_sql qe in
      case db_err env 0 of Some e \<Rightarrow> Inl e | None \<Rightarrow>
      Inr (zero_global_stats\<lparr>
        gs_JobsPerMinute := tally (\<lambda>r. (State r = StateCompleted \<or> State r = StateFailed) \<and> clk env 0 - Minute < CreatedAt r) (jobs db),
        gs_FailedJobs := tally (\<lambda>r. State r = StateFailed) (jobs db),
        gs_RecentJobs := tally (\<lambda>r. clk env 1 - Hour < CreatedAt r) (jobs db),
        gs_Processes := (case db_err env 1 of Some _ \<Rightarrow> 0
          | None \<Rightarrow> tally (\<lambda>r. clk env 2 - NodeLivenessWindow < ni_LastHeartbeat r) (nodes db))\<rparr>))"

text \<open>The error of the throughput query is dropped and the field left at zero.\<close>

definition sql_JobStats :: "query_env \<Rightarrow> string \<Rightarrow> sql_db \<Rightarrow> error + JobTypeStats" where
  "sql_JobStats qe kind db =
     (let env = q_sql qe; rows = filter (\<lambda>r. Kind r = kind) (jobs db) in
      case db_err env 0 of Some e \<Rightarrow> Inl e | None \<Rightarrow>
      Inr \<lparr>js_Kind = kind,
        js_Throughput = (case db_err env 1 of Some _ \<Rightarrow> 0 | None \<Rightarrow> tally (\<lambda>r. clk env 0 - Minute < CreatedAt r) rows),
        js_AvgRuntimeMs = average (List.map_filter (runtime qe) (filter (\<lambda>r. State r = StateCompleted \<and> StartedAt r \<noteq> None) rows)),
        js_FailedCount = tally (\<lambda>r. State r = StateFailed) rows,
        js_TotalCount = int (length rows), js_Samples = 0\<rparr>)"


section \<open>Batches\<close>

text \<open>\<^verbatim>\<open>QueryByBatchID\<close> of \<^verbatim>\<open>batch/batch.go\<close> over the driver's listing.\<close>

definition batch_filter :: JobFilter where
  "batch_filter = \<lparr>jf_States = [], jf_Queues = [], jf_Kinds = [], jf_Tags = [], jf_Search = [], jf_Limit = 1000, jf_Offset = 0,
     jf_OrderBy = [], jf_Order = []\<rparr>"

definition QueryByBatchID :: "(JobFilter \<Rightarrow> error + JobRow list \<times> int) \<Rightarrow> string \<Rightarrow> error + JobRow list" where
  "QueryByBatchID QueryJobs batchID =
     (case QueryJobs batch_filter of
        Inl e \<Rightarrow> Inl e
      | Inr (rows, _) \<Rightarrow> Inr (filter (\<lambda>r. BatchID r = batchID) rows))"

end
