(* ===== verification/Supervisor.thy ===== *)
theory Supervisor
  imports Pool Queries
begin

text \<open>
  The supervisor of \<^verbatim>\<open>supervisor/supervisor.go\<close> and the coordinator of \<^verbatim>\<open>coordinator/coordinator.go\<close>. The driver is a record of the operations they
  call, on a driver state \<open>'d\<close>. Their loops are functions of one tick; the runtime decides the order of ticks and of the calls in between.
\<close>


section \<open>The driver they call\<close>

record 'd node_driver =
  nd_RegisterNode :: "NodeInfo \<Rightarrow> duration \<Rightarrow> 'd \<Rightarrow> error option \<times> 'd"
  nd_DeregisterNode :: "node_id \<Rightarrow> 'd \<Rightarrow> error option \<times> 'd"
  nd_Heartbeat :: "node_id \<Rightarrow> duration \<Rightarrow> 'd \<Rightarrow> error option \<times> 'd"
  nd_RequeueStale :: "duration \<Rightarrow> 'd \<Rightarrow> (error + int) \<times> 'd"
  nd_Prune :: "time \<Rightarrow> State list \<Rightarrow> 'd \<Rightarrow> (error + int) \<times> 'd"
  nd_QueueStats :: "queue_name \<Rightarrow> 'd \<Rightarrow> (error + QueueStats) \<times> 'd"
  nd_IsLeader :: "node_id \<Rightarrow> 'd \<Rightarrow> (bool \<times> error option) \<times> 'd"
  nd_LeaderElection :: "node_id \<Rightarrow> duration \<Rightarrow> 'd \<Rightarrow> (bool \<times> error option) \<times> 'd"


section \<open>Supervisor\<close>

record QueueConfig =
  MaxWorkers :: int
  MinWorkers :: int

record SupConfig =
  sc_Queues :: "(queue_name \<times> QueueConfig) list"
  HeartbeatInterval :: duration
  RequeueInterval :: duration
  RequeueTimeout :: duration
  PruneInterval :: duration
  PruneAfter :: duration
  EnableAutoscale :: bool

definition sup_DefaultConfig :: SupConfig where
  "sup_DefaultConfig = \<lparr>sc_Queues = [(''default'', \<lparr>MaxWorkers = 10, MinWorkers = 1\<rparr>)], HeartbeatInterval = 5 * Second,
     RequeueInterval = 30 * Second, RequeueTimeout = 60 * Second, PruneInterval = 24 * Hour, PruneAfter = 7 * 24 * Hour, EnableAutoscale = False\<rparr>"

record 'd supervisor =
  s_running :: bool
  s_stopped :: bool
  s_cancelled :: bool
  s_pools :: pools
  s_driver :: 'd

definition sup_New :: "'d \<Rightarrow> 'd supervisor" where
  "sup_New d = \<lparr>s_running = False, s_stopped = False, s_cancelled = False, s_pools = [], s_driver = d\<rparr>"

definition heartbeatTTL :: "SupConfig \<Rightarrow> duration" where
  "heartbeatTTL cfg = int64 (3 * HeartbeatInterval cfg)"

text \<open>The loop over the configured queues: an error is logged, a panic ends it.\<close>

fun start_pools :: "node_id \<Rightarrow> (queue_name \<times> QueueConfig) list \<Rightarrow> pools \<Rightarrow> (unit, unit) outcome \<times> pools" where
  "start_pools node [] ps = (Ret (), ps)"
| "start_pools node ((q, qcfg) # rest) ps =
     (case StartPool node q (MaxWorkers qcfg) ps of
        (Panic u, ps') \<Rightarrow> (Panic u, ps')
      | (Ret _, ps') \<Rightarrow> start_pools node rest ps')"

text \<open>The heartbeat of the record is Go's zero time; both drivers write their own.\<close>

definition node_info :: "node_id \<Rightarrow> queue_name list \<Rightarrow> int \<Rightarrow> time \<Rightarrow> NodeInfo" where
  "node_info node queues workers now = \<lparr>ni_ID = node, ni_Host = [], ni_Port = 0, ni_Queues = queues, ni_Workers = workers,
     ni_Status = ''active'', ni_StartedAt = now, ni_LastHeartbeat = 0, ni_Version = ''1.0.0''\<rparr>"

definition sup_Start :: "node_id \<Rightarrow> 'd node_driver \<Rightarrow> SupConfig \<Rightarrow> time \<Rightarrow> 'd supervisor \<Rightarrow> (unit, unit) outcome \<times> 'd supervisor" where
  "sup_Start node drv cfg now s =
     (if s_running s then (Ret (), s)
      else let s1 = s\<lparr>s_running := True, s_cancelled := False\<rparr> in
        (case start_pools node (sc_Queues cfg) (s_pools s) of
           (Panic u, ps) \<Rightarrow> (Panic u, s1\<lparr>s_pools := ps\<rparr>)
         | (Ret _, ps) \<Rightarrow>
             (Ret (), s1\<lparr>s_pools := ps, s_driver := snd (nd_RegisterNode drv
                (node_info node (map fst (sc_Queues cfg)) (WorkerCount ps) now) (heartbeatTTL cfg) (s_driver s))\<rparr>)))"

text \<open>Closing \<^verbatim>\<open>stopped\<close> a second time panics.\<close>

definition sup_Stop :: "node_id \<Rightarrow> 'd node_driver \<Rightarrow> (queue_name \<Rightarrow> error option) \<Rightarrow> 'd supervisor \<Rightarrow> (unit, unit) outcome \<times> 'd supervisor" where
  "sup_Stop node drv ctx_err s =
     (if \<not> s_running s then (Ret (), s)
      else let s1 = s\<lparr>s_running := False, s_cancelled := True, s_pools := snd (StopAll ctx_err (s_pools s)),
                 s_driver := snd (nd_DeregisterNode drv node (s_driver s))\<rparr>
           in if s_stopped s then (Panic (), s1) else (Ret (), s1\<lparr>s_stopped := True\<rparr>))"

definition PauseQueue :: "node_id \<Rightarrow> SupConfig \<Rightarrow> queue_name \<Rightarrow> 'd supervisor \<Rightarrow> error option \<times> 'd supervisor" where
  "PauseQueue node cfg q s =
     (case map_of (sc_Queues cfg) q of
        None \<Rightarrow> (None, s)
      | Some _ \<Rightarrow> (case ScalePool node q 0 (s_pools s) of (err, ps) \<Rightarrow> (err, s\<lparr>s_pools := ps\<rparr>)))"

definition ResumeQueue :: "node_id \<Rightarrow> SupConfig \<Rightarrow> queue_name \<Rightarrow> 'd supervisor \<Rightarrow> error option \<times> 'd supervisor" where
  "ResumeQueue node cfg q s =
     (case map_of (sc_Queues cfg) q of
        None \<Rightarrow> (None, s)
      | Some qcfg \<Rightarrow> (case ScalePool node q (MaxWorkers qcfg) (s_pools s) of (err, ps) \<Rightarrow> (err, s\<lparr>s_pools := ps\<rparr>)))"

definition ScaleQueue :: "node_id \<Rightarrow> queue_name \<Rightarrow> int \<Rightarrow> 'd supervisor \<Rightarrow> error option \<times> 'd supervisor" where
  "ScaleQueue node q n s = (case ScalePool node q n (s_pools s) of (err, ps) \<Rightarrow> (err, s\<lparr>s_pools := ps\<rparr>))"

definition sup_Queues :: "SupConfig \<Rightarrow> queue_name list" where
  "sup_Queues cfg = map fst (sc_Queues cfg)"

definition doHeartbeat :: "node_id \<Rightarrow> 'd node_driver \<Rightarrow> SupConfig \<Rightarrow> 'd supervisor \<Rightarrow> 'd supervisor" where
  "doHeartbeat node drv cfg s = s\<lparr>s_driver := snd (nd_Heartbeat drv node (heartbeatTTL cfg) (s_driver s))\<rparr>"

definition doRequeue :: "'d node_driver \<Rightarrow> SupConfig \<Rightarrow> 'd supervisor \<Rightarrow> 'd supervisor" where
  "doRequeue drv cfg s = s\<lparr>s_driver := snd (nd_RequeueStale drv (RequeueTimeout cfg) (s_driver s))\<rparr>"

definition doPrune :: "'d node_driver \<Rightarrow> SupConfig \<Rightarrow> time \<Rightarrow> 'd supervisor \<Rightarrow> 'd supervisor" where
  "doPrune drv cfg now s = s\<lparr>s_driver := snd (nd_Prune drv (now - PruneAfter cfg) [StateCompleted, StateFailed, StateCancelled] (s_driver s))\<rparr>"

text \<open>\<^verbatim>\<open>int(available / 2)\<close> truncates towards zero.\<close>

definition computeDesiredWorkers :: "QueueStats \<Rightarrow> QueueConfig \<Rightarrow> int" where
  "computeDesiredWorkers stats cfg =
     (let available = int64 (qs_Available stats + qs_Retryable stats) in
      if available = 0 then MinWorkers cfg
      else let desired0 = (if 0 \<le> available then available div 2 else - ((- available) div 2));
               desired1 = (if desired0 < MinWorkers cfg then MinWorkers cfg else desired0)
           in if desired1 > MaxWorkers cfg then MaxWorkers cfg else desired1)"

fun doAutoscale :: "node_id \<Rightarrow> 'd node_driver \<Rightarrow> (queue_name \<times> QueueConfig) list \<Rightarrow> 'd supervisor \<Rightarrow> 'd supervisor" where
  "doAutoscale node drv [] s = s"
| "doAutoscale node drv ((q, qcfg) # rest) s =
     (case nd_QueueStats drv q (s_driver s) of
        (Inl _, d) \<Rightarrow> doAutoscale node drv rest (s\<lparr>s_driver := d\<rparr>)
      | (Inr stats, d) \<Rightarrow>
          let s1 = s\<lparr>s_driver := d\<rparr>; desired = computeDesiredWorkers stats qcfg; current = WorkerCount (s_pools s1)
          in if desired \<noteq> current \<and> MinWorkers qcfg \<le> desired
             then doAutoscale node drv rest (s1\<lparr>s_pools := snd (ScalePool node q desired (s_pools s1))\<rparr>)
             else doAutoscale node drv rest s1)"

datatype tick = HeartbeatTick | RequeueTick | PruneTick time | AutoscaleTick

fun sup_tick :: "node_id \<Rightarrow> 'd node_driver \<Rightarrow> SupConfig \<Rightarrow> tick \<Rightarrow> 'd supervisor \<Rightarrow> 'd supervisor" where
  "sup_tick node drv cfg HeartbeatTick s = doHeartbeat node drv cfg s"
| "sup_tick node drv cfg RequeueTick s = doRequeue drv cfg s"
| "sup_tick node drv cfg (PruneTick now) s = doPrune drv cfg now s"
| "sup_tick node drv cfg AutoscaleTick s = (if EnableAutoscale cfg then doAutoscale node drv (sc_Queues cfg) s else s)"

text \<open>The tickers are made first; a ticker of a non-positive interval panics. A cancelled context ends the loop.\<close>

definition sup_loop :: "node_id \<Rightarrow> 'd node_driver \<Rightarrow> SupConfig \<Rightarrow> tick list \<Rightarrow> 'd supervisor \<Rightarrow> (unit, unit) outcome \<times> 'd supervisor" where
  "sup_loop node drv cfg ticks s =
     (if HeartbeatInterval cfg \<le> 0 \<or> RequeueInterval cfg \<le> 0 \<or> PruneInterval cfg \<le> 0 then (Panic (), s)
      else (Ret (), fold (\<lambda>t s. if s_cancelled s then s else sup_tick node drv cfg t s) ticks s))"


section \<open>Coordinator\<close>

record CoordConfig =
  cc_NodeID :: node_id
  cc_Host :: string
  cc_Port :: int
  cc_Queues :: "queue_name list"
  cc_WorkerCount :: int
  HeartbeatTTL :: duration
  LeaderTTL :: duration

definition coord_DefaultConfig :: CoordConfig where
  "coord_DefaultConfig = \<lparr>cc_NodeID = [], cc_Host = [], cc_Port = 0, cc_Queues = [], cc_WorkerCount = 0, HeartbeatTTL = 10 * Second,
     LeaderTTL = 15 * Second\<rparr>"

record 'd coordinator =
  co_running :: bool
  co_stopped :: bool
  co_driver :: 'd

definition coord_New :: "'d \<Rightarrow> 'd coordinator" where
  "coord_New d = \<lparr>co_running = False, co_stopped = False, co_driver = d\<rparr>"

definition coord_Start :: "'d node_driver \<Rightarrow> CoordConfig \<Rightarrow> time \<Rightarrow> 'd coordinator \<Rightarrow> error option \<times> 'd coordinator" where
  "coord_Start drv cfg now c =
     (if co_running c then (None, c)
      else case nd_RegisterNode drv ((node_info (cc_NodeID cfg) (cc_Queues cfg) (cc_WorkerCount cfg) now)
                 \<lparr>ni_Host := cc_Host cfg, ni_Port := cc_Port cfg\<rparr>) (HeartbeatTTL cfg) (co_driver c) of
        (Some e, d) \<Rightarrow> (Some e, c\<lparr>co_driver := d\<rparr>)
      | (None, d) \<Rightarrow> (None, c\<lparr>co_driver := d, co_running := True, co_stopped := False\<rparr>))"

definition coord_Stop :: "'d node_driver \<Rightarrow> CoordConfig \<Rightarrow> 'd coordinator \<Rightarrow> (unit, unit) outcome \<times> 'd coordinator" where
  "coord_Stop drv cfg c =
     (if \<not> co_running c then (Ret (), c)
      else let c1 = c\<lparr>co_running := False, co_driver := snd (nd_DeregisterNode drv (cc_NodeID cfg) (co_driver c))\<rparr>
           in if co_stopped c then (Panic (), c1) else (Ret (), c1\<lparr>co_stopped := True\<rparr>))"

definition tryBecomeLeader :: "'d node_driver \<Rightarrow> CoordConfig \<Rightarrow> 'd \<Rightarrow> 'd" where
  "tryBecomeLeader drv cfg d =
     (case nd_IsLeader drv (cc_NodeID cfg) d of
        ((_, Some _), d1) \<Rightarrow> d1
      | ((isLeader, None), d1) \<Rightarrow>
          if \<not> isLeader then snd (nd_LeaderElection drv (cc_NodeID cfg) (LeaderTTL cfg) d1) else d1)"

datatype coord_event = CoordHeartbeat | CoordLeader

fun coord_tick :: "'d node_driver \<Rightarrow> CoordConfig \<Rightarrow> coord_event \<Rightarrow> 'd coordinator \<Rightarrow> 'd coordinator" where
  "coord_tick drv cfg CoordHeartbeat c = c\<lparr>co_driver := snd (nd_Heartbeat drv (cc_NodeID cfg) (HeartbeatTTL cfg) (co_driver c))\<rparr>"
| "coord_tick drv cfg CoordLeader c = c\<lparr>co_driver := tryBecomeLeader drv cfg (co_driver c)\<rparr>"

text \<open>Half of a positive \<^verbatim>\<open>HeartbeatTTL\<close> of one nanosecond is zero, and a ticker of a non-positive interval panics.\<close>

definition coord_loop :: "'d node_driver \<Rightarrow> CoordConfig \<Rightarrow> coord_event list \<Rightarrow> 'd coordinator \<Rightarrow> (unit, unit) outcome \<times> 'd coordinator" where
  "coord_loop drv cfg ticks c =
     (if HeartbeatTTL cfg < 2 \<or> LeaderTTL cfg \<le> 0 then (Panic (), c)
      else (Ret (), fold (\<lambda>t c. if \<not> co_running c then c else coord_tick drv cfg t c) ticks c))"

end
