(* ===== verification/Web.thy ===== *)
theory Web
  imports Supervisor
begin

text \<open>
  The management server of \<^verbatim>\<open>web/web.go\<close>: parsing, routing, the handlers, the CSRF guard, the authentication switch and the event stream. A request
  carries its path below the mount prefix as segments, and the ids its JSON body decodes to. The job operations are a record of the
  operations of the manager's driver on its state \<open>'d\<close>; of the supervisor the server uses the pools.
\<close>


section \<open>Parsing numbers\<close>

definition is_digit :: "char \<Rightarrow> bool" where
  "is_digit c \<longleftrightarrow> 48 \<le> (of_char c :: nat) \<and> (of_char c :: nat) \<le> 57"

definition ParseUint :: "string \<Rightarrow> error + nat" where
  "ParseUint s =
     (if s = [] \<or> \<not> list_all is_digit s then Inl (Errorf ''invalid syntax'')
      else if 2 ^ 64 \<le> digits_value s then Inl (Errorf ''value out of range'')
      else Inr (digits_value s))"

definition parseID :: "string \<Rightarrow> error + job_id" where
  "parseID s = (case ParseUint s of Inl e \<Rightarrow> Inl e | Inr n \<Rightarrow> Inr n)"

text \<open>\<^verbatim>\<open>strconv.Atoi\<close>: an optional sign and digits, within 64 bits.\<close>

definition Atoi :: "string \<Rightarrow> error + int" where
  "Atoi s =
     (let (neg, ds) = (case s of [] \<Rightarrow> (False, []) | c # cs \<Rightarrow>
            if c = CHR ''-'' then (True, cs) else if c = CHR ''+'' then (False, cs) else (False, s)) in
      if ds = [] \<or> \<not> list_all is_digit ds then Inl (Errorf ''invalid syntax'')
      else let n = int (digits_value ds); v = (if neg then - n else n) in
        if v < - (2 ^ 63) \<or> 2 ^ 63 \<le> v then Inl (Errorf ''value out of range'') else Inr v)"

definition DefaultPageSize :: int where "DefaultPageSize = 50"
definition MaxPageSize :: int where "MaxPageSize = 500"

definition clampLimit :: "int \<Rightarrow> int" where
  "clampLimit n = (if n \<le> 0 then DefaultPageSize else if n > MaxPageSize then MaxPageSize else n)"

text \<open>\<^verbatim>\<open>strings.Split\<close> at commas.\<close>

fun split_comma :: "string \<Rightarrow> string list" where
  "split_comma [] = [[]]"
| "split_comma (c # s) =
     (if c = CHR '','' then [] # split_comma s
      else (case split_comma s of [] \<Rightarrow> [[c]] | w # ws \<Rightarrow> (c # w) # ws))"


section \<open>Requests and responses\<close>

record request =
  rq_method :: string
  rq_path :: "string list"
  rq_query :: "string \<Rightarrow> string"
  rq_ids :: "error + job_id list"
  rq_cookie :: "string option"
  rq_csrf :: string

datatype web_body =
    BodyPage
  | BodyError string
  | BodyStats GlobalStats
  | BodyListing "JobRow list" int int int
  | BodyJob JobRow
  | BodyStatus string
  | BodyQueues "(queue_name \<times> QueueStats \<times> bool) list"
  | BodyNodes "NodeInfo list"
  | BodyJobMetrics "JobTypeStats list"
  | BodyQueueMetrics "QueueStats list"
  | BodyPruned int
  | BodyNone

record response =
  rs_status :: nat
  rs_body :: web_body
  rs_cookies :: "(string \<times> string) list"

definition writeJSON :: "nat \<Rightarrow> web_body \<Rightarrow> response" where
  "writeJSON status body = \<lparr>rs_status = status, rs_body = body, rs_cookies = []\<rparr>"

definition writeError :: "nat \<Rightarrow> string \<Rightarrow> response" where
  "writeError status msg = writeJSON status (BodyError msg)"

record 'd web_driver =
  wd_QueryJobs :: "JobFilter \<Rightarrow> 'd \<Rightarrow> (error + JobRow list \<times> int) \<times> 'd"
  wd_GetByID :: "job_id \<Rightarrow> 'd \<Rightarrow> (error + JobRow) \<times> 'd"
  wd_Retry :: "job_id \<Rightarrow> 'd \<Rightarrow> (error + JobRow) \<times> 'd"
  wd_Cancel :: "job_id \<Rightarrow> 'd \<Rightarrow> (error + JobRow) \<times> 'd"
  wd_RetryBatch :: "job_id list \<Rightarrow> 'd \<Rightarrow> error option \<times> 'd"
  wd_CancelBatch :: "job_id list \<Rightarrow> 'd \<Rightarrow> error option \<times> 'd"
  wd_GlobalStats :: "'d \<Rightarrow> (error + GlobalStats) \<times> 'd"
  wd_QueueStats :: "queue_name \<Rightarrow> 'd \<Rightarrow> (error + QueueStats) \<times> 'd"
  wd_JobStats :: "string \<Rightarrow> 'd \<Rightarrow> (error + JobTypeStats) \<times> 'd"
  wd_ListNodes :: "'d \<Rightarrow> (error + NodeInfo list) \<times> 'd"
  wd_Prune :: "time \<Rightarrow> State list \<Rightarrow> 'd \<Rightarrow> (error + int) \<times> 'd"

record 'd server =
  sv_driver :: 'd
  sv_supervisor :: "(SupConfig \<times> unit supervisor) option"

text \<open>What is fixed while a request is served: the driver, the node, the registered kinds, and the time of a prune.\<close>

record 'd web_env =
  we_driver :: "'d web_driver"
  we_node :: node_id
  we_kinds :: "string list"
  we_now :: time

type_synonym 'd http_handler = "request \<Rightarrow> 'd server \<Rightarrow> response \<times> 'd server"
type_synonym 'd http_middleware = "'d http_handler \<Rightarrow> 'd http_handler"


section \<open>Handlers\<close>

definition answer :: "(error + 'a) \<times> 'd \<Rightarrow> ('a \<Rightarrow> web_body) \<Rightarrow> 'd server \<Rightarrow> response \<times> 'd server" where
  "answer res body sv =
     (case res of
        (Inl e, d) \<Rightarrow> (writeError 500 (error_text e), sv\<lparr>sv_driver := d\<rparr>)
      | (Inr x, d) \<Rightarrow> (writeJSON 200 (body x), sv\<lparr>sv_driver := d\<rparr>))"

definition handleStats :: "'d web_env \<Rightarrow> 'd http_handler" where
  "handleStats env r sv = answer (wd_GlobalStats (we_driver env) (sv_driver sv)) BodyStats sv"

definition list_filter :: "request \<Rightarrow> JobFilter" where
  "list_filter r =
     (let q = rq_query r;
          mx = (if q ''limit'' \<noteq> [] then (case Atoi (q ''limit'') of Inr n \<Rightarrow> clampLimit n | Inl _ \<Rightarrow> 50) else 50);
          off = (if q ''offset'' \<noteq> [] then (case Atoi (q ''offset'') of Inr n \<Rightarrow> n | Inl _ \<Rightarrow> 0) else 0)
      in \<lparr>jf_States = (if q ''states'' \<noteq> [] then map state_of_string (split_comma (q ''states'')) else []),
          jf_Queues = (if q ''queues'' \<noteq> [] then split_comma (q ''queues'') else []),
          jf_Kinds = (if q ''kinds'' \<noteq> [] then split_comma (q ''kinds'') else []),
          jf_Tags = [], jf_Search = q ''search'', jf_Limit = mx, jf_Offset = off,
          jf_OrderBy = q ''order_by'', jf_Order = q ''order''\<rparr>)"

definition handleListJobs :: "'d web_env \<Rightarrow> 'd http_handler" where
  "handleListJobs env r sv =
     (let f = list_filter r in
      answer (wd_QueryJobs (we_driver env) f (sv_driver sv))
        (\<lambda>(js, total). BodyListing js total (jf_Limit f) (jf_Offset f)) sv)"

definition handleGetJob :: "'d web_env \<Rightarrow> string \<Rightarrow> 'd http_handler" where
  "handleGetJob env i r sv =
     (case parseID i of
        Inl _ \<Rightarrow> (writeError 400 ''invalid job id'', sv)
      | Inr j \<Rightarrow>
          (case wd_GetByID (we_driver env) j (sv_driver sv) of
             (Inl e, d) \<Rightarrow> (if e = ErrJobNotFound then writeError 404 ''job not found'' else writeError 500 (error_text e), sv\<lparr>sv_driver := d\<rparr>)
           | (Inr job, d) \<Rightarrow> (writeJSON 200 (BodyJob job), sv\<lparr>sv_driver := d\<rparr>)))"

definition handleRetryJob :: "'d web_env \<Rightarrow> string \<Rightarrow> 'd http_handler" where
  "handleRetryJob env i r sv =
     (case parseID i of
        Inl _ \<Rightarrow> (writeError 400 ''invalid job id'', sv)
      | Inr j \<Rightarrow> answer (wd_Retry (we_driver env) j (sv_driver sv)) BodyJob sv)"

definition handleCancelJob :: "'d web_env \<Rightarrow> string \<Rightarrow> 'd http_handler" where
  "handleCancelJob env i r sv =
     (case parseID i of
        Inl _ \<Rightarrow> (writeError 400 ''invalid job id'', sv)
      | Inr j \<Rightarrow> answer (wd_Cancel (we_driver env) j (sv_driver sv)) BodyJob sv)"

definition batch_answer :: "error option \<times> 'd \<Rightarrow> 'd server \<Rightarrow> response \<times> 'd server" where
  "batch_answer res sv =
     (case res of
        (Some e, d) \<Rightarrow> (writeError 500 (error_text e), sv\<lparr>sv_driver := d\<rparr>)
      | (None, d) \<Rightarrow> (writeJSON 200 (BodyStatus ''ok''), sv\<lparr>sv_driver := d\<rparr>))"

definition handleBatchRetry :: "'d web_env \<Rightarrow> 'd http_handler" where
  "handleBatchRetry env r sv =
     (case rq_ids r of
        Inl _ \<Rightarrow> (writeError 400 ''invalid request body'', sv)
      | Inr is \<Rightarrow> batch_answer (wd_RetryBatch (we_driver env) is (sv_driver sv)) sv)"

definition handleBatchCancel :: "'d web_env \<Rightarrow> 'd http_handler" where
  "handleBatchCancel env r sv =
     (case rq_ids r of
        Inl _ \<Rightarrow> (writeError 400 ''invalid request body'', sv)
      | Inr is \<Rightarrow> batch_answer (wd_CancelBatch (we_driver env) is (sv_driver sv)) sv)"

text \<open>The loop over a list of names: an entry whose statistics fail to load is left out.\<close>

fun collect_stats :: "('k \<Rightarrow> 'd \<Rightarrow> (error + 'a) \<times> 'd) \<Rightarrow> 'k list \<Rightarrow> 'd \<Rightarrow> ('k \<times> 'a) list \<times> 'd" where
  "collect_stats load [] d = ([], d)"
| "collect_stats load (k # ks) d =
     (case load k d of
        (Inl _, d1) \<Rightarrow> collect_stats load ks d1
      | (Inr x, d1) \<Rightarrow> (case collect_stats load ks d1 of (xs, d2) \<Rightarrow> ((k, x) # xs, d2)))"

definition shown_paused :: "pools \<Rightarrow> queue_name \<Rightarrow> bool" where
  "shown_paused ps q = (case map_of ps q of None \<Rightarrow> False | Some p \<Rightarrow> Pool_WorkerCount p = 0)"

definition handleListQueues :: "'d web_env \<Rightarrow> 'd http_handler" where
  "handleListQueues env r sv =
     (case sv_supervisor sv of
        None \<Rightarrow> (writeJSON 200 (BodyQueues []), sv)
      | Some (cfg, sp) \<Rightarrow>
          (case collect_stats (wd_QueueStats (we_driver env)) (sup_Queues cfg) (sv_driver sv) of (xs, d) \<Rightarrow>
             (writeJSON 200 (BodyQueues (map (\<lambda>(q, stats). (q, stats, shown_paused (s_pools sp) q)) xs)), sv\<lparr>sv_driver := d\<rparr>)))"

definition handlePauseQueue :: "'d web_env \<Rightarrow> queue_name \<Rightarrow> 'd http_handler" where
  "handlePauseQueue env q r sv =
     (case sv_supervisor sv of
        None \<Rightarrow> (writeError 409 ''this process runs no workers, so it cannot pause a queue'', sv)
      | Some (cfg, sp) \<Rightarrow>
          (case PauseQueue (we_node env) cfg q sp of
             (Some e, sp') \<Rightarrow> (writeError 500 (error_text e), sv\<lparr>sv_supervisor := Some (cfg, sp')\<rparr>)
           | (None, sp') \<Rightarrow> (writeJSON 200 (BodyStatus ''paused''), sv\<lparr>sv_supervisor := Some (cfg, sp')\<rparr>)))"

definition handleResumeQueue :: "'d web_env \<Rightarrow> queue_name \<Rightarrow> 'd http_handler" where
  "handleResumeQueue env q r sv =
     (case sv_supervisor sv of
        None \<Rightarrow> (writeError 409 ''this process runs no workers, so it cannot resume a queue'', sv)
      | Some (cfg, sp) \<Rightarrow>
          (case ResumeQueue (we_node env) cfg q sp of
             (Some e, sp') \<Rightarrow> (writeError 500 (error_text e), sv\<lparr>sv_supervisor := Some (cfg, sp')\<rparr>)
           | (None, sp') \<Rightarrow> (writeJSON 200 (BodyStatus ''resumed''), sv\<lparr>sv_supervisor := Some (cfg, sp')\<rparr>)))"

definition handleListWorkers :: "'d web_env \<Rightarrow> 'd http_handler" where
  "handleListWorkers env r sv = answer (wd_ListNodes (we_driver env) (sv_driver sv)) BodyNodes sv"

definition handleJobMetrics :: "'d web_env \<Rightarrow> 'd http_handler" where
  "handleJobMetrics env r sv =
     (case collect_stats (wd_JobStats (we_driver env)) (we_kinds env) (sv_driver sv) of (xs, d) \<Rightarrow>
        (writeJSON 200 (BodyJobMetrics (map snd xs)), sv\<lparr>sv_driver := d\<rparr>))"

definition handleQueueMetrics :: "'d web_env \<Rightarrow> 'd http_handler" where
  "handleQueueMetrics env r sv =
     (case sv_supervisor sv of
        None \<Rightarrow> (writeJSON 200 (BodyQueueMetrics []), sv)
      | Some (cfg, sp) \<Rightarrow>
          (case collect_stats (wd_QueueStats (we_driver env)) (sup_Queues cfg) (sv_driver sv) of (xs, d) \<Rightarrow>
             (writeJSON 200 (BodyQueueMetrics (map snd xs)), sv\<lparr>sv_driver := d\<rparr>)))"

definition handlePrune :: "'d web_env \<Rightarrow> 'd http_handler" where
  "handlePrune env r sv =
     answer (wd_Prune (we_driver env) (we_now env - 7 * 24 * Hour) [StateCompleted, StateFailed, StateCancelled] (sv_driver sv)) BodyPruned sv"

definition handleDashboard :: "'d http_handler" where
  "handleDashboard r sv = (\<lparr>rs_status = 200, rs_body = BodyPage, rs_cookies = []\<rparr>, sv)"


section \<open>Routes\<close>

datatype route =
    RDashboard | RStats | RListJobs | RGetJob string | RRetryJob string | RCancelJob string | RBatchRetry | RBatchCancel
  | RListQueues | RPauseQueue string | RResumeQueue string | RListWorkers | RJobMetrics | RQueueMetrics | RPrune | REvents

text \<open>
  The patterns of \<^verbatim>\<open>registerRoutes\<close> as Go's mux matches them: a pattern for \<^verbatim>\<open>GET\<close> takes \<^verbatim>\<open>HEAD\<close> too, a literal segment wins over a variable one, and the
  dashboard's pattern takes every other path.
\<close>

definition get_route :: "string list \<Rightarrow> route" where
  "get_route path =
     (case path of
        [a, b] \<Rightarrow>
          if a \<noteq> ''api'' then RDashboard
          else if b = ''stats'' then RStats else if b = ''jobs'' then RListJobs else if b = ''queues'' then RListQueues
          else if b = ''workers'' then RListWorkers else if b = ''events'' then REvents else RDashboard
      | [a, b, c] \<Rightarrow>
          if a \<noteq> ''api'' then RDashboard
          else if b = ''jobs'' \<and> c \<noteq> [] then RGetJob c
          else if b = ''metrics'' \<and> c = ''jobs'' then RJobMetrics
          else if b = ''metrics'' \<and> c = ''queues'' then RQueueMetrics else RDashboard
      | _ \<Rightarrow> RDashboard)"

definition post_route :: "string list \<Rightarrow> route option" where
  "post_route path =
     (case path of
        [a, b] \<Rightarrow> if a = ''api'' \<and> b = ''prune'' then Some RPrune else None
      | [a, b, c, d] \<Rightarrow>
          if a \<noteq> ''api'' then None
          else if b = ''jobs'' \<and> c = ''batch'' \<and> d = ''retry'' then Some RBatchRetry
          else if b = ''jobs'' \<and> c = ''batch'' \<and> d = ''cancel'' then Some RBatchCancel
          else if b = ''jobs'' \<and> c \<noteq> [] \<and> d = ''retry'' then Some (RRetryJob c)
          else if b = ''jobs'' \<and> c \<noteq> [] \<and> d = ''cancel'' then Some (RCancelJob c)
          else if b = ''queues'' \<and> c \<noteq> [] \<and> d = ''pause'' then Some (RPauseQueue c)
          else if b = ''queues'' \<and> c \<noteq> [] \<and> d = ''resume'' then Some (RResumeQueue c)
          else None
      | _ \<Rightarrow> None)"

definition route_of :: "string \<Rightarrow> string list \<Rightarrow> route option" where
  "route_of rmethod path =
     (if rmethod = ''GET'' \<or> rmethod = ''HEAD'' then Some (get_route path)
      else if rmethod = ''POST'' then post_route path else None)"

text \<open>The event stream answers through its own frames, below; what is left of its response is the status.\<close>

definition serve_route :: "'d web_env \<Rightarrow> route \<Rightarrow> 'd http_handler" where
  "serve_route env rt =
     (case rt of
        RDashboard \<Rightarrow> handleDashboard
      | RStats \<Rightarrow> handleStats env
      | RListJobs \<Rightarrow> handleListJobs env
      | RGetJob i \<Rightarrow> handleGetJob env i
      | RRetryJob i \<Rightarrow> handleRetryJob env i
      | RCancelJob i \<Rightarrow> handleCancelJob env i
      | RBatchRetry \<Rightarrow> handleBatchRetry env
      | RBatchCancel \<Rightarrow> handleBatchCancel env
      | RListQueues \<Rightarrow> handleListQueues env
      | RPauseQueue q \<Rightarrow> handlePauseQueue env q
      | RResumeQueue q \<Rightarrow> handleResumeQueue env q
      | RListWorkers \<Rightarrow> handleListWorkers env
      | RJobMetrics \<Rightarrow> handleJobMetrics env
      | RQueueMetrics \<Rightarrow> handleQueueMetrics env
      | RPrune \<Rightarrow> handlePrune env
      | REvents \<Rightarrow> (\<lambda>r sv. (\<lparr>rs_status = 200, rs_body = BodyNone, rs_cookies = []\<rparr>, sv)))"

definition mux :: "'d web_env \<Rightarrow> 'd http_handler" where
  "mux env r sv =
     (case route_of (rq_method r) (rq_path r) of
        None \<Rightarrow> (\<lparr>rs_status = 405, rs_body = BodyNone, rs_cookies = []\<rparr>, sv)
      | Some rt \<Rightarrow> serve_route env rt r sv)"


section \<open>Middlewares\<close>

record 'd web_setup =
  middlewares :: "'d http_middleware list"
  prefix :: string
  authEnabled :: bool

definition Use :: "'d http_middleware \<Rightarrow> 'd web_setup \<Rightarrow> 'd web_setup" where
  "Use mw su = su\<lparr>middlewares := middlewares su @ [mw]\<rparr>"

definition UseAuth :: "'d http_middleware \<Rightarrow> 'd web_setup \<Rightarrow> 'd web_setup" where
  "UseAuth mw su = Use mw (su\<lparr>authEnabled := True\<rparr>)"

definition cookiePath :: "'d web_setup \<Rightarrow> string" where
  "cookiePath su = (if prefix su = [] then ''/'' else prefix su)"

definition secureStringEqual :: "string \<Rightarrow> string \<Rightarrow> bool" where
  "secureStringEqual a b = (if length a \<noteq> length b then False else list_all2 (=) a b)"

text \<open>Thirty-two random bytes, or the generator's error, printed in lower-case hexadecimal.\<close>

definition hex_byte :: "char \<Rightarrow> string" where
  "hex_byte b = (let n = of_char b :: nat; digits = ''0123456789abcdef'' in [digits ! (n div 16), digits ! (n mod 16)])"

definition newCSRFToken :: "error + bytes \<Rightarrow> error + string" where
  "newCSRFToken rnd = (case rnd of Inl e \<Rightarrow> Inl e | Inr bs \<Rightarrow> Inr (concat (map hex_byte bs)))"

text \<open>\<open>token\<close> is a new token, should one be needed; a cookie is set with its path.\<close>

definition csrfMiddleware :: "error + string \<Rightarrow> string \<Rightarrow> 'd http_middleware" where
  "csrfMiddleware token path next r sv =
     (if rq_method r = ''GET'' \<or> rq_method r = ''HEAD'' \<or> rq_method r = ''OPTIONS''
      then (case rq_cookie r of
              Some _ \<Rightarrow> next r sv
            | None \<Rightarrow>
                (case token of
                   Inl _ \<Rightarrow> (writeError 500 ''could not create csrf token'', sv)
                 | Inr t \<Rightarrow> (case next r sv of (rs, sv') \<Rightarrow> (rs\<lparr>rs_cookies := (t, path) # rs_cookies rs\<rparr>, sv'))))
      else (case rq_cookie r of
              None \<Rightarrow> (writeError 403 ''invalid csrf token'', sv)
            | Some c \<Rightarrow>
                if rq_csrf r = [] \<or> \<not> secureStringEqual c (rq_csrf r) then (writeError 403 ''invalid csrf token'', sv)
                else next r sv))"

definition UseCSRF :: "error + string \<Rightarrow> 'd web_setup \<Rightarrow> 'd web_setup" where
  "UseCSRF token su = Use (csrfMiddleware token (cookiePath su)) su"

definition Handler :: "'d web_env \<Rightarrow> 'd web_setup \<Rightarrow> 'd http_handler" where
  "Handler env su =
     (let h = (if authEnabled su then mux env
               else (\<lambda>r sv. (writeError 401 ''tasker management authentication is not configured'', sv)))
      in wrap_all (middlewares su) h)"


section \<open>The event stream\<close>

datatype frame = StatsFrame GlobalStats | Unavailable | Keepalive

text \<open>
  What the runtime does next: the client went away, the five-second tick with the statistics it reads and whether the flush succeeds, or the
  twenty-second heartbeat.
\<close>

datatype sse_event = ClientGone | StatsTick "error + GlobalStats" bool | HeartbeatDue bool

definition send_stats :: "error + GlobalStats \<Rightarrow> frame" where
  "send_stats res = (case res of Inl _ \<Rightarrow> Unavailable | Inr stats \<Rightarrow> StatsFrame stats)"

fun sse_loop :: "sse_event list \<Rightarrow> frame list" where
  "sse_loop [] = []"
| "sse_loop (ClientGone # evs) = []"
| "sse_loop (StatsTick res ok # evs) = send_stats res # (if ok then sse_loop evs else [])"
| "sse_loop (HeartbeatDue ok # evs) = Keepalive # (if ok then sse_loop evs else [])"

text \<open>\<^verbatim>\<open>handleEvents\<close>: the headers are flushed, the first frame is sent at once, then the loop.\<close>

definition handleEvents :: "bool \<Rightarrow> error + GlobalStats \<Rightarrow> bool \<Rightarrow> sse_event list \<Rightarrow> frame list" where
  "handleEvents flushed first ok evs =
     (if \<not> flushed then [] else send_stats first # (if ok then sse_loop evs else []))"

end
