(* ===== verification/Supervisor_Properties.thy ===== *)
theory Supervisor_Properties
  imports Supervisor
begin

text \<open>
  What pools and the supervisor guarantee over every order of calls and ticks: workers have names of their own and are told to stop with their pool, the
  supervisor's pools run exactly while it does, and the bounds of pausing and scaling.
\<close>


section \<open>Names of workers\<close>

lemma worker_name_inj: "worker_name node q i = worker_name node q j \<Longrightarrow> i = j"
proof -
  assume "worker_name node q i = worker_name node q j"
  then have "digits_value (decimal i) = digits_value (decimal j)" by (simp add: worker_name_def)
  then show "i = j" by (simp add: digits_value_decimal)
qed

text \<open>A pool as its methods leave it, scaled only while it runs.\<close>

inductive pool_reach :: "node_id \<Rightarrow> Pool \<Rightarrow> bool" for node where
  new: "pool_reach node (NewPool q n)"
| start: "pool_reach node p \<Longrightarrow> pool_reach node (snd (Pool_Start node p))"
| stop: "pool_reach node p \<Longrightarrow> pool_reach node (snd (Pool_Stop ctx_err p))"
| scale: "pool_reach node p \<Longrightarrow> p_running p \<Longrightarrow> pool_reach node (Pool_Scale node target p)"

lemma pool_reach_ok: "pool_reach node p \<Longrightarrow> pool_ok node p"
  by (induction rule: pool_reach.induct) (auto intro: NewPool_ok Pool_Start_ok Pool_Stop_ok Pool_Scale_ok)



text \<open>Scaling a pool that is not running starts workers that no \<^verbatim>\<open>Stop\<close> reaches.\<close>

lemma scaling_a_stopped_pool_leaks:
  "\<not> p_running p \<Longrightarrow> int (length (p_workers p)) < target \<Longrightarrow> 1 \<le> target \<Longrightarrow>
    \<not> list_all w_done (p_workers (snd (Pool_Stop ctx_err (Pool_Scale node target p))))"
  by (cases rule: Pool_Scale_cases [of p target node])
    (auto simp: Pool_Stop_def start_workers_def list_all_iff
      intro!: bexI [of _ "newWorker (worker_name node (p_queue p) (length (p_workers p))) (p_queue p)"])


section \<open>The supervisor's pools\<close>

definition pools_ok :: "node_id \<Rightarrow> pools \<Rightarrow> bool" where
  "pools_ok node ps \<longleftrightarrow> distinct (map fst ps) \<and> (\<forall>(q, p) \<in> set ps. p_queue p = q \<and> p_running p \<and> pool_ok node p)"

lemma map_fst_put_pool: "map fst (put_pool q p ps) = (if q \<in> fst ` set ps then map fst ps else map fst ps @ [q])"
  by (auto simp: put_pool_def map_of_eq_None_iff comp_def split_def)

lemma put_pool_ok: "pools_ok node ps \<Longrightarrow> p_queue p = q \<Longrightarrow> p_running p \<Longrightarrow> pool_ok node p \<Longrightarrow> pools_ok node (put_pool q p ps)"
  unfolding pools_ok_def map_fst_put_pool by (auto simp: put_pool_def split: if_splits)

lemma map_of_put_pool: "map_of (put_pool q p ps) q = Some p"
proof (cases "map_of ps q")
  case None
  then show ?thesis by (simp add: put_pool_def map_add_def map_of_append)
next
  case (Some p0)
  have "map_of (map (\<lambda>(q', p'). (q', if q' = q then p else p')) ps) q = Some p" if "map_of ps q \<noteq> None"
    using that by (induction ps) auto
  with Some show ?thesis by (simp add: put_pool_def)
qed

lemma StartPool_ok:
  assumes "pools_ok node ps" "StartPool node q n ps = (Ret r, ps')"
  shows "pools_ok node ps'"
proof (cases "map_of ps q")
  case None
  obtain res p where start: "Pool_Start node (NewPool q n) = (res, p)" by fastforce
  have "pool_ok node p" "p_queue p = q"
    using Pool_Start_ok [OF NewPool_ok, of node q n] Pool_Start_queue [of node "NewPool q n"] start by simp_all
  with None start assms Pool_Start_None [of node "NewPool q n" p] show ?thesis
    by (auto simp: StartPool_def split: outcome.splits option.splits intro: put_pool_ok)
qed (use assms in \<open>auto simp: StartPool_def\<close>)

lemma start_pools_ok: "pools_ok node ps \<Longrightarrow> start_pools node qs ps = (Ret (), ps') \<Longrightarrow> pools_ok node ps'"
proof (induction qs arbitrary: ps)
  case (Cons x qs)
  obtain q qcfg where x: "x = (q, qcfg)" by fastforce
  obtain res ps1 where start: "StartPool node q (MaxWorkers qcfg) ps = (res, ps1)" by fastforce
  then obtain r where "res = Ret r" using Cons.prems(2) x by (cases res) auto
  with start x Cons show ?case using StartPool_ok by fastforce
qed simp

lemma ScalePool_ok: "pools_ok node ps \<Longrightarrow> pools_ok node (snd (ScalePool node q n ps))"
  by (auto simp: ScalePool_def split: option.split dest!: map_of_SomeD intro!: put_pool_ok Pool_Scale_ok)
    (auto simp: pools_ok_def)

lemma StopAll_None [simp]: "StopAll (\<lambda>_. None) ps = (None, [])"
  by (induction ps) (auto simp: Pool_Stop_def Let_def)

inductive sup_step :: "node_id \<Rightarrow> 'd node_driver \<Rightarrow> SupConfig \<Rightarrow> 'd supervisor \<Rightarrow> 'd supervisor \<Rightarrow> bool" for node drv cfg where
  start: "sup_Start node drv cfg now s = (Ret (), s') \<Longrightarrow> sup_step node drv cfg s s'"
| stop: "sup_Stop node drv (\<lambda>_. None) s = (res, s') \<Longrightarrow> sup_step node drv cfg s s'"
| pause: "PauseQueue node cfg q s = (err, s') \<Longrightarrow> sup_step node drv cfg s s'"
| resume: "ResumeQueue node cfg q s = (err, s') \<Longrightarrow> sup_step node drv cfg s s'"
| scale: "ScaleQueue node q n s = (err, s') \<Longrightarrow> sup_step node drv cfg s s'"
| ticks: "sup_loop node drv cfg ts s = (Ret (), s') \<Longrightarrow> sup_step node drv cfg s s'"

definition sup_ok :: "node_id \<Rightarrow> 'd supervisor \<Rightarrow> bool" where
  "sup_ok node s \<longleftrightarrow> pools_ok node (s_pools s) \<and> (\<not> s_running s \<longrightarrow> s_pools s = [] )"

lemma ScalePool_sup_ok: "sup_ok node s \<Longrightarrow> sup_ok node (s\<lparr>s_pools := snd (ScalePool node q n (s_pools s))\<rparr>)"
  by (auto simp: sup_ok_def ScalePool_ok) (simp add: ScalePool_def)

lemma ScalePool_driver_sup_ok:
  "sup_ok node s \<Longrightarrow> sup_ok node (s\<lparr>s_driver := d, s_pools := snd (ScalePool node q n (s_pools s))\<rparr>)"
  using ScalePool_sup_ok [of node s q n] by (simp add: sup_ok_def)

lemma sup_ok_driver [simp]: "sup_ok node (s\<lparr>s_driver := d\<rparr>) = sup_ok node s"
  by (simp add: sup_ok_def)

lemma doAutoscale_ok: "sup_ok node s \<Longrightarrow> sup_ok node (doAutoscale node drv qs s)"
  by (induction qs arbitrary: s) (auto simp: Let_def ScalePool_driver_sup_ok split: prod.splits sum.splits)

lemma sup_tick_ok: "sup_ok node s \<Longrightarrow> sup_ok node (sup_tick node drv cfg t s)"
  by (cases t) (auto simp: doHeartbeat_def doRequeue_def doPrune_def doAutoscale_ok)

lemma sup_loop_ok: "sup_ok node s \<Longrightarrow> sup_ok node (fold (\<lambda>t s. if s_cancelled s then s else sup_tick node drv cfg t s) ts s)"
  by (induction ts arbitrary: s) (auto simp: sup_tick_ok)

lemma sup_Start_ok:
  assumes "sup_ok node s" "sup_Start node drv cfg now s = (Ret (), s')"
  shows "sup_ok node s'"
proof (cases "s_running s")
  case True
  with assms show ?thesis by (simp add: sup_Start_def)
next
  case False
  obtain res ps where ps: "start_pools node (sc_Queues cfg) (s_pools s) = (res, ps)" by fastforce
  with assms False have "res = Ret ()" "s_pools s' = ps" "s_running s'"
    by (auto simp: sup_Start_def Let_def split: outcome.splits)
  with ps assms(1) start_pools_ok [of node "s_pools s" "sc_Queues cfg" ps] show ?thesis by (simp add: sup_ok_def)
qed

lemma sup_Stop_ok: "sup_ok node s \<Longrightarrow> sup_ok node (snd (sup_Stop node drv (\<lambda>_. None) s))"
  by (simp add: sup_Stop_def Let_def sup_ok_def pools_ok_def)

lemma sup_queue_ops_ok:
  "sup_ok node s \<Longrightarrow> sup_ok node (snd (ScaleQueue node q n s))"
  "sup_ok node s \<Longrightarrow> sup_ok node (snd (PauseQueue node cfg q s))"
  "sup_ok node s \<Longrightarrow> sup_ok node (snd (ResumeQueue node cfg q s))"
  using ScalePool_sup_ok [of node s]
  by (auto simp: ScaleQueue_def PauseQueue_def ResumeQueue_def split: option.split prod.split) (metis snd_conv)+

lemma sup_step_ok: "sup_step node drv cfg s s' \<Longrightarrow> sup_ok node s \<Longrightarrow> sup_ok node s'"
proof (induction rule: sup_step.induct)
  case (start now s s')
  then show ?case by (blast intro: sup_Start_ok)
next
  case (stop s res s')
  then show ?case using sup_Stop_ok [of node s drv] by simp
next
  case (pause q s err s')
  then show ?case using sup_queue_ops_ok(2) [of node s cfg q] by simp
next
  case (resume q s err s')
  then show ?case using sup_queue_ops_ok(3) [of node s cfg q] by simp
next
  case (scale q n s err s')
  then show ?case using sup_queue_ops_ok(1) [of node s q n] by simp
next
  case (ticks ts s s')
  then show ?case using sup_loop_ok [of node s drv cfg ts] by (auto simp: sup_loop_def split: if_splits)
qed


definition silent_driver :: "unit node_driver" where
  "silent_driver = \<lparr>nd_RegisterNode = \<lambda>_ _ d. (None, d), nd_DeregisterNode = \<lambda>_ d. (None, d), nd_Heartbeat = \<lambda>_ _ d. (None, d),
     nd_RequeueStale = \<lambda>_ d. (Inr 0, d), nd_Prune = \<lambda>_ _ d. (Inr 0, d), nd_QueueStats = \<lambda>q d. (Inr (zero_queue_stats q), d),
     nd_IsLeader = \<lambda>_ d. ((False, None), d), nd_LeaderElection = \<lambda>_ _ d. ((True, None), d)\<rparr>"

definition started :: "unit supervisor" where
  "started = snd (sup_Start ''n'' silent_driver sup_DefaultConfig 5 (sup_New ()))"

lemma started_reached: "(sup_step ''n'' silent_driver sup_DefaultConfig)\<^sup>*\<^sup>* (sup_New ()) started"
proof (rule r_into_rtranclp, rule sup_step.start)
  show "sup_Start ''n'' silent_driver sup_DefaultConfig 5 (sup_New ()) = (Ret (), started)"
    by (simp add: started_def sup_Start_def sup_New_def sup_DefaultConfig_def StartPool_def Pool_Start_def NewPool_def Let_def)
qed



section \<open>Pausing and scaling\<close>

lemma ScalePool_workers:
  assumes "map_of (s_pools s) q = Some p" "ScalePool node q n (s_pools s) = (err, ps)"
  shows "err = None \<and> (\<exists>p'. map_of ps q = Some p' \<and> Pool_WorkerCount p' = max 1 n)"
  using assms by (auto simp: ScalePool_def map_of_put_pool Pool_WorkerCount_def Pool_Scale_length)

text \<open>Pausing scales to zero, which a pool takes for one; a later scaling takes effect.\<close>

lemma pausing_leaves_one_worker_core:
  assumes "map_of (sc_Queues cfg) q = Some qcfg" and "map_of (s_pools s) q = Some p"
  shows "\<exists>s' p'. PauseQueue node cfg q s = (None, s') \<and> map_of (s_pools s') q = Some p' \<and> Pool_WorkerCount p' = 1 \<and>
    (\<forall>n. \<exists>s'' p''. ScaleQueue node q n s' = (None, s'') \<and> map_of (s_pools s'') q = Some p'' \<and> Pool_WorkerCount p'' = max 1 n)"
proof -
  obtain err ps where ps: "ScalePool node q 0 (s_pools s) = (err, ps)" by fastforce
  from ScalePool_workers [OF assms(2) this] obtain p' where p': "err = None" "map_of ps q = Some p'" "Pool_WorkerCount p' = 1" by auto
  have "\<exists>s'' p''. ScaleQueue node q n (s\<lparr>s_pools := ps\<rparr>) = (None, s'') \<and> map_of (s_pools s'') q = Some p'' \<and> Pool_WorkerCount p'' = max 1 n" for n
  proof -
    obtain err2 ps2 where ps2: "ScalePool node q n ps = (err2, ps2)" by fastforce
    with ScalePool_workers [of "s\<lparr>s_pools := ps\<rparr>" q p' node n err2 ps2] p'(2) show ?thesis by (simp add: ScaleQueue_def)
  qed
  with ps p' assms(1) show ?thesis
    by (intro exI [of _ "s\<lparr>s_pools := ps\<rparr>"] exI [of _ p']) (simp add: PauseQueue_def)
qed

lemma started_pool: "\<exists>p. map_of (s_pools started) ''default'' = Some p"
  by (simp add: started_def sup_Start_def sup_New_def sup_DefaultConfig_def StartPool_def Pool_Start_def NewPool_def Let_def put_pool_def)

text \<open>
  The number of workers the autoscaler asks for lies between the configured bounds, is the lower bound when nothing waits, never falls as more work waits, and
  is half of the waiting jobs in between.\<close>

theorem desired_workers_within_bounds:
  assumes "0 \<le> MinWorkers cfg" and "MinWorkers cfg \<le> MaxWorkers cfg"
    and "0 \<le> qs_Available a + qs_Retryable a" and "qs_Available a + qs_Retryable a \<le> qs_Available b + qs_Retryable b"
    and "qs_Available b + qs_Retryable b < 2 ^ 63"
  shows "MinWorkers cfg \<le> computeDesiredWorkers a cfg \<and> computeDesiredWorkers a cfg \<le> MaxWorkers cfg \<and>
    computeDesiredWorkers a cfg \<le> computeDesiredWorkers b cfg \<and>
    computeDesiredWorkers a cfg = max (MinWorkers cfg) (min (MaxWorkers cfg) ((qs_Available a + qs_Retryable a) div 2))"
proof -
  have "int64 (qs_Available a + qs_Retryable a) = qs_Available a + qs_Retryable a"
    "int64 (qs_Available b + qs_Retryable b) = qs_Available b + qs_Retryable b"
    using assms(3-5) by (auto intro: int64_id)
  moreover have "(qs_Available a + qs_Retryable a) div 2 \<le> (qs_Available b + qs_Retryable b) div 2"
    using assms(4) by (rule zdiv_mono1) simp
  ultimately show ?thesis
    using assms by (auto simp: computeDesiredWorkers_def Let_def)
qed

theorem desired_workers_within_bounds_witness:
  "computeDesiredWorkers ((zero_queue_stats ''q'')\<lparr>qs_Available := 7\<rparr>) \<lparr>MaxWorkers = 10, MinWorkers = 1\<rparr> = 3"
  using desired_workers_within_bounds [of "\<lparr>MaxWorkers = 10, MinWorkers = 1\<rparr>" "(zero_queue_stats ''q'')\<lparr>qs_Available := 7\<rparr>"
      "(zero_queue_stats ''q'')\<lparr>qs_Available := 7\<rparr>"]
  by (simp add: zero_queue_stats_def)

text \<open>
  The autoscaler compares what one queue should have with the workers of all queues: here the first of two queues should have two workers and has
  one, and is left as it is because the two pools have two workers together.\<close>

lemma autoscale_mixes_queues:
  "\<exists>(drv :: unit node_driver) cfg s. MaxWorkers cfg = 10 \<and> MinWorkers cfg = 1 \<and>
     computeDesiredWorkers ((zero_queue_stats ''a'')\<lparr>qs_Available := 4\<rparr>) cfg = 2 \<and>
     nd_QueueStats drv ''a'' () = (Inr ((zero_queue_stats ''a'')\<lparr>qs_Available := 4\<rparr>), ()) \<and>
     map_option Pool_WorkerCount (map_of (s_pools s) ''a'') = Some 1 \<and> doAutoscale ''n'' drv [(''a'', cfg)] s = s"
proof -
  let ?drv = "silent_driver\<lparr>nd_QueueStats := \<lambda>q d. (Inr ((zero_queue_stats q)\<lparr>qs_Available := 4\<rparr>), d)\<rparr>"
  let ?cfg = "\<lparr>MaxWorkers = 10, MinWorkers = 1\<rparr>"
  let ?p = "\<lambda>q. snd (Pool_Start ''n'' (NewPool q 1))"
  let ?s = "(sup_New ())\<lparr>s_running := True, s_pools := [(''a'', ?p ''a''), (''b'', ?p ''b'')]\<rparr>"
  have desired: "computeDesiredWorkers ((zero_queue_stats ''a'')\<lparr>qs_Available := 4\<rparr>) ?cfg = 2"
    by (simp add: computeDesiredWorkers_def zero_queue_stats_def int64_def)
  have one: "Pool_WorkerCount (?p q) = 1" for q by (simp add: Pool_Start_def Pool_WorkerCount_def)
  then have "WorkerCount (s_pools ?s) = 2" by (simp add: WorkerCount_def)
  with desired have "doAutoscale ''n'' ?drv [(''a'', ?cfg)] ?s = ?s" by (simp add: Let_def sup_New_def)
  with desired one show ?thesis
    by (intro exI [of _ ?drv] exI [of _ ?cfg] exI [of _ ?s]) simp
qed


section \<open>Stopping twice\<close>

text \<open>A supervisor that was stopped, started again and stopped again panics on the channel it closed the first time.\<close>

lemma second_stop_panics:
  "s_running s \<Longrightarrow> s_stopped s \<Longrightarrow> fst (sup_Stop node drv ctx_err s) = Panic ()"
  by (simp add: sup_Stop_def Let_def)


section \<open>The leader's lease\<close>

text \<open>The Redis driver as the supervisor and the coordinator call it, in one instant.\<close>

definition on_keys :: "(redis_keys \<Rightarrow> 'a \<times> redis_keys) \<Rightarrow> redis \<times> redis_keys \<Rightarrow> 'a \<times> redis \<times> redis_keys" where
  "on_keys f d = (case f (snd d) of (res, keys) \<Rightarrow> (res, (fst d, keys)))"

definition on_jobs :: "(redis \<Rightarrow> 'a \<times> redis) \<Rightarrow> redis \<times> redis_keys \<Rightarrow> 'a \<times> redis \<times> redis_keys" where
  "on_jobs f d = (case f (fst d) of (res, st) \<Rightarrow> (res, (st, snd d)))"

definition redis_node_driver :: "redis_env \<Rightarrow> cluster_env \<Rightarrow> (redis \<times> redis_keys) node_driver" where
  "redis_node_driver env cenv =
     \<lparr>nd_RegisterNode = \<lambda>node ttl. on_keys (redis_RegisterNode cenv node ttl),
      nd_DeregisterNode = \<lambda>n. on_keys (redis_DeregisterNode cenv n),
      nd_Heartbeat = \<lambda>n ttl. on_keys (redis_Heartbeat cenv n ttl),
      nd_RequeueStale = \<lambda>t. on_jobs (redis_RequeueStale env t),
      nd_Prune = \<lambda>t sts. on_jobs (redis_Prune env t sts),
      nd_QueueStats = \<lambda>q d. (redis_QueueStats env q (fst d), d),
      nd_IsLeader = \<lambda>n d. (redis_IsLeader cenv n (snd d), d),
      nd_LeaderElection = \<lambda>n ttl. on_keys (redis_LeaderElection cenv n ttl)\<rparr>"

lemma leader_tick_keeps:
  assumes "k_lease (snd d) LeaderKey = Some (cc_NodeID cfg, expires)" "srv_ms cenv \<le> expires"
  shows "tryBecomeLeader (redis_node_driver env cenv) cfg d = d"
  using assms by (simp add: tryBecomeLeader_def redis_node_driver_def redis_IsLeader_def live_def split: option.split)


definition at_ms :: "int \<Rightarrow> cluster_env" where
  "at_ms t = \<lparr>srv_ms = t, wall = 0, c_pre = None, c_post = None, c_read = \<lambda>_. None\<rparr>"


end
