(* ===== verification/Commands.thy ===== *)
theory Commands
  imports Web Supervisor_Properties
begin

text \<open>
  The manager's forwarding methods (\<^verbatim>\<open>tasker.go\<close>), the batcher (\<^verbatim>\<open>batch/batch.go\<close>) and the terminal commands of \<^verbatim>\<open>cmd\<close>. The command
  library is a parameter as far as it decides which flags a command sees; a process has at most one global manager, whose driver
  is the record of operations \<open>web_driver\<close>. Both drivers are given as such records.
\<close>


section \<open>The manager and the batcher\<close>

definition Manager_Retry :: "'d web_driver \<Rightarrow> job_id \<Rightarrow> 'd \<Rightarrow> (error + JobRow) \<times> 'd" where
  "Manager_Retry drv i d = wd_Retry drv i d"

definition Manager_RetryBatch :: "'d web_driver \<Rightarrow> job_id list \<Rightarrow> 'd \<Rightarrow> error option \<times> 'd" where
  "Manager_RetryBatch drv ids d = wd_RetryBatch drv ids d"

definition Manager_Cancel :: "'d web_driver \<Rightarrow> job_id \<Rightarrow> 'd \<Rightarrow> (error + JobRow) \<times> 'd" where
  "Manager_Cancel drv i d = wd_Cancel drv i d"

definition Manager_CancelBatch :: "'d web_driver \<Rightarrow> job_id list \<Rightarrow> 'd \<Rightarrow> error option \<times> 'd" where
  "Manager_CancelBatch drv ids d = wd_CancelBatch drv ids d"

definition Manager_GetJob :: "'d web_driver \<Rightarrow> job_id \<Rightarrow> 'd \<Rightarrow> (error + JobRow) \<times> 'd" where
  "Manager_GetJob drv i d = wd_GetByID drv i d"

definition Manager_QueryJobs :: "'d web_driver \<Rightarrow> JobFilter \<Rightarrow> 'd \<Rightarrow> (error + JobRow list \<times> int) \<times> 'd" where
  "Manager_QueryJobs drv f d = wd_QueryJobs drv f d"

definition Manager_QueueStats :: "'d web_driver \<Rightarrow> queue_name \<Rightarrow> 'd \<Rightarrow> (error + QueueStats) \<times> 'd" where
  "Manager_QueueStats drv q d = wd_QueueStats drv q d"

definition Manager_GlobalStats :: "'d web_driver \<Rightarrow> 'd \<Rightarrow> (error + GlobalStats) \<times> 'd" where
  "Manager_GlobalStats drv d = wd_GlobalStats drv d"

definition Manager_JobStats :: "'d web_driver \<Rightarrow> string \<Rightarrow> 'd \<Rightarrow> (error + JobTypeStats) \<times> 'd" where
  "Manager_JobStats drv kind d = wd_JobStats drv kind d"

definition Batcher_Dispatch ::
    "'d batch_op \<Rightarrow> 'd DispatchMiddleware list \<Rightarrow> ManagerConfig \<Rightarrow> (nat \<Rightarrow> build_env) \<Rightarrow> Job list \<Rightarrow> DispatchOpt list \<Rightarrow> 'd \<Rightarrow> (error + JobRow list) \<times> 'd" where
  "Batcher_Dispatch EnqueueBatch mws cfg envs js opts d = DispatchBatch EnqueueBatch mws cfg envs js opts d"

definition Batcher_Retry :: "'d web_driver \<Rightarrow> job_id list \<Rightarrow> 'd \<Rightarrow> error option \<times> 'd" where
  "Batcher_Retry drv ids d = Manager_RetryBatch drv ids d"

definition Batcher_Cancel :: "'d web_driver \<Rightarrow> job_id list \<Rightarrow> 'd \<Rightarrow> error option \<times> 'd" where
  "Batcher_Cancel drv ids d = Manager_CancelBatch drv ids d"


section \<open>Flags\<close>

text \<open>
  A command declares flags of its own, and flags it shares with its subcommands; a subcommand sees its own and the shared ones of its parent. A
  lookup of a flag the command does not see gives no values (the code drops the error).
\<close>

record command_flags =
  own_flags :: "(string \<times> string list) list"
  shared_flags :: "(string \<times> string list) list"

definition GetStringSlice :: "command_flags \<Rightarrow> command_flags \<Rightarrow> string \<Rightarrow> string list" where
  "GetStringSlice sub parent name =
     (case map_of (own_flags sub @ shared_flags sub @ shared_flags parent) name of None \<Rightarrow> [] | Some vs \<Rightarrow> vs)"

definition job_command_flags :: command_flags where
  "job_command_flags = \<lparr>own_flags = [(''states'', [''failed'', ''cancelled''])], shared_flags = []\<rparr>"

definition clear_flags :: command_flags where
  "clear_flags = \<lparr>own_flags = [], shared_flags = []\<rparr>"

text \<open>\<^verbatim>\<open>cobra.ExactArgs(1)\<close>\<close>

definition exact_one :: "string list \<Rightarrow> error + string" where
  "exact_one args = (case args of [a] \<Rightarrow> Inr a | _ \<Rightarrow> Inl (Errorf ''accepts 1 arg(s)''))"


section \<open>Job commands\<close>

definition id_command :: "('d web_driver \<Rightarrow> job_id \<Rightarrow> 'd \<Rightarrow> (error + JobRow) \<times> 'd) \<Rightarrow> 'd web_driver option \<Rightarrow> string list \<Rightarrow> 'd \<Rightarrow> error option \<times> 'd" where
  "id_command act mgr args d =
     (case exact_one args of
        Inl e \<Rightarrow> (Some e, d)
      | Inr a \<Rightarrow>
          (case mgr of
             None \<Rightarrow> (None, d)
           | Some drv \<Rightarrow>
               (case ParseUint a of
                  Inl e \<Rightarrow> (Some e, d)
                | Inr i \<Rightarrow> (case act drv i d of (Inl e, d') \<Rightarrow> (Some e, d') | (Inr _, d') \<Rightarrow> (None, d')))))"

definition job_retry_command :: "'d web_driver option \<Rightarrow> string list \<Rightarrow> 'd \<Rightarrow> error option \<times> 'd" where
  "job_retry_command mgr args d = id_command Manager_Retry mgr args d"

definition job_cancel_command :: "'d web_driver option \<Rightarrow> string list \<Rightarrow> 'd \<Rightarrow> error option \<times> 'd" where
  "job_cancel_command mgr args d = id_command Manager_Cancel mgr args d"

definition job_clear_command :: "'d web_driver option \<Rightarrow> command_flags \<Rightarrow> command_flags \<Rightarrow> time \<Rightarrow> 'd \<Rightarrow> error option \<times> 'd" where
  "job_clear_command mgr flags parent now d =
     (case mgr of
        None \<Rightarrow> (None, d)
      | Some drv \<Rightarrow>
          (case wd_Prune drv now (map state_of_string (GetStringSlice flags parent ''states'')) d of
             (Inl e, d') \<Rightarrow> (Some e, d') | (Inr _, d') \<Rightarrow> (None, d')))"


section \<open>Queue command\<close>

definition int_text :: "int \<Rightarrow> string" where
  "int_text n = (if n < 0 then ''-'' @ decimal (nat (- n)) else decimal (nat n))"

definition stats_lines :: "QueueStats \<Rightarrow> string list" where
  "stats_lines st =
     [''Queue: '' @ qs_Queue st,
      ''  Available: '' @ int_text (qs_Available st),
      ''  Running:   '' @ int_text (qs_Running st),
      ''  Completed: '' @ int_text (qs_Completed st),
      ''  Failed:    '' @ int_text (qs_Failed st),
      ''  Retryable: '' @ int_text (qs_Retryable st),
      ''  Scheduled: '' @ int_text (qs_Scheduled st),
      []]"

fun list_queues :: "'d web_driver \<Rightarrow> queue_name list \<Rightarrow> 'd \<Rightarrow> string list \<times> 'd" where
  "list_queues drv [] d = ([], d)"
| "list_queues drv (q # qs) d =
     (case Manager_QueueStats drv q d of
        (Inl e, d1) \<Rightarrow> list_queues drv qs d1
      | (Inr st, d1) \<Rightarrow> (case list_queues drv qs d1 of (out, d2) \<Rightarrow> (stats_lines st @ out, d2)))"

definition queue_list_command :: "'d web_driver option \<Rightarrow> 'd \<Rightarrow> string list \<times> 'd" where
  "queue_list_command mgr d = (case mgr of None \<Rightarrow> ([], d) | Some drv \<Rightarrow> list_queues drv [''default''] d)"


section \<open>Work command\<close>

text \<open>The map of queues: a queue named twice has one entry.\<close>

definition put_queue :: "queue_name \<Rightarrow> QueueConfig \<Rightarrow> (queue_name \<times> QueueConfig) list \<Rightarrow> (queue_name \<times> QueueConfig) list" where
  "put_queue q qcfg qs = (if q \<in> fst ` set qs then map (\<lambda>(q', c). (q', if q' = q then qcfg else c)) qs else qs @ [(q, qcfg)])"

definition work_config :: "queue_name list \<Rightarrow> int \<Rightarrow> SupConfig" where
  "work_config queues workers =
     (let qcfg = \<lparr>MaxWorkers = workers, MinWorkers = 1\<rparr>;
          qs = fold (\<lambda>q. put_queue q qcfg) queues []
      in sup_DefaultConfig\<lparr>sc_Queues := (if qs = [] then put_queue ''default'' qcfg qs else qs)\<rparr>)"

text \<open>
  The command from its start to its end: exit status 1 without a manager; else the supervisor runs until a signal arrives, making \<open>ticks\<close>, and is stopped.
\<close>

datatype 'd work_end = WorkExit nat | WorkPanic "'d supervisor" | WorkDone "'d supervisor"

definition work_command ::
    "'d node_driver option \<Rightarrow> node_id \<Rightarrow> queue_name list \<Rightarrow> int \<Rightarrow> time \<Rightarrow> tick list \<Rightarrow> (queue_name \<Rightarrow> error option) \<Rightarrow> 'd \<Rightarrow> 'd work_end" where
  "work_command mgr node queues workers now ticks ctx_err d =
     (case mgr of
        None \<Rightarrow> WorkExit 1
      | Some drv \<Rightarrow>
          let cfg = work_config queues workers in
          (case sup_Start node drv cfg now (sup_New d) of
             (Panic _, s) \<Rightarrow> WorkPanic s
           | (Ret _, s1) \<Rightarrow>
               (case sup_loop node drv cfg ticks s1 of
                  (Panic _, s2) \<Rightarrow> WorkPanic s2
                | (Ret _, s2) \<Rightarrow>
                    (case sup_Stop node drv ctx_err s2 of (Panic _, s3) \<Rightarrow> WorkPanic s3 | (Ret _, s3) \<Rightarrow> WorkDone s3))))"


section \<open>The drivers as records\<close>

definition sql_web_driver :: "(string \<Rightarrow> string) \<Rightarrow> query_env \<Rightarrow> Dialect \<Rightarrow> sql_db web_driver" where
  "sql_web_driver lower qe d = (let env = q_sql qe in
     \<lparr>wd_QueryJobs = (\<lambda>f db. (sql_QueryJobs lower qe d f db, db)),
      wd_GetByID = (\<lambda>i db. (sql_GetByID env 0 i db, db)),
      wd_Retry = (\<lambda>i db. sql_Retry d env i db),
      wd_Cancel = (\<lambda>i db. sql_Cancel env i db),
      wd_RetryBatch = (\<lambda>ids db. sql_RetryBatch d env ids db),
      wd_CancelBatch = (\<lambda>ids db. sql_CancelBatch env ids db),
      wd_GlobalStats = (\<lambda>db. (sql_GlobalStats qe db, db)),
      wd_QueueStats = (\<lambda>q db. (sql_QueueStats qe q db, db)),
      wd_JobStats = (\<lambda>k db. (sql_JobStats qe k db, db)),
      wd_ListNodes = (\<lambda>db. (sql_ListNodes env db, db)),
      wd_Prune = (\<lambda>t sts db. sql_Prune env t sts db)\<rparr>)"

end
