(* ===== verification/Query_Properties.thy ===== *)
theory Query_Properties
  imports Queries
begin

text \<open>
  What listings and statistics guarantee: the placeholders of the SQL query fit its arguments, both drivers select the same jobs, pages of a
  Redis listing partition it, the counters of both drivers agree, and the number of processes is the number of nodes listed.
\<close>


section \<open>Numbered placeholders\<close>

fun condition_marks :: "condition \<Rightarrow> nat list" where
  "condition_marks (CondIn col ks) = ks"
| "condition_marks (CondSearch k1 k2) = [k1, k2]"
| "condition_marks (CondTag k) = [k]"

text \<open>
  The numbers read from left to right count the arguments. \<open>numbered\<close> is kept by every step of the building, and what the conditions built so
  far say about a row does not change as arguments are appended.
\<close>

definition numbered :: "query_build \<Rightarrow> bool" where
  "numbered b \<longleftrightarrow> concat (map condition_marks (qb_conditions b)) = [1..<qb_argIdx b] \<and> qb_argIdx b = length (qb_args b) + 1"

lemma number_values_eq:
  "number_values vs b =
    ([qb_argIdx b..<qb_argIdx b + length vs], b\<lparr>qb_args := qb_args b @ vs, qb_argIdx := qb_argIdx b + length vs\<rparr>)"
  by (induction vs arbitrary: b) (simp_all add: upt_conv_Cons del: upt_Suc)

lemma upt_split: "i \<le> j \<Longrightarrow> j \<le> k \<Longrightarrow> [i..<j] @ [j..<k] = [i..<k]"
  by (metis le_iff_add upt_add_eq_append)

lemma numbered_add_in: "numbered b \<Longrightarrow> numbered (add_in col vs b)"
  by (auto simp: numbered_def add_in_def number_values_eq upt_split simp del: upt_Suc)

lemma numbered_add_search: "numbered b \<Longrightarrow> numbered (add_search t b)"
  by (auto simp: numbered_def add_search_def Let_def)

lemma numbered_add_tag: "numbered b \<Longrightarrow> numbered (add_tag t b)"
  by (auto simp: numbered_def add_tag_def)

lemma numbered_add_tags: "numbered b \<Longrightarrow> numbered (fold add_tag ts b)"
  by (induction ts arbitrary: b) (auto intro: numbered_add_tag)

lemma numbered_build_where: "numbered (build_where f)"
  unfolding build_where_def Let_def
  by (intro numbered_add_tags numbered_add_search numbered_add_in) (simp add: numbered_def)

text \<open>
  Property C24. In the query \<^verbatim>\<open>QueryJobs\<close> builds, the placeholders from left to right are numbered 1, 2, 3 and so on, one for every argument in order: the
  numbered placeholders of Postgres and the positional ones of MySQL and SQLite mean the same arguments, for every filter.\<close>

theorem sql_placeholders_match_arguments:
  "concat (map condition_marks (qb_conditions (build_where f))) = [1..<length (qb_args (build_where f)) + 1] \<and>
    qb_argIdx (build_where f) = length (qb_args (build_where f)) + 1"
  using numbered_build_where [of f] by (simp add: numbered_def)


section \<open>What the conditions select\<close>

definition holds_all :: "query_env \<Rightarrow> Dialect \<Rightarrow> query_build \<Rightarrow> JobRow \<Rightarrow> bool" where
  "holds_all qe d b r = list_all (\<lambda>c. condition_holds qe d (qb_args b) c r) (qb_conditions b)"

lemma condition_holds_append:
  assumes "\<forall>k \<in> set (condition_marks c). 1 \<le> k \<and> k \<le> length args"
  shows "condition_holds qe d (args @ xs) c r = condition_holds qe d args c r"
proof -
  have "(args @ xs) ! (k - 1) = args ! (k - 1)" if "k \<in> set (condition_marks c)" for k
  proof -
    have "1 \<le> k" "k \<le> length args" using assms that by auto
    then have "k - 1 < length args" by linarith
    then show ?thesis by (simp add: nth_append)
  qed
  then show ?thesis by (cases c) (auto simp: list_ex_iff)
qed

lemma holds_all_append:
  assumes "numbered b"
  shows "list_all (\<lambda>c. condition_holds qe d (qb_args b @ xs) c r) (qb_conditions b) = holds_all qe d b r"
proof -
  have "1 \<le> k \<and> k \<le> length (qb_args b)" if "c \<in> set (qb_conditions b)" "k \<in> set (condition_marks c)" for c k
  proof -
    have "k \<in> set (concat (map condition_marks (qb_conditions b)))" using that by auto
    then show ?thesis using assms unfolding numbered_def by auto
  qed
  then show ?thesis
    unfolding holds_all_def list_all_iff using condition_holds_append by blast
qed

lemma holds_all_add_in:
  assumes "numbered b"
  shows "holds_all qe d (add_in col vs b) r \<longleftrightarrow> holds_all qe d b r \<and> (vs = [] \<or> column_text col r \<in> set vs)"
proof (cases "vs = []")
  case False
  have idx: "qb_argIdx b = length (qb_args b) + 1" using assms by (simp add: numbered_def)
  have "list_ex (\<lambda>k. column_text col r = (qb_args b @ vs) ! (k - 1)) [qb_argIdx b..<qb_argIdx b + length vs] \<longleftrightarrow>
      (\<exists>i < length vs. column_text col r = vs ! i)" (is "?l \<longleftrightarrow> ?r")
  proof
    assume ?l
    then obtain k where "qb_argIdx b \<le> k" "k < qb_argIdx b + length vs" "column_text col r = (qb_args b @ vs) ! (k - 1)"
      by (auto simp: list_ex_iff simp del: upt_Suc)
    with idx show ?r by (intro exI [of _ "k - qb_argIdx b"]) (auto simp: nth_append)
  next
    assume ?r
    then obtain i where "i < length vs" "column_text col r = vs ! i" by blast
    with idx show ?l by (auto simp: list_ex_iff nth_append simp del: upt_Suc intro!: bexI [of _ "i + qb_argIdx b"])
  qed
  with False holds_all_append [OF assms] show ?thesis
    by (simp add: add_in_def number_values_eq holds_all_def in_set_conv_nth) (metis (no_types))
qed (simp add: add_in_def)

lemma holds_all_add_search:
  assumes "numbered b"
  shows "holds_all qe d (add_search t b) r \<longleftrightarrow> holds_all qe d b r \<and>
    (t = [] \<or> like (like_escape d) (q_fold qe (''%'' @ t @ ''%'')) (q_fold qe (Kind r)) \<or>
      like (like_escape d) (q_fold qe (''%'' @ t @ ''%'')) (q_fold qe (UUID r)))"
  using assms holds_all_append [OF assms]
  by (auto simp: add_search_def Let_def holds_all_def numbered_def nth_append)

lemma holds_all_add_tag:
  assumes "numbered b"
  shows "holds_all qe d (add_tag t b) r \<longleftrightarrow> holds_all qe d b r \<and> sql_has_tag qe d t r"
  using assms holds_all_append [OF assms]
  by (auto simp: add_tag_def holds_all_def numbered_def)

lemma holds_all_add_tags:
  "numbered b \<Longrightarrow> holds_all qe d (fold add_tag ts b) r \<longleftrightarrow> holds_all qe d b r \<and> list_all (\<lambda>t. sql_has_tag qe d t r) ts"
  by (induction ts arbitrary: b) (auto simp: holds_all_add_tag numbered_add_tag)

lemma sql_where_selects:
  "sql_where qe d f r \<longleftrightarrow>
    (jf_States f = [] \<or> string_of_state (State r) \<in> string_of_state ` set (jf_States f)) \<and>
    (jf_Queues f = [] \<or> Queue r \<in> set (jf_Queues f)) \<and> (jf_Kinds f = [] \<or> Kind r \<in> set (jf_Kinds f)) \<and>
    (jf_Search f = [] \<or> like (like_escape d) (q_fold qe (''%'' @ jf_Search f @ ''%'')) (q_fold qe (Kind r)) \<or>
      like (like_escape d) (q_fold qe (''%'' @ jf_Search f @ ''%'')) (q_fold qe (UUID r))) \<and>
    list_all (\<lambda>t. sql_has_tag qe d t r) (jf_Tags f)"
proof -
  let ?b0 = "\<lparr>qb_conditions = [], qb_args = [], qb_argIdx = 1\<rparr>"
  have "numbered ?b0" "holds_all qe d ?b0 r" by (simp_all add: numbered_def holds_all_def)
  then show ?thesis
    unfolding sql_where_def Let_def holds_all_def [symmetric] build_where_def
    by (simp add: holds_all_add_tags holds_all_add_search holds_all_add_in numbered_add_in numbered_add_search column_text_def)
qed


section \<open>Searching\<close>

definition wild :: "char \<Rightarrow> bool" where
  "wild c \<longleftrightarrow> c = CHR ''%'' \<or> c = CHR ''_'' \<or> c = CHR 0x5C"

declare like.simps(2) [simp del]

lemma like_escape_wild: "like_escape d = Some c \<Longrightarrow> wild c \<and> c \<noteq> CHR ''%''"
  by (auto simp: like_escape_def wild_def split: if_splits)

lemma like_percent:
  "like (like_escape d) (CHR ''%'' # q) s \<longleftrightarrow> (\<exists>a b. s = a @ b \<and> like (like_escape d) q b)"
proof -
  have esc: "like_escape d \<noteq> Some CHR ''%''" using like_escape_wild by blast
  show ?thesis
  proof (induction s)
    case Nil
    with esc show ?case by (simp add: like.simps(2))
  next
    case (Cons c s)
    from esc have "like (like_escape d) (CHR ''%'' # q) (c # s) \<longleftrightarrow>
        like (like_escape d) q (c # s) \<or> like (like_escape d) (CHR ''%'' # q) s"
      by (subst like.simps(2)) simp
    also have "\<dots> \<longleftrightarrow> (\<exists>a b. c # s = a @ b \<and> like (like_escape d) q b)"
      unfolding Cons.IH by (metis append_Cons append_Nil append_eq_Cons_conv)
    finally show ?case .
  qed
qed

lemma like_plain:
  "list_all (\<lambda>c. \<not> wild c) p \<Longrightarrow> like (like_escape d) (p @ q) s \<longleftrightarrow> (\<exists>b. s = p @ b \<and> like (like_escape d) q b)"
proof (induction p arbitrary: s)
  case (Cons c p)
  then have "like_escape d \<noteq> Some c" "c \<noteq> CHR ''%''" "c \<noteq> CHR ''_''"
    using like_escape_wild [of d c] by (auto simp: wild_def)
  with Cons show ?case by (cases s) (auto simp: like.simps(2))
qed simp

lemma is_prefix_of_iff: "is_prefix_of p s \<longleftrightarrow> (\<exists>b. s = p @ b)"
  by (induction p s rule: is_prefix_of.induct) auto

lemma strings_Contains_iff: "strings_Contains s p \<longleftrightarrow> (\<exists>a b. s = a @ p @ b)"
proof (induction s)
  case (Cons c s)
  then show ?case
    by (simp add: is_prefix_of_iff) (metis append_Cons append_Nil append_eq_Cons_conv)
qed simp

lemma like_search:
  assumes "list_all (\<lambda>c. \<not> wild c) p"
  shows "like (like_escape d) (''%'' @ p @ ''%'') s \<longleftrightarrow> strings_Contains s p"
proof -
  have all: "like (like_escape d) ''%'' b" for b
    by (subst like_percent) simp
  have "like (like_escape d) (CHR ''%'' # p @ ''%'') s \<longleftrightarrow> (\<exists>a b. s = a @ p @ b)"
    by (simp only: like_percent [of d "p @ ''%''" s] like_plain [OF assms] all) blast
  then show ?thesis by (simp add: strings_Contains_iff)
qed

text \<open>\<^verbatim>\<open>escapeLike\<close> escapes each of the three special characters once.\<close>

lemma escapeLike_concat: "escapeLike p = concat (map (\<lambda>c. if wild c then [backslash, c] else [c]) p)"
  by (induction p) (auto simp: escapeLike_def Let_def wild_def)

lemma like_escaped:
  assumes "d \<noteq> SQLite"
  shows "like (like_escape d) (escapeLike p @ q) s \<longleftrightarrow> (\<exists>b. s = p @ b \<and> like (like_escape d) q b)"
proof (induction p arbitrary: s)
  case Nil
  show ?case by (simp add: escapeLike_concat)
next
  case (Cons c p)
  from assms have esc: "like_escape d = Some backslash" by (simp add: like_escape_def)
  show ?case
  proof (cases "wild c")
    case True
    then have "escapeLike (c # p) @ q = backslash # c # escapeLike p @ q" by (simp add: escapeLike_concat)
    with esc Cons show ?thesis by (cases s) (auto simp: like.simps(2))
  next
    case False
    then have "escapeLike (c # p) @ q = [c] @ escapeLike p @ q" by (simp add: escapeLike_concat)
    with False Cons like_plain [of "[c]" d "escapeLike p @ q" s] show ?thesis by auto
  qed
qed

text \<open>
  Escaped, a search would find exactly the texts that contain it, on Postgres and MySQL; as the query is built, a percent sign or an underscore in it stands for
  other text. On SQLite, where a pattern has no escape character, the escaped text would find the backslashes it adds.\<close>

theorem escaped_search_is_containment:
  "(d \<noteq> SQLite \<longrightarrow> (like (like_escape d) (''%'' @ escapeLike p @ ''%'') s \<longleftrightarrow> strings_Contains s p)) \<and>
   like (like_escape d) (''%'' @ ''_'' @ ''%'') ''a'' \<and> \<not> strings_Contains ''a'' ''_'' \<and>
   \<not> like (like_escape SQLite) (''%'' @ escapeLike ''_'' @ ''%'') ''_''"
proof (intro conjI impI)
  have all: "like (like_escape d) ''%'' b" for b
    by (subst like_percent) simp
  assume d: "d \<noteq> SQLite"
  have "like (like_escape d) (CHR ''%'' # escapeLike p @ ''%'') s \<longleftrightarrow> (\<exists>a b. s = a @ p @ b)"
    by (simp only: like_percent [of d "escapeLike p @ ''%''" s] like_escaped [OF d] all) blast
  then show "like (like_escape d) (''%'' @ escapeLike p @ ''%'') s \<longleftrightarrow> strings_Contains s p"
    by (simp add: strings_Contains_iff)
next
  show "like (like_escape d) (''%'' @ ''_'' @ ''%'') ''a''"
    by (cases d) (simp_all add: like_escape_def like.simps(2))
  show "\<not> strings_Contains ''a'' ''_''" by simp
  show "\<not> like (like_escape SQLite) (''%'' @ escapeLike ''_'' @ ''%'') ''_''"
    by (simp add: escapeLike_concat wild_def like_escape_def like.simps(2))
qed

lemma lower_char_wild: "wild (lower_char c) \<longleftrightarrow> wild c"
proof (cases "CHR ''A'' \<le> c \<and> c \<le> CHR ''Z''")
  case True
  then have "65 \<le> (of_char c :: nat)" "(of_char c :: nat) \<le> 90" by (simp_all add: less_eq_char_def)
  then have "(of_char (lower_char c) :: nat) = of_char c + 32" using True by (simp add: lower_char_def)
  moreover have "wild c' \<longleftrightarrow> (of_char c' :: nat) \<in> {37, 92, 95}" for c'
    by (auto simp: wild_def simp flip: of_char_eq_iff [where 'a = nat])
  ultimately show ?thesis using \<open>65 \<le> _\<close> \<open>_ \<le> 90\<close> by auto
next
  case False
  then show ?thesis by (auto simp: lower_char_def)
qed

lemma to_lower_search: "to_lower (''%'' @ t @ ''%'') = ''%'' @ to_lower t @ ''%''"
  by (simp add: to_lower_def lower_char_def less_eq_char_def)


definition plain_query :: query_env where
  "plain_query = \<lparr>q_sql = \<lparr>clk = (\<lambda>_. 100), db_err = (\<lambda>_. None), locked = (\<lambda>_. False), ret_key = ID, id_gap = 0,
       constraint_err = Errorf ''constraint failed''\<rparr>,
     q_fold = to_lower, q_coll = bytes_key, q_tie = ID, q_dur = (\<lambda>t t'. of_int (t' - t)), q_null_tag = (\<lambda>_. False)\<rparr>"

definition mail_search :: "string \<Rightarrow> JobFilter" where
  "mail_search t = batch_filter\<lparr>jf_States := [StateFailed], jf_Search := t, jf_Tags := [''slow'']\<rparr>"

definition failed_mail :: JobRow where
  "failed_mail = zero_row\<lparr>ID := 1, UUID := ''u1'', Kind := ''jobs.SendMail'', State := StateFailed, Tags := Some [''slow'', ''eu'']\<rparr>"

lemma canonical_failed: "state_of_string ''failed'' = StateFailed"
  using state_of_string_of_state [of StateFailed] by (simp add: State_Valid_def)



section \<open>Pages\<close>

lemma mset_sort_desc [simp]: "mset (sort_desc f xs) = mset xs"
  by (simp add: sort_desc_def)

lemma mset_sortJobs [simp]: "mset (sortJobs lower orderBy order js) = mset js"
  by (simp add: sortJobs_def Let_def)

lemma length_sortJobs [simp]: "length (sortJobs lower orderBy order js) = length js"
  by (metis mset_sortJobs size_mset)

lemma redis_page_Ret:
  assumes "0 < mx" "0 \<le> off" "mx + int (length rows) < 2 ^ 63"
  shows "redis_page mx off rows = Ret (take (nat mx) (drop (nat off) rows))"
proof (cases "int (length rows) \<le> off")
  case True
  with assms show ?thesis by (simp add: redis_page_def nat_le_iff le_nat_iff)
next
  case False
  with assms have "int64 (off + mx) = off + mx" by (intro int64_id) auto
  with assms False show ?thesis by (auto simp: redis_page_def Let_def nat_diff_distrib nat_add_distrib nat_less_iff)
qed

lemma concat_pages: "0 < n \<Longrightarrow> concat (map (\<lambda>k. take n (drop (k * n) xs)) [0..<m]) = take (m * n) xs"
proof (induction m)
  case (Suc m)
  have "Suc m * n = m * n + n" by simp
  with Suc show ?case by (simp only: take_add) simp
qed simp

text \<open>
  Property C27. Pages of a Redis listing: for a page size \<open>n > 0\<close> (and sizes within 64 bits) no page panics, every page carries the number of matching jobs as its
  total, and enough pages in a row are, joined, the matching jobs in the requested order, each exactly once.\<close>

theorem redis_pages_partition_the_listing:
  assumes "allJobs env st = Inr js" and "0 < n" and "int n + int (length js) < 2 ^ 63"
    and "matching = filter (\<lambda>j. matchesFilter lower j f) js" and "length matching \<le> m * n"
  shows "\<exists>pages. map (\<lambda>k. redis_QueryJobs lower env (f\<lparr>jf_Limit := int n, jf_Offset := int (k * n)\<rparr>) st) [0..<m] =
      map (\<lambda>page. Ret (Inr (page, int (length matching)))) pages \<and>
    concat pages = sortJobs lower (jf_OrderBy f) (jf_Order f) matching \<and> mset (concat pages) = mset matching"
proof -
  let ?rows = "sortJobs lower (jf_OrderBy f) (jf_Order f) matching"
  let ?pages = "map (\<lambda>k. take n (drop (k * n) ?rows)) [0..<m]"
  have filt: "filter (\<lambda>j. matchesFilter lower j (f\<lparr>jf_Limit := x, jf_Offset := y\<rparr>)) js = matching" for x y
    by (simp add: assms(4) matchesFilter_def)
  have "length matching \<le> length js" by (simp add: assms(4))
  then have "redis_page (int n) (int (k * n)) ?rows = Ret (take n (drop (k * n) ?rows))" for k
    using redis_page_Ret [of "int n" "int (k * n)" ?rows] assms(2,3) by (simp del: of_nat_mult)
  then have "map (\<lambda>k. redis_QueryJobs lower env (f\<lparr>jf_Limit := int n, jf_Offset := int (k * n)\<rparr>) st) [0..<m] =
      map (\<lambda>page. Ret (Inr (page, int (length matching)))) ?pages"
    by (simp add: redis_QueryJobs_def assms(1) filt Let_def del: of_nat_mult)
  moreover have "concat ?pages = ?rows"
    using concat_pages [OF assms(2), of ?rows m] assms(5) by simp
  ultimately show ?thesis by (intro exI [of _ ?pages]) simp
qed

definition calm_redis :: redis_env where
  "calm_redis = \<lparr>r_clk = (\<lambda>_. 100), pre_err = None, post_err = None, get_err = None, empty_as_object = False\<rparr>"

definition one_mail :: redis where
  "one_mail = \<lparr>r_last = 1, r_uuids = DAList.update ''u1'' 1 DAList.empty,
     r_jobs = DAList.update 1 \<lparr>doc_row = failed_mail, errors_set = False\<rparr> DAList.empty, r_ids = DAList.update 1 1 DAList.empty,
     r_created = DAList.update 1 0 DAList.empty, r_running = DAList.empty, r_due = (\<lambda>_. DAList.empty)\<rparr>"

lemma all_one_mail: "allJobs calm_redis one_mail = Inr [failed_mail]"
  by (simp add: allJobs_def calm_redis_def one_mail_def update.rep_eq empty.rep_eq decodeJob_def)

theorem redis_pages_partition_the_listing_witness:
  "\<exists>pages. map (\<lambda>k. redis_QueryJobs to_lower calm_redis (batch_filter\<lparr>jf_Limit := int 2, jf_Offset := int (k * 2)\<rparr>) one_mail) [0..<3] =
     map (\<lambda>page. Ret (Inr (page, 1))) pages"
proof -
  have "matchesFilter to_lower failed_mail batch_filter" by (simp add: matchesFilter_def batch_filter_def to_lower_def)
  with redis_pages_partition_the_listing [OF all_one_mail, of 2 "[failed_mail]" to_lower batch_filter 3] show ?thesis by auto
qed


section \<open>Statistics\<close>

lemma tally_Nil [simp]: "tally p [] = 0"
  by (simp add: tally_def)

lemma tally_Cons [simp]: "tally p (x # xs) = (if p x then 1 else 0) + tally p xs"
  by (simp add: tally_def)

lemma tally_mset: "mset xs = mset ys \<Longrightarrow> tally p xs = tally p ys"
  unfolding tally_def by (metis mset_filter size_mset)

lemma tally_filter: "tally p (filter q xs) = tally (\<lambda>x. q x \<and> p x) xs"
  by (simp add: tally_def)

text \<open>The counters after the loop of \<^verbatim>\<open>QueueStats\<close>.\<close>

lemma fold_queue_stats:
  "fold (queue_stats_step now) js (s, rt, wt) = (s', rt', wt') \<Longrightarrow>
    qs_Queue s' = qs_Queue s \<and>
    qs_Available s' = qs_Available s + tally (\<lambda>r. Queue r = qs_Queue s \<and> State r = StateAvailable) js \<and>
    qs_Running s' = qs_Running s + tally (\<lambda>r. Queue r = qs_Queue s \<and> State r = StateRunning) js \<and>
    qs_Completed s' = qs_Completed s + tally (\<lambda>r. Queue r = qs_Queue s \<and> State r = StateCompleted) js \<and>
    qs_Failed s' = qs_Failed s + tally (\<lambda>r. Queue r = qs_Queue s \<and> State r = StateFailed) js \<and>
    qs_Retryable s' = qs_Retryable s + tally (\<lambda>r. Queue r = qs_Queue s \<and> State r = StateRetryable) js \<and>
    qs_Scheduled s' = qs_Scheduled s + tally (\<lambda>r. Queue r = qs_Queue s \<and> (State r = StateScheduled \<or> State r = StatePending)) js \<and>
    qs_ThroughputPerMin s' = qs_ThroughputPerMin s + tally (\<lambda>r. Queue r = qs_Queue s \<and> now - Minute < CreatedAt r) js"
proof (induction js arbitrary: s rt wt)
  case Nil
  then show ?case by simp
next
  case (Cons j js)
  obtain s1 rt1 wt1 where step: "queue_stats_step now j (s, rt, wt) = (s1, rt1, wt1)" by (metis prod_cases3)
  with Cons.prems have "fold (queue_stats_step now) js (s1, rt1, wt1) = (s', rt', wt')" by simp
  note IH = Cons.IH [OF this]
  show ?case
  proof (cases "Queue j = qs_Queue s")
    case False
    with step IH show ?thesis by (simp add: queue_stats_step_def)
  next
    case True
    with step IH show ?thesis by (cases "State j") (auto simp: queue_stats_step_def Let_def split: if_splits)
  qed
qed

text \<open>
  Property C26. Over the same rows, read at the same instant, the counters of a queue are the same from either driver, and together with the cancelled rows
  (and any whose state is no known one) they add up to the rows of the queue.\<close>

theorem queue_counters_agree:
  assumes "allJobs env st = Inr js" and "mset js = mset (jobs db)" and "r_clk env 0 = clk (q_sql qe) 1"
    and "redis_QueueStats env q st = Inr a" and "sql_QueueStats qe q db = Inr b"
  shows "qs_Available a = qs_Available b \<and> qs_Running a = qs_Running b \<and> qs_Completed a = qs_Completed b \<and> qs_Failed a = qs_Failed b \<and>
    qs_Retryable a = qs_Retryable b \<and> qs_Scheduled a = qs_Scheduled b \<and> qs_ThroughputPerMin a = qs_ThroughputPerMin b \<and>
    qs_Available b + qs_Running b + qs_Completed b + qs_Failed b + qs_Retryable b + qs_Scheduled b =
      tally (\<lambda>r. Queue r = q \<and> State r \<noteq> StateCancelled \<and> State_Valid (State r)) (jobs db)"
proof -
  obtain s rt wt where fold: "fold (queue_stats_step (r_clk env 0)) js (zero_queue_stats q, [], []) = (s, rt, wt)"
    by (metis prod_cases3)
  with assms(1,4) have a: "a = s\<lparr>qs_AvgRuntimeMs := average rt, qs_WaitTimeMs := average wt\<rparr>" by (simp add: redis_QueueStats_def)
  have split: "tally (\<lambda>r. Queue r = q \<and> State r \<noteq> StateCancelled \<and> State_Valid (State r)) xs =
      tally (\<lambda>r. Queue r = q \<and> State r = StateAvailable) xs + tally (\<lambda>r. Queue r = q \<and> State r = StateRunning) xs +
      tally (\<lambda>r. Queue r = q \<and> State r = StateCompleted) xs + tally (\<lambda>r. Queue r = q \<and> State r = StateFailed) xs +
      tally (\<lambda>r. Queue r = q \<and> State r = StateRetryable) xs +
      tally (\<lambda>r. Queue r = q \<and> (State r = StateScheduled \<or> State r = StatePending)) xs" for xs
  proof (induction xs)
    case (Cons x xs)
    then show ?case by (cases "State x") (auto simp: State_Valid_def)
  qed simp
  have "b = (zero_queue_stats q)\<lparr>qs_Available := qs_Available b, qs_Running := qs_Running b, qs_Completed := qs_Completed b,
      qs_Failed := qs_Failed b, qs_Retryable := qs_Retryable b, qs_Scheduled := qs_Scheduled b, qs_AvgRuntimeMs := qs_AvgRuntimeMs b,
      qs_ThroughputPerMin := qs_ThroughputPerMin b\<rparr>"
    and "qs_Available b = tally (\<lambda>r. Queue r = q \<and> State r = StateAvailable) (jobs db)"
    "qs_Running b = tally (\<lambda>r. Queue r = q \<and> State r = StateRunning) (jobs db)"
    "qs_Completed b = tally (\<lambda>r. Queue r = q \<and> State r = StateCompleted) (jobs db)"
    "qs_Failed b = tally (\<lambda>r. Queue r = q \<and> State r = StateFailed) (jobs db)"
    "qs_Retryable b = tally (\<lambda>r. Queue r = q \<and> State r = StateRetryable) (jobs db)"
    "qs_Scheduled b = tally (\<lambda>r. Queue r = q \<and> (State r = StateScheduled \<or> State r = StatePending)) (jobs db)"
    "qs_ThroughputPerMin b = tally (\<lambda>r. Queue r = q \<and> clk (q_sql qe) 1 - Minute < CreatedAt r) (jobs db)"
    using assms(5) by (auto simp: sql_QueueStats_def Let_def tally_filter zero_queue_stats_def split: option.splits)
  with fold_queue_stats [OF fold] tally_mset [OF assms(2)] a split [of "jobs db"] assms(3) show ?thesis
    by (simp add: zero_queue_stats_def)
qed

definition mail_db :: sql_db where
  "mail_db = \<lparr>jobs = [failed_mail], last_id = 1, failed_jobs = [],
     nodes = [\<lparr>ni_ID = ''n1'', ni_Host = [], ni_Port = 0, ni_Queues = [], ni_Workers = 1, ni_Status = ''active'', ni_StartedAt = 5,
       ni_LastHeartbeat = 90, ni_Version = []\<rparr>], leader = None, locks = []\<rparr>"

theorem queue_counters_agree_witness:
  "\<exists>a. redis_QueueStats calm_redis [] one_mail = Inr a \<and> qs_Failed a = 1"
proof -
  have "\<exists>a. redis_QueueStats calm_redis [] one_mail = Inr a"
    by (simp add: redis_QueueStats_def all_one_mail split: prod.split)
  then obtain a where a: "redis_QueueStats calm_redis [] one_mail = Inr a" by blast
  obtain b where b: "sql_QueueStats plain_query [] mail_db = Inr b" "qs_Failed b = 1"
    by (simp add: sql_QueueStats_def plain_query_def mail_db_def failed_mail_def zero_row_def)
  have "mset [failed_mail] = mset (jobs mail_db)" "r_clk calm_redis 0 = clk (q_sql plain_query) 1"
    by (simp_all add: mail_db_def calm_redis_def plain_query_def)
  from queue_counters_agree [OF all_one_mail this a b(1)] a b(2) show ?thesis by simp
qed

text \<open>
  The number of processes in the global statistics is the number of nodes \<^verbatim>\<open>ListNodes\<close> lists at the same instant, on both drivers: an idle worker
  counts.\<close>

theorem processes_are_the_listed_nodes:
  "(sql_GlobalStats qe db = Inr stats \<longrightarrow> db_err (q_sql qe) 1 = None \<longrightarrow> sql_ListNodes env db = Inr ns \<longrightarrow>
      clk env 0 = clk (q_sql qe) 2 \<longrightarrow> gs_Processes stats = int (length ns)) \<and>
    (fst (redis_GlobalStats renv cenv st keys) = Inr rstats \<longrightarrow> fst (redis_ListNodes cenv keys) = Inr rns \<longrightarrow>
      gs_Processes rstats = int (length rns))"
  by (auto simp: sql_GlobalStats_def sql_ListNodes_def redis_GlobalStats_def tally_def Let_def split: option.splits sum.splits prod.splits)

theorem processes_are_the_listed_nodes_witness:
  "\<exists>stats. sql_GlobalStats plain_query mail_db = Inr stats \<and> gs_Processes stats = 1"
proof -
  obtain stats where stats: "sql_GlobalStats plain_query mail_db = Inr stats"
    by (simp add: sql_GlobalStats_def plain_query_def)
  obtain ns where ns: "sql_ListNodes (q_sql plain_query) mail_db = Inr ns" "length ns = 1"
    by (simp add: sql_ListNodes_def plain_query_def mail_db_def NodeLivenessWindow_def)
  have "db_err (q_sql plain_query) 1 = None" "clk (q_sql plain_query) 0 = clk (q_sql plain_query) 2"
    by (simp_all add: plain_query_def)
  with processes_are_the_listed_nodes [of plain_query mail_db stats "q_sql plain_query" ns] stats ns show ?thesis by simp
qed

text \<open>
  \<^verbatim>\<open>QueryByBatchID\<close> over the SQL driver returns exactly the jobs of the batch as long as the store holds at most 1000 jobs in all.\<close>

theorem batch_query_complete_up_to_1000:
  assumes "sql_QueryJobs lower qe d batch_filter db = Inr res" and "length (jobs db) \<le> 1000"
  shows "\<exists>rows. QueryByBatchID (\<lambda>f. sql_QueryJobs lower qe d f db) b = Inr rows \<and>
    mset rows = mset (filter (\<lambda>r. BatchID r = b) (jobs db))"
proof -
  have all: "filter (sql_where qe d batch_filter) xs = xs" for xs
    by (rule filter_True) (simp add: sql_where_selects batch_filter_def)
  have page: "sql_page (jf_Limit batch_filter) (jf_Offset batch_filter) xs = take 1000 xs"
    "jf_OrderBy batch_filter = []" "jf_Order batch_filter = []" for xs
    by (simp_all add: sql_page_def batch_filter_def)
  define rows where "rows = sql_sorted lower qe d [] [] (jobs db)"
  have rows: "mset rows = mset (jobs db)" by (simp add: rows_def sql_sorted_def sql_column_def Let_def)
  then have "length rows \<le> 1000" using assms(2) by (metis size_mset)
  with assms(1) have "sql_QueryJobs lower qe d batch_filter db = Inr (rows, int (length (jobs db)))"
    by (auto simp: sql_QueryJobs_def all page rows_def Let_def split: option.splits)
  with rows show ?thesis by (simp add: QueryByBatchID_def mset_filter)
qed

theorem batch_query_complete_up_to_1000_witness:
  "\<exists>rows. QueryByBatchID (\<lambda>f. sql_QueryJobs to_lower plain_query SQLite f mail_db) [] = Inr rows \<and>
     mset rows = mset (filter (\<lambda>r. BatchID r = []) (jobs mail_db))"
proof -
  have "\<exists>res. sql_QueryJobs to_lower plain_query SQLite batch_filter mail_db = Inr res"
    by (simp add: sql_QueryJobs_def plain_query_def Let_def)
  then obtain res where "sql_QueryJobs to_lower plain_query SQLite batch_filter mail_db = Inr res" by blast
  then show ?thesis by (rule batch_query_complete_up_to_1000) (simp add: mail_db_def)
qed

text \<open>
  The SQL listing has no tie-breaker: two pages read one after the other may show the same job twice and another not at all, when the database
  lists rows of equal creation time in another order the second time.\<close>

lemma sql_pages_may_repeat_a_job:
  "\<exists>db qe1 qe2. length (jobs db) = 2 \<and>
     sql_QueryJobs to_lower qe1 SQLite (batch_filter\<lparr>jf_Limit := 1, jf_Offset := 0\<rparr>) db = Inr ([failed_mail], 2) \<and>
     sql_QueryJobs to_lower qe2 SQLite (batch_filter\<lparr>jf_Limit := 1, jf_Offset := 1\<rparr>) db = Inr ([failed_mail], 2)"
proof -
  let ?other = "failed_mail\<lparr>ID := 2, UUID := ''u2''\<rparr>"
  let ?db = "mail_db\<lparr>jobs := [failed_mail, ?other]\<rparr>"
  let ?swap = "plain_query\<lparr>q_tie := \<lambda>r. 10 - ID r\<rparr>"
  have all: "filter (sql_where qe SQLite (batch_filter\<lparr>jf_Limit := x, jf_Offset := y\<rparr>)) xs = xs" for qe x y xs
    by (rule filter_True) (simp add: sql_where_selects batch_filter_def)
  have calm: "db_err (q_sql plain_query) k = None" "jf_OrderBy batch_filter = []" "jf_Order batch_filter = []" for k
    by (simp_all add: plain_query_def batch_filter_def)
  have one: "sql_sorted to_lower plain_query SQLite [] [] [failed_mail, ?other] = [failed_mail, ?other]"
    and two: "sql_sorted to_lower ?swap SQLite [] [] [failed_mail, ?other] = [?other, failed_mail]"
    by (simp_all add: sql_sorted_def sql_column_def plain_query_def failed_mail_def zero_row_def sort_desc_def)
  have "sql_QueryJobs to_lower plain_query SQLite (batch_filter\<lparr>jf_Limit := 1, jf_Offset := 0\<rparr>) ?db = Inr ([failed_mail], 2)"
    "sql_QueryJobs to_lower ?swap SQLite (batch_filter\<lparr>jf_Limit := 1, jf_Offset := 1\<rparr>) ?db = Inr ([failed_mail], 2)"
    unfolding sql_QueryJobs_def all Let_def using one two by (simp_all add: sql_page_def calm)
  then show ?thesis by (intro exI [of _ ?db] exI [of _ plain_query] exI [of _ ?swap]) (simp add: mail_db_def)
qed

end
