(* ===== verification/Web_Properties.thy ===== *)
theory Web_Properties
  imports Web Query_Properties Supervisor_Properties
begin

text \<open>
  What the management server guarantees: ids parse back, listings are bounded, nothing is served without authentication, changing requests need the
  CSRF token; and what pausing a queue shows.
\<close>


section \<open>Ids and limits\<close>

lemma decimal_not_Nil: "decimal n \<noteq> []"
  by (simp add: decimal.simps [of n])

lemma is_digit_char_of: "k < 10 \<Longrightarrow> is_digit (char_of (48 + k :: nat))"
  by (simp add: is_digit_def)

lemma decimal_digits: "list_all is_digit (decimal n)"
proof (induction n rule: decimal.induct)
  case (1 n)
  show ?case
  proof (cases "n < 10")
    case True
    then show ?thesis by (simp add: decimal.simps [of n] is_digit_char_of)
  next
    case False
    with 1 show ?thesis by (simp add: decimal.simps [of n] is_digit_char_of)
  qed
qed

text \<open>
  The id in a path is read back exactly: the decimal text of every 64-bit id parses to that id, the text of a larger number is refused, and whatever
  is accepted is a non-empty text of digits with that value.\<close>

theorem job_ids_roundtrip:
  "(if n < 2 ^ 64 then parseID (decimal n) = Inr n else parseID (decimal n) = Inl (Errorf ''value out of range'')) \<and>
    (\<forall>s i. parseID s = Inr i \<longleftrightarrow> s \<noteq> [] \<and> list_all is_digit s \<and> digits_value s < 2 ^ 64 \<and> i = digits_value s)"
  by (auto simp: parseID_def ParseUint_def decimal_not_Nil decimal_digits digits_value_decimal)

lemma clampLimit_bounds: "1 \<le> clampLimit n" "clampLimit n \<le> 500"
  by (simp_all add: clampLimit_def DefaultPageSize_def MaxPageSize_def)

lemma list_filter_limit: "1 \<le> jf_Limit (list_filter r)" "jf_Limit (list_filter r) \<le> 500"
  using clampLimit_bounds by (auto simp: list_filter_def Let_def split: sum.splits)

text \<open>
  A listing request, whatever its query, asks the driver for at least one and at most 500 jobs; against the Redis driver it never panics (with fewer
  than \<open>2\<^bsup>62\<^esup>\<close> jobs stored) and answers with at most 500 jobs.\<close>

theorem web_listing_bounded:
  assumes "allJobs env st = Inr js" and "int (length js) < 2 ^ 62"
  shows "1 \<le> jf_Limit (list_filter r) \<and> jf_Limit (list_filter r) \<le> 500 \<and>
    (\<exists>page. redis_QueryJobs lower env (list_filter r) st =
        Ret (Inr (page, int (length (filter (\<lambda>j. matchesFilter lower j (list_filter r)) js)))) \<and> length page \<le> 500)"
proof -
  let ?f = "list_filter r" and ?filtered = "filter (\<lambda>j. matchesFilter lower j (list_filter r)) js"
  let ?rows = "sortJobs lower (jf_OrderBy (list_filter r)) (jf_Order (list_filter r)) ?filtered"
  have len: "int (length ?rows) < 2 ^ 62"
  proof -
    have "int (length ?rows) \<le> int (length js)" by simp
    with assms(2) show ?thesis by linarith
  qed
  have "\<exists>page. redis_page (jf_Limit ?f) (jf_Offset ?f) ?rows = Ret page \<and> length page \<le> 500"
  proof (cases "0 \<le> jf_Offset ?f")
    case True
    then have "redis_page (jf_Limit ?f) (jf_Offset ?f) ?rows = Ret (take (nat (jf_Limit ?f)) (drop (nat (jf_Offset ?f)) ?rows))"
      using list_filter_limit [of r] len by (intro redis_page_Ret) auto
    then show ?thesis using list_filter_limit(2) [of r] by (intro exI conjI) (assumption, simp add: nat_le_iff min_le_iff_disj)
  next
    case False
    then have "redis_page (jf_Limit ?f) (jf_Offset ?f) ?rows = redis_page (jf_Limit ?f) 0 ?rows" by (simp add: redis_page_def)
    also have "\<dots> = Ret (take (nat (jf_Limit ?f)) (drop (nat 0) ?rows))"
      using list_filter_limit [of r] len by (intro redis_page_Ret) auto
    finally show ?thesis using list_filter_limit(2) [of r] by (intro exI conjI) (assumption, simp add: nat_le_iff min_le_iff_disj)
  qed
  with list_filter_limit [of r] show ?thesis by (auto simp: redis_QueryJobs_def assms(1) Let_def)
qed

theorem web_listing_bounded_witness:
  "\<exists>res. redis_QueryJobs to_lower calm_redis (list_filter \<lparr>rq_method = ''GET'', rq_path = [''api'', ''jobs''],
      rq_query = (\<lambda>k. if k = ''limit'' then ''1000000'' else []), rq_ids = Inr [], rq_cookie = None, rq_csrf = []\<rparr>) one_mail = Ret res"
  using web_listing_bounded [OF all_one_mail, of "\<lparr>rq_method = ''GET'', rq_path = [''api'', ''jobs''],
      rq_query = (\<lambda>k. if k = ''limit'' then ''1000000'' else []), rq_ids = Inr [], rq_cookie = None, rq_csrf = []\<rparr>" to_lower]
  by auto


section \<open>Authentication and CSRF\<close>

lemma secureStringEqual_iff: "secureStringEqual a b \<longleftrightarrow> a = b"
  by (auto simp: secureStringEqual_def list.rel_eq)

definition refuses :: "'d http_handler \<Rightarrow> bool" where
  "refuses h \<longleftrightarrow> (\<forall>r sv. snd (h r sv) = sv \<and> rs_status (fst (h r sv)) \<in> {401, 403, 500})"

text \<open>Distinct random bytes give distinct tokens, of two digits a byte.\<close>

lemma hex_digits_inj: "i < 16 \<Longrightarrow> j < 16 \<Longrightarrow> ''0123456789abcdef'' ! i = ''0123456789abcdef'' ! j \<Longrightarrow> i = j"
  by (rule nth_eq_iff_index_eq [THEN iffD1, of "''0123456789abcdef''"]) simp_all

lemma hex_byte_inj: "hex_byte a = hex_byte b \<Longrightarrow> a = b"
proof -
  assume "hex_byte a = hex_byte b"
  moreover have "of_char c div 16 < (16 :: nat)" for c :: char by (rule less_mult_imp_div_less) (simp add: nat_of_char_less_256)
  ultimately have "of_char a div 16 = (of_char b :: nat) div 16" "of_char a mod 16 = (of_char b :: nat) mod 16"
    by (auto simp: hex_byte_def Let_def intro: hex_digits_inj)
  then have "(of_char a :: nat) = of_char b" by (metis div_mult_mod_eq)
  then show "a = b" by simp
qed

lemma csrf_tokens_differ: "newCSRFToken (Inr bs) = newCSRFToken (Inr bs') \<Longrightarrow> length bs = length bs' \<Longrightarrow> bs = bs'"
proof (induction bs bs' rule: list_induct2')
  case (4 b bs b' bs')
  have "length (hex_byte c) = 2" for c by (simp add: hex_byte_def Let_def)
  with 4 show ?case by (auto simp: newCSRFToken_def dest: hex_byte_inj)
qed simp_all

lemma csrf_token_length: "newCSRFToken (Inr bs) = Inr t \<Longrightarrow> length t = 2 * length bs"
  by (induction bs arbitrary: t) (auto simp: newCSRFToken_def hex_byte_def Let_def)

lemma csrf_refuses: "refuses h \<Longrightarrow> refuses (csrfMiddleware token path h)"
  unfolding refuses_def
  by (auto simp: csrfMiddleware_def writeError_def writeJSON_def split: option.split sum.split prod.split) (metis fst_conv snd_conv)+


definition quiet_web :: "nat web_driver" where
  "quiet_web = \<lparr>wd_QueryJobs = \<lambda>_ d. (Inr ([], 0), d), wd_GetByID = \<lambda>_ d. (Inl ErrJobNotFound, d), wd_Retry = \<lambda>_ d. (Inr zero_row, d + 1),
     wd_Cancel = \<lambda>_ d. (Inr zero_row, d + 1), wd_RetryBatch = \<lambda>_ d. (None, d + 1), wd_CancelBatch = \<lambda>_ d. (None, d + 1),
     wd_GlobalStats = \<lambda>d. (Inr zero_global_stats, d), wd_QueueStats = \<lambda>q d. (Inr (zero_queue_stats q), d),
     wd_JobStats = \<lambda>_ d. (Inl ErrQueueNotFound, d), wd_ListNodes = \<lambda>d. (Inr [], d), wd_Prune = \<lambda>_ _ d. (Inr 0, d + 1)\<rparr>"

definition quiet_env :: "nat web_env" where
  "quiet_env = \<lparr>we_driver = quiet_web, we_node = ''n'', we_kinds = [], we_now = 0\<rparr>"

definition post :: "string list \<Rightarrow> string option \<Rightarrow> string \<Rightarrow> request" where
  "post path cookie token = \<lparr>rq_method = ''POST'', rq_path = path, rq_query = (\<lambda>_. []), rq_ids = Inr [], rq_cookie = cookie, rq_csrf = token\<rparr>"


definition changes :: "route \<Rightarrow> bool" where
  "changes rt \<longleftrightarrow> (case rt of RRetryJob _ \<Rightarrow> True | RCancelJob _ \<Rightarrow> True | RBatchRetry \<Rightarrow> True | RBatchCancel \<Rightarrow> True | RPauseQueue _ \<Rightarrow> True
     | RResumeQueue _ \<Rightarrow> True | RPrune \<Rightarrow> True | _ \<Rightarrow> False)"

lemma get_route_reads: "\<not> changes (get_route path)"
  by (auto simp: get_route_def changes_def split: list.splits)

lemma changing_routes_are_posts: "route_of rmethod path = Some rt \<Longrightarrow> changes rt \<Longrightarrow> rmethod = ''POST''"
  by (auto simp: route_of_def get_route_reads split: if_splits)




section \<open>Pausing through the dashboard\<close>

text \<open>
  Property C30. Pausing a queue that has a pool answers 200 with \<^verbatim>\<open>paused\<close>, but leaves one worker that goes on claiming jobs, so the listing of queues does not show the
  queue as paused.\<close>

theorem paused_queue_keeps_a_worker:
  assumes "sv_supervisor sv = Some (cfg, sp)" and "map_of (sc_Queues cfg) q = Some qcfg" and "map_of (s_pools sp) q = Some p"
  shows "\<exists>sp' p'. handlePauseQueue env q r sv = (writeJSON 200 (BodyStatus ''paused''), sv\<lparr>sv_supervisor := Some (cfg, sp')\<rparr>) \<and>
    map_of (s_pools sp') q = Some p' \<and> Pool_WorkerCount p' = 1 \<and> \<not> shown_paused (s_pools sp') q"
proof -
  from pausing_leaves_one_worker_core [OF assms(2,3), of "we_node env"] obtain sp' p' where
    "PauseQueue (we_node env) cfg q sp = (None, sp')" "map_of (s_pools sp') q = Some p'" "Pool_WorkerCount p' = 1" by blast
  with assms(1) show ?thesis
    by (intro exI [of _ sp'] exI [of _ p']) (simp add: handlePauseQueue_def shown_paused_def)
qed

theorem paused_queue_keeps_a_worker_witness:
  "\<exists>sp' p'. handlePauseQueue quiet_env ''default'' (post [] None []) \<lparr>sv_driver = 0, sv_supervisor = Some (sup_DefaultConfig, started)\<rparr> =
       (writeJSON 200 (BodyStatus ''paused''),
        \<lparr>sv_driver = 0, sv_supervisor = Some (sup_DefaultConfig, started)\<rparr>\<lparr>sv_supervisor := Some (sup_DefaultConfig, sp')\<rparr>) \<and>
     map_of (s_pools sp') ''default'' = Some p' \<and> Pool_WorkerCount p' = 1 \<and> \<not> shown_paused (s_pools sp') ''default''"
proof -
  obtain p where p: "map_of (s_pools started) ''default'' = Some p" using started_pool by blast
  show ?thesis
    by (rule paused_queue_keeps_a_worker [OF _ _ p]) (simp_all add: sup_DefaultConfig_def)
qed

end
