(* ===== verification/Cluster_Properties.thy ===== *)
theory Cluster_Properties
  imports Sql_Cluster Redis_Cluster
begin

text \<open>
  What the drivers guarantee about leases and nodes: mutual exclusion for the SQL locks, the SQL
  leader row and the Redis keys under any sequence of calls and faults, progress when a lease is free,
  and the liveness window of the node registry.
\<close>


section \<open>Mutual exclusion\<close>

definition lease_db :: sql_db where
  "lease_db = \<lparr>jobs = [], last_id = 0, failed_jobs = [], nodes = [], leader = None, locks = []\<rparr>"

definition at_time :: "time \<Rightarrow> sql_env" where
  "at_time t = \<lparr>clk = (\<lambda>_. t), db_err = (\<lambda>_. None), locked = (\<lambda>_. False), ret_key = ID, id_gap = 0,
     constraint_err = Errorf ''constraint failed''\<rparr>"

text \<open>
  The SQL locks exclude each other: once \<^verbatim>\<open>AcquireLock\<close> has granted a lock to a node for \<open>ttl\<close>, no sequence of lock
  calls by any nodes on any keys before the end of that time, with any database faults, short of that node's own release, grants
  the lock to another node, and the node still holds it until the end of that time.\<close>

theorem sql_lock_mutual_exclusion:
  assumes "locks_valid db" and "fst (lock_acquire ttl env key n db)" and "0 \<le> ttl"
    and "sorted (map (call_instant env_instant) cs)"
    and "list_all (leaves_alone env_instant key n (clk env 0) (clk env 0 + ttl)) cs"
  shows "intrusions (lock_acquire ttl) lock_release key n cs (snd (lock_acquire ttl env key n db)) = 0 \<and>
    (\<forall>t. (\<forall>c \<in> set cs. call_instant env_instant c \<le> t) \<longrightarrow> clk env 0 \<le> t \<longrightarrow> t < clk env 0 + ttl \<longrightarrow>
      lock_holder (fold (perform (lock_acquire ttl) lock_release) cs (snd (lock_acquire ttl env key n db))) key t = Some n)"
  using assms by (rule lock.exclusive_after_grant)

theorem sql_lock_mutual_exclusion_witness:
  "intrusions (lock_acquire 50) lock_release ''k'' ''a''
     [Acquire (at_time 10) ''k'' ''b'', Release (at_time 20) ''k'' ''b'', Acquire (at_time 49) ''k'' ''b'']
     (snd (lock_acquire 50 (at_time 0) ''k'' ''a'' lease_db)) = 0"
  using sql_lock_mutual_exclusion [of lease_db 50 "at_time 0" "''k''" "''a''"
      "[Acquire (at_time 10) ''k'' ''b'', Release (at_time 20) ''k'' ''b'', Acquire (at_time 49) ''k'' ''b'']"]
  by (simp add: locks_valid_def lease_db_def lock_acquire_def sql_AcquireLock_def at_time_def leaves_alone_def Let_def)

text \<open>
  There is at most one leader on SQL: after \<^verbatim>\<open>LeaderElection\<close> has made a node leader, no sequence of elections with the
  same \<open>ttl\<close> and resignations by other nodes within \<open>ttl\<close>, under any database faults, elects another node.\<close>

theorem sql_leader_mutual_exclusion:
  assumes "fst (leader_acquire ttl env () n db)" and "0 \<le> ttl"
    and "sorted (map (call_instant env_instant) cs)"
    and "list_all (leaves_alone env_instant () n (clk env 0) (clk env 0 + ttl)) cs"
  shows "intrusions (leader_acquire ttl) leader_release () n cs (snd (leader_acquire ttl env () n db)) = 0 \<and>
    (\<forall>t. (\<forall>c \<in> set cs. call_instant env_instant c \<le> t) \<longrightarrow> clk env 0 \<le> t \<longrightarrow> t < clk env 0 + ttl \<longrightarrow>
      leader_holder ttl (fold (perform (leader_acquire ttl) leader_release) cs (snd (leader_acquire ttl env () n db))) () t = Some n)"
  using leader.exclusive_after_grant [OF TrueI assms] .

theorem sql_leader_mutual_exclusion_witness:
  "intrusions (leader_acquire 15) leader_release () ''a''
     [Acquire (at_time 3) () ''b'', Acquire (at_time 5) () ''a'', Release (at_time 6) () ''b'', Acquire (at_time 14) () ''c'']
     (snd (leader_acquire 15 (at_time 0) () ''a'' lease_db)) = 0"
  using sql_leader_mutual_exclusion [of 15 "at_time 0" "''a''" lease_db
      "[Acquire (at_time 3) () ''b'', Acquire (at_time 5) () ''a'', Release (at_time 6) () ''b'', Acquire (at_time 14) () ''c'']"]
  by (simp add: lease_db_def leader_acquire_def sql_LeaderElection_def at_time_def leaves_alone_def Let_def)

definition no_keys :: redis_keys where
  "no_keys = \<lparr>k_lease = Map.empty, k_node = Map.empty, k_nodes = []\<rparr>"

definition at_ms :: "int \<Rightarrow> cluster_env" where
  "at_ms t = \<lparr>srv_ms = t, wall = t * Millisecond, c_pre = None, c_post = None, c_read = (\<lambda>_. None)\<rparr>"

text \<open>
  The Redis leases (leader and locks) exclude each other in the same way, with the time-to-live rounded down to
  milliseconds but never below one, and also when replies are lost.\<close>

theorem redis_lease_mutual_exclusion:
  assumes "fst (key_acquire ttl env key n st)"
    and "sorted (map (call_instant srv_ms) cs)"
    and "list_all (leaves_alone srv_ms key n (srv_ms env) (srv_ms env + ttlMillis ttl)) cs"
  shows "intrusions (key_acquire ttl) key_release key n cs (snd (key_acquire ttl env key n st)) = 0 \<and>
    (\<forall>t. (\<forall>c \<in> set cs. call_instant srv_ms c \<le> t) \<longrightarrow> srv_ms env \<le> t \<longrightarrow> t < srv_ms env + ttlMillis ttl \<longrightarrow>
      key_holder (fold (perform (key_acquire ttl) key_release) cs (snd (key_acquire ttl env key n st))) key t = Some n)"
  using rkey.exclusive_after_grant [OF TrueI assms(1) _ assms(2,3)] ttlMillis_pos [of ttl] by simp

theorem redis_lease_mutual_exclusion_witness:
  "intrusions (key_acquire (15 * Second)) key_release LeaderKey ''a''
     [Acquire (at_ms 3) LeaderKey ''b'', Acquire (at_ms 5) (LockKey ''k'') ''b'', Release (at_ms 6) LeaderKey ''b'',
      Acquire (at_ms 14999) LeaderKey ''b''] (snd (key_acquire (15 * Second) (at_ms 0) LeaderKey ''a'' no_keys)) = 0"
  using redis_lease_mutual_exclusion [of "15 * Second" "at_ms 0" LeaderKey "''a''" no_keys
      "[Acquire (at_ms 3) LeaderKey ''b'', Acquire (at_ms 5) (LockKey ''k'') ''b'', Release (at_ms 6) LeaderKey ''b'',
      Acquire (at_ms 14999) LeaderKey ''b'']"]
  by (simp add: no_keys_def key_acquire_renew renew_def run_cluster_def renewScript_def live_def at_ms_def leaves_alone_def
      ttlMillis_def)




section \<open>Progress\<close>

text \<open>
  A lease nobody holds is granted: on each of the three stores, a node that asks without a fault at an instant that no other
  node's lease covers gets the lease.\<close>

theorem free_leases_are_granted:
  "(locks_valid db \<and> (\<forall>k. db_err env k = None) \<and> lock_holder db key (clk env 0) \<in> {None, Some n} \<longrightarrow>
      fst (lock_acquire ttl env key n db)) \<and>
   ((\<forall>k. db_err env k = None) \<and> leader_holder ttl db () (clk env 0) \<in> {None, Some n} \<longrightarrow>
      fst (leader_acquire ttl env () n db)) \<and>
   (c_pre cenv = None \<and> c_post cenv = None \<and> key_holder st rk (srv_ms cenv) \<in> {None, Some n} \<longrightarrow>
      fst (key_acquire ttl cenv rk n st))"
proof (intro conjI impI)
  show "fst (key_acquire ttl cenv rk n st)"
    if "c_pre cenv = None \<and> c_post cenv = None \<and> key_holder st rk (srv_ms cenv) \<in> {None, Some n}"
    using that by (auto simp: key_acquire_renew renew_def run_cluster_def renewScript_def key_holder_def split: option.split)
  show "fst (leader_acquire ttl env () n db)"
    if "(\<forall>k. db_err env k = None) \<and> leader_holder ttl db () (clk env 0) \<in> {None, Some n}"
    using that by (auto simp: leader_acquire_def sql_LeaderElection_def leader_holder_def Let_def split: option.splits if_splits)
  assume lock: "locks_valid db \<and> (\<forall>k. db_err env k = None) \<and> lock_holder db key (clk env 0) \<in> {None, Some n}"
  show "fst (lock_acquire ttl env key n db)"
  proof (cases "\<exists>r \<in> set (locks db). lk_Key r = key \<and> lk_NodeID r = n \<and> clk env 0 < lk_ExpiresAt r")
    case True
    with lock show ?thesis by (simp add: lock_acquire_def sql_AcquireLock_def Let_def)
  next
    case False
    have "key \<notin> lk_Key ` set (filter (\<lambda>r. \<not> (lk_Key r = key \<and> lk_ExpiresAt r \<le> clk env 0)) (locks db))"
    proof
      assume "key \<in> lk_Key ` set (filter (\<lambda>r. \<not> (lk_Key r = key \<and> lk_ExpiresAt r \<le> clk env 0)) (locks db))"
      then obtain r where r: "r \<in> set (locks db)" "lk_Key r = key" "clk env 0 < lk_ExpiresAt r" by auto
      then have "find_key lk_Key key (locks db) = Some r"
        using lock by (simp add: locks_valid_def find_key_Some_iff)
      with lock r False show False by (auto simp: lock_holder_def)
    qed
    with lock False show ?thesis by (auto simp: lock_acquire_def sql_AcquireLock_def Let_def)
  qed
qed

theorem free_leases_are_granted_witness:
  "fst (lock_acquire 50 (at_time 0) ''k'' ''a'' lease_db) \<and> fst (leader_acquire 50 (at_time 0) () ''a'' lease_db) \<and>
   fst (key_acquire 50 (at_ms 0) (LockKey ''k'') ''a'' no_keys)"
  using free_leases_are_granted [of lease_db "at_time 0" "''k''" "''a''" 50 "at_ms 0" no_keys "LockKey ''k''"]
  by (simp add: lease_db_def no_keys_def at_time_def at_ms_def locks_valid_def lock_holder_def leader_holder_def key_holder_def live_def)


section \<open>Nodes\<close>

text \<open>
  On SQL a node that registers or beats at instant \<open>t\<close> is listed, without faults, exactly until the liveness window has
  passed: a listing at \<open>t'\<close> names it iff \<open>t'\<close> is less than 30 seconds after \<open>t\<close>.\<close>

theorem sql_node_listed_within_window:
  assumes "\<forall>k. db_err env k = None" and "\<forall>k. db_err env' k = None"
    and "db' = snd (sql_RegisterNode d env node ttl db) \<or>
      (n = ni_ID node \<and> node \<in> set (nodes db) \<and> db' = snd (sql_Heartbeat env n ttl db))"
  shows "ni_ID node \<in> ni_ID ` set (case sql_ListNodes env' db' of Inl _ \<Rightarrow> [] | Inr ns \<Rightarrow> ns) \<longleftrightarrow>
    clk env' 0 < clk env 0 + 30 * Second"
proof -
  have at: "ni_LastHeartbeat r = clk env 0" if "r \<in> set (nodes db')" "ni_ID r = ni_ID node" for r
    using assms that by (auto simp: sql_RegisterNode_def sql_Heartbeat_def Let_def set_update_where stored_node_def
        split: if_splits) (metis image_eqI)+
  moreover have "ni_ID node \<in> ni_ID ` set (nodes db')"
  proof -
    have "map ni_ID (update_where (\<lambda>r. ni_ID r = ni_ID node) (\<lambda>_. stored_node d (clk env 0) node) (nodes db)) = map ni_ID (nodes db)"
      by (rule map_update_where) (simp add: stored_node_def)
    moreover have "map ni_ID (update_where (\<lambda>r. ni_ID r = n) (\<lambda>r. r\<lparr>ni_LastHeartbeat := clk env 0\<rparr>) (nodes db)) = map ni_ID (nodes db)"
      by (rule map_update_where) simp
    moreover have "nodes db' \<in> {update_where (\<lambda>r. ni_ID r = ni_ID node) (\<lambda>_. stored_node d (clk env 0) node) (nodes db),
        update_where (\<lambda>r. ni_ID r = n) (\<lambda>r. r\<lparr>ni_LastHeartbeat := clk env 0\<rparr>) (nodes db)} \<and> ni_ID node \<in> ni_ID ` set (nodes db) \<or>
        nodes db' = nodes db @ [stored_node d (clk env 0) node]"
      using assms by (auto simp: sql_RegisterNode_def sql_Heartbeat_def Let_def split: if_splits)
    ultimately show ?thesis
      by (elim disjE conjE insertE) (simp_all flip: set_map add: stored_node_def)
  qed
  ultimately have "ni_ID node \<in> ni_ID ` {r \<in> set (nodes db'). clk env' 0 - NodeLivenessWindow < ni_LastHeartbeat r} \<longleftrightarrow>
      clk env' 0 - NodeLivenessWindow < clk env 0"
    by (auto simp: image_iff)
  then show ?thesis using assms(2) by (auto simp: sql_ListNodes_def NodeLivenessWindow_def)
qed

definition some_node :: NodeInfo where
  "some_node = \<lparr>ni_ID = ''n'', ni_Host = ''h'', ni_Port = 0, ni_Queues = [''default''], ni_Workers = 1, ni_Status = ''active'',
     ni_StartedAt = 0, ni_LastHeartbeat = 0, ni_Version = ''1''\<rparr>"

theorem sql_node_listed_within_window_witness:
  "''n'' \<in> ni_ID ` set (case sql_ListNodes (at_time (29 * Second)) (snd (sql_RegisterNode MySQL (at_time 0) some_node 0 lease_db))
     of Inl _ \<Rightarrow> [] | Inr ns \<Rightarrow> ns)"
  using sql_node_listed_within_window [of "at_time 0" "at_time (29 * Second)" "snd (sql_RegisterNode MySQL (at_time 0) some_node 0 lease_db)"
      MySQL some_node 0 lease_db "''n''"]
  by (simp add: at_time_def some_node_def)

lemma read_nodes_found:
  assumes "\<forall>k. c_read env k = None"
  shows "\<exists>stale. read_nodes env k ns st = Inr
    (map (\<lambda>n. the (live (srv_ms env) (k_node st n))) (filter (\<lambda>n. live (srv_ms env) (k_node st n) \<noteq> None) ns), stale)"
proof (induction ns arbitrary: k)
  case (Cons n ns)
  from Cons.IH [of "k + 1"] obtain stale where "read_nodes env (k + 1) ns st = Inr
    (map (\<lambda>n. the (live (srv_ms env) (k_node st n))) (filter (\<lambda>n. live (srv_ms env) (k_node st n) \<noteq> None) ns), stale)" ..
  with assms show ?case by (cases "live (srv_ms env) (k_node st n)") simp_all
qed simp

text \<open>
  On Redis a heartbeat of a node whose key has expired or was never set reports \<^verbatim>\<open>ErrNodeNotFound\<close> and changes nothing, and a
  node is listed exactly while its key lives.\<close>

theorem redis_node_lives_with_its_key:
  assumes "c_pre env = None" and "c_post env = None" and "\<forall>k. c_read env k = None"
  shows "(live (srv_ms env) (k_node st n) = None \<longrightarrow> redis_Heartbeat env n ttl st = (Some ErrNodeNotFound, st)) \<and>
    (case fst (redis_ListNodes env st) of Inl _ \<Rightarrow> False
     | Inr ns \<Rightarrow> set ns = {node. \<exists>m \<in> set (k_nodes st). live (srv_ms env) (k_node st m) = Some node})"
proof
  show "live (srv_ms env) (k_node st n) = None \<longrightarrow> redis_Heartbeat env n ttl st = (Some ErrNodeNotFound, st)"
    using assms by (simp add: redis_Heartbeat_def run_cluster_def heartbeatScript_def)
  obtain found stale where found: "read_nodes env 0 (k_nodes st) st = Inr (found, stale)"
    "found = map (\<lambda>n. the (live (srv_ms env) (k_node st n))) (filter (\<lambda>n. live (srv_ms env) (k_node st n) \<noteq> None) (k_nodes st))"
    using read_nodes_found [OF assms(3)] by blast
  have "set found = {node. \<exists>m \<in> set (k_nodes st). live (srv_ms env) (k_node st m) = Some node}"
    unfolding found(2) by force
  then show "case fst (redis_ListNodes env st) of Inl _ \<Rightarrow> False
     | Inr ns \<Rightarrow> set ns = {node. \<exists>m \<in> set (k_nodes st). live (srv_ms env) (k_node st m) = Some node}"
    using assms(1) found(1) by (simp add: redis_ListNodes_def)
qed

theorem redis_node_lives_with_its_key_witness:
  "redis_Heartbeat (at_ms 16000) ''n'' (15 * Second) (snd (redis_RegisterNode (at_ms 0) some_node (15 * Second) no_keys)) =
     (Some ErrNodeNotFound, snd (redis_RegisterNode (at_ms 0) some_node (15 * Second) no_keys))"
  using redis_node_lives_with_its_key [of "at_ms 16000" "snd (redis_RegisterNode (at_ms 0) some_node (15 * Second) no_keys)" "''n''" "15 * Second"]
  by (simp add: at_ms_def redis_RegisterNode_def run_cluster_def registerNodeScript_def no_keys_def live_def ttlMillis_def some_node_def)

end
