(* ===== verification/Coordination.thy ===== *)
theory Coordination
  imports Cluster_Properties Supervisor
begin

text \<open>
  The calls a \<^verbatim>\<open>Coordinator\<close> (\<^verbatim>\<open>coordinator/coordinator.go\<close>) passes on to the driver under its own node id, and what the node id decides: the
  drivers' leases go to a caller's id, so callers that share an id share the lease.
\<close>


section \<open>The forwarding methods\<close>

record 'd lease_driver =
  ld_IsLeader :: "node_id \<Rightarrow> 'd \<Rightarrow> (bool \<times> error option) \<times> 'd"
  ld_ListNodes :: "'d \<Rightarrow> (error + NodeInfo list) \<times> 'd"
  ld_AcquireLock :: "string \<Rightarrow> node_id \<Rightarrow> duration \<Rightarrow> 'd \<Rightarrow> (bool \<times> error option) \<times> 'd"
  ld_ReleaseLock :: "string \<Rightarrow> node_id \<Rightarrow> 'd \<Rightarrow> error option \<times> 'd"

definition coord_IsLeader :: "'d lease_driver \<Rightarrow> CoordConfig \<Rightarrow> 'd \<Rightarrow> (bool \<times> error option) \<times> 'd" where
  "coord_IsLeader drv cfg d = ld_IsLeader drv (cc_NodeID cfg) d"

definition coord_ListNodes :: "'d lease_driver \<Rightarrow> 'd \<Rightarrow> (error + NodeInfo list) \<times> 'd" where
  "coord_ListNodes drv d = ld_ListNodes drv d"

definition coord_AcquireLock :: "'d lease_driver \<Rightarrow> CoordConfig \<Rightarrow> string \<Rightarrow> duration \<Rightarrow> 'd \<Rightarrow> (bool \<times> error option) \<times> 'd" where
  "coord_AcquireLock drv cfg key ttl d = ld_AcquireLock drv key (cc_NodeID cfg) ttl d"

definition coord_ReleaseLock :: "'d lease_driver \<Rightarrow> CoordConfig \<Rightarrow> string \<Rightarrow> 'd \<Rightarrow> error option \<times> 'd" where
  "coord_ReleaseLock drv cfg key d = ld_ReleaseLock drv key (cc_NodeID cfg) d"

text \<open>The two drivers, in the circumstances of one call.\<close>

definition sql_leases :: "sql_env \<Rightarrow> sql_db lease_driver" where
  "sql_leases env = \<lparr>ld_IsLeader = (\<lambda>n db. (sql_IsLeader env n db, db)), ld_ListNodes = (\<lambda>db. (sql_ListNodes env db, db)),
     ld_AcquireLock = sql_AcquireLock env, ld_ReleaseLock = sql_ReleaseLock env\<rparr>"

definition redis_leases :: "cluster_env \<Rightarrow> redis_keys lease_driver" where
  "redis_leases env = \<lparr>ld_IsLeader = (\<lambda>n st. (redis_IsLeader env n st, st)), ld_ListNodes = redis_ListNodes env,
     ld_AcquireLock = redis_AcquireLock env, ld_ReleaseLock = redis_ReleaseLock env\<rparr>"


section \<open>Fair leases\<close>

definition sql_healthy :: "sql_env \<Rightarrow> bool" where
  "sql_healthy env \<longleftrightarrow> (\<forall>k. db_err env k = None)"

definition redis_healthy :: "cluster_env \<Rightarrow> bool" where
  "redis_healthy env \<longleftrightarrow> c_pre env = None \<and> c_post env = None"

interpretation fair_lock: fair_lease lock_holder locks_valid env_instant "lock_acquire ttl" lock_release ttl sql_healthy for ttl
  by unfold_locales (use free_leases_are_granted in \<open>auto simp: sql_healthy_def\<close>)

interpretation fair_leader: fair_lease "leader_holder ttl" "\<lambda>_. True" env_instant "leader_acquire ttl" leader_release ttl sql_healthy for ttl
  by unfold_locales (use free_leases_are_granted in \<open>auto simp: sql_healthy_def\<close>)

interpretation fair_key: fair_lease key_holder "\<lambda>_. True" srv_ms "key_acquire ttl" key_release "ttlMillis ttl" redis_healthy for ttl
  by unfold_locales (use free_leases_are_granted in \<open>auto simp: redis_healthy_def\<close>)


section \<open>Identity\<close>

text \<open>A call grants when it answers true without an error.\<close>

abbreviation grants :: "(bool \<times> error option) \<times> 'd \<Rightarrow> bool" where
  "grants res \<equiv> fst (fst res) \<and> snd (fst res) = None"

lemma grants_lock: "grants (coord_AcquireLock (sql_leases env) cfg key ttl db) \<longleftrightarrow> fst (lock_acquire ttl env key (cc_NodeID cfg) db)"
  by (simp add: coord_AcquireLock_def sql_leases_def lock_acquire_def split: prod.split)

lemma after_lock: "snd (coord_AcquireLock (sql_leases env) cfg key ttl db) = snd (lock_acquire ttl env key (cc_NodeID cfg) db)"
  by (simp add: coord_AcquireLock_def sql_leases_def lock_acquire_def split: prod.split)

lemma grants_key: "grants (coord_AcquireLock (redis_leases env) cfg key ttl st) \<longleftrightarrow> fst (key_acquire ttl env (LockKey key) (cc_NodeID cfg) st)"
  by (simp add: coord_AcquireLock_def redis_leases_def key_acquire_def split: prod.split)

lemma after_key: "snd (coord_AcquireLock (redis_leases env) cfg key ttl st) = snd (key_acquire ttl env (LockKey key) (cc_NodeID cfg) st)"
  by (simp add: coord_AcquireLock_def redis_leases_def key_acquire_def split: prod.split)

text \<open>
  Property C21. While one coordinator holds a lock, another one is granted it exactly when the two have the same node id, on both drivers; and the
  default configuration has the empty id, so coordinators that keep it lock nothing against each other.\<close>

theorem coordinators_lock_by_node_id:
  assumes "locks_valid db" and "grants (coord_AcquireLock (sql_leases env) cfg key ttl db)"
    and "sql_healthy env'" and "clk env 0 \<le> clk env' 0" and "clk env' 0 < clk env 0 + ttl"
    and "grants (coord_AcquireLock (redis_leases cenv) cfg key ttl st)"
    and "redis_healthy cenv'" and "srv_ms cenv \<le> srv_ms cenv'" and "srv_ms cenv' < srv_ms cenv + ttlMillis ttl"
  shows "(grants (coord_AcquireLock (sql_leases env') cfg' key ttl (snd (coord_AcquireLock (sql_leases env) cfg key ttl db))) \<longleftrightarrow>
      cc_NodeID cfg' = cc_NodeID cfg) \<and>
    (grants (coord_AcquireLock (redis_leases cenv') cfg' key ttl (snd (coord_AcquireLock (redis_leases cenv) cfg key ttl st))) \<longleftrightarrow>
      cc_NodeID cfg' = cc_NodeID cfg) \<and>
    cc_NodeID coord_DefaultConfig = []"
  unfolding grants_lock grants_key after_lock after_key
  using fair_lock.second_grant_iff [OF assms(1) assms(2)[unfolded grants_lock] assms(3-5)]
    fair_key.second_grant_iff [OF TrueI assms(6)[unfolded grants_key] assms(7-9)]
  by (simp add: coord_DefaultConfig_def)

theorem coordinators_lock_by_node_id_witness:
  "grants (coord_AcquireLock (sql_leases (at_time 10)) (coord_DefaultConfig\<lparr>cc_Host := ''b''\<rparr>) ''cron'' (5 * Second)
     (snd (coord_AcquireLock (sql_leases (at_time 0)) (coord_DefaultConfig\<lparr>cc_Host := ''a''\<rparr>) ''cron'' (5 * Second) lease_db)))"
proof -
  let ?a = "coord_DefaultConfig\<lparr>cc_Host := ''a''\<rparr>" and ?b = "coord_DefaultConfig\<lparr>cc_Host := ''b''\<rparr>"
  have "grants (coord_AcquireLock (sql_leases (at_time 0)) ?a ''cron'' (5 * Second) lease_db)"
    by (simp add: coord_AcquireLock_def sql_leases_def sql_AcquireLock_def lease_db_def at_time_def Let_def)
  moreover have "grants (coord_AcquireLock (redis_leases (at_ms 0)) ?a ''cron'' (5 * Second) no_keys)"
    by (simp add: coord_AcquireLock_def redis_leases_def redis_AcquireLock_def renew_def run_cluster_def renewScript_def live_def no_keys_def at_ms_def)
  ultimately show ?thesis
    using coordinators_lock_by_node_id [of lease_db "at_time 0" ?a "''cron''" "5 * Second" "at_time 10" "at_ms 0" no_keys "at_ms 10" ?b]
    by (simp add: locks_valid_def lease_db_def at_time_def at_ms_def sql_healthy_def redis_healthy_def coord_DefaultConfig_def ttlMillis_def)
qed

end
