(* ===== verification/Commands_Properties.thy ===== *)
theory Commands_Properties
  imports Commands Web_Properties Coordination
begin

text \<open>
  What the terminal commands do: retrying a job by its id, a clear command that clears nothing, the queues a worker process serves and what it leaves
  behind when it is told to end.
\<close>


section \<open>Job commands\<close>

lemma ParseUint_decimal: "n < 2 ^ 64 \<Longrightarrow> ParseUint (decimal n) = Inr n"
  by (simp add: ParseUint_def decimal_not_Nil decimal_digits digits_value_decimal)

text \<open>
  \<^verbatim>\<open>tasker:job retry\<close> with the decimal id of a job: on the SQL driver the row is reset and made available at once when its state allows a manual
  retry, no other row changes, and in every other case the command ends with an error and changes nothing.\<close>

theorem retry_command_resets_the_job:
  assumes "sql_healthy (q_sql qe)" and "i < 2 ^ 64"
  shows "job_retry_command (Some (sql_web_driver lower qe d)) [decimal i] db =
    (if count_where (sql_retryable i) (jobs db) = 0 then (Some ErrJobNotFound, db)
     else (None, db\<lparr>jobs := update_where (sql_retryable i) (sql_retry_row d (clk (q_sql qe) 0)) (jobs db)\<rparr>))"
proof -
  have parse: "exact_one [decimal i] = Inr (decimal i)" "ParseUint (decimal i) = Inr i"
    using assms(2) by (simp_all add: exact_one_def ParseUint_decimal)
  show ?thesis
  proof (cases "count_where (sql_retryable i) (jobs db) = 0")
    case True
    with assms(1) parse show ?thesis
      by (simp add: job_retry_command_def id_command_def Manager_Retry_def sql_web_driver_def Let_def sql_Retry_def sql_healthy_def)
  next
    case False
    then have "find_key ID i (jobs db) \<noteq> None" by (auto simp: find_key_None_iff sql_retryable_def)
    then obtain r where "find_key ID i (update_where (sql_retryable i) (sql_retry_row d (clk (q_sql qe) 0)) (jobs db)) = Some r"
      by (auto simp: find_key_update_where sql_retry_row_def)
    with False assms(1) parse show ?thesis
      by (simp add: job_retry_command_def id_command_def Manager_Retry_def sql_web_driver_def Let_def sql_Retry_def sql_GetByID_def sql_healthy_def
          del: count_where_0_iff)
  qed
qed

definition calm_queries :: query_env where
  "calm_queries = \<lparr>q_sql = at_time 100, q_fold = to_lower, q_coll = bytes_key, q_tie = ID, q_dur = (\<lambda>a b. of_int (b - a)), q_null_tag = (\<lambda>_. False)\<rparr>"

theorem retry_command_resets_the_job_witness:
  "job_retry_command (Some (sql_web_driver to_lower calm_queries SQLite)) [''7''] (lease_db\<lparr>jobs := [zero_row\<lparr>ID := 7, State := StateFailed, Attempt := 3\<rparr>]\<rparr>) =
     (None, lease_db\<lparr>jobs := [zero_row\<lparr>ID := 7, State := StateAvailable, Attempt := 0, ScheduledAt := 100\<rparr>]\<rparr>)"
proof -
  have seven: "decimal 7 = ''7''" by (subst decimal.simps) code_simp
  show ?thesis
    using retry_command_resets_the_job [of calm_queries 7 to_lower SQLite "lease_db\<lparr>jobs := [zero_row\<lparr>ID := 7, State := StateFailed, Attempt := 3\<rparr>]\<rparr>"]
    by (simp add: seven calm_queries_def sql_healthy_def at_time_def sql_retryable_def sql_retry_row_def count_where_def zero_row_def lease_db_def
        emptyArray_def decode_json [of "[]", unfolded json_marshal_strings_def, simplified])
qed

text \<open>
  \<^verbatim>\<open>tasker:job clear\<close> removes nothing: the states to clear are a flag of its parent command that it does not see, so it asks the driver to prune no
  states, which both drivers answer without touching a job. The parent, which does nothing, sees failed and cancelled.\<close>

theorem clear_command_removes_nothing:
  "job_clear_command (Some (sql_web_driver lower qe d)) clear_flags job_command_flags now db = (None, db) \<and>
   (\<forall>drv st. job_clear_command (Some drv) clear_flags job_command_flags now st =
     (case wd_Prune drv now [] st of (Inl e, st') \<Rightarrow> (Some e, st') | (Inr _, st') \<Rightarrow> (None, st'))) \<and>
   redis_Prune env now [] rst = (Inr 0, rst) \<and>
   map state_of_string (snd (own_flags job_command_flags ! 0)) = [StateFailed, StateCancelled]"
  by (simp add: job_clear_command_def GetStringSlice_def clear_flags_def job_command_flags_def sql_web_driver_def Let_def sql_Prune_def redis_Prune_def
      state_of_string_def named_states_def)



section \<open>Work command\<close>

lemma put_queue_keys: "fst ` set (put_queue q c qs) = insert q (fst ` set qs)"
  by (auto simp: put_queue_def image_iff split: if_splits) force+

lemma put_queue_distinct: "distinct (map fst qs) \<Longrightarrow> distinct (map fst (put_queue q c qs))"
  by (auto simp: put_queue_def comp_def case_prod_beta)

lemma put_queue_same: "list_all (\<lambda>x. snd x = c) qs \<Longrightarrow> list_all (\<lambda>x. snd x = c) (put_queue q c qs)"
  by (auto simp: put_queue_def list_all_iff)

lemma fold_put_queue:
  "distinct (map fst qs) \<Longrightarrow> list_all (\<lambda>x. snd x = c) qs \<Longrightarrow>
   distinct (map fst (fold (\<lambda>q. put_queue q c) names qs)) \<and> list_all (\<lambda>x. snd x = c) (fold (\<lambda>q. put_queue q c) names qs) \<and>
   fst ` set (fold (\<lambda>q. put_queue q c) names qs) = set names \<union> fst ` set qs"
  by (induction names arbitrary: qs) (auto simp: put_queue_keys put_queue_distinct put_queue_same)

lemma work_queues:
  "distinct (map fst (sc_Queues (work_config queues workers))) \<and>
   list_all (\<lambda>x. MaxWorkers (snd x) = workers) (sc_Queues (work_config queues workers)) \<and>
   fst ` set (sc_Queues (work_config queues workers)) = (if queues = [] then {''default''} else set queues)"
proof -
  let ?c = "\<lparr>MaxWorkers = workers, MinWorkers = 1\<rparr>" and ?qs = "fold (\<lambda>q. put_queue q \<lparr>MaxWorkers = workers, MinWorkers = 1\<rparr>) queues []"
  have qs: "distinct (map fst ?qs)" "list_all (\<lambda>x. snd x = ?c) ?qs" "fst ` set ?qs = set queues"
    using fold_put_queue [of "[]" ?c queues] by auto
  show ?thesis
  proof (cases "queues = []")
    case True
    then show ?thesis by (simp add: work_config_def put_queue_def Let_def)
  next
    case False
    with qs(3) have "?qs \<noteq> []" by auto
    then have "sc_Queues (work_config queues workers) = ?qs" by (simp add: work_config_def Let_def)
    with qs False show ?thesis by (auto simp: list_all_iff)
  qed
qed

text \<open>Starting pools for queues that have none yet: one pool each, with the configured number of workers.\<close>

lemma start_pools_fresh:
  assumes "distinct (map fst qs)" "fst ` set qs \<inter> fst ` set ps = {}" "list_all (\<lambda>x. 0 \<le> MaxWorkers (snd x)) qs"
  shows "\<exists>new. start_pools node qs ps = (Ret (), ps @ new) \<and> map fst new = map fst qs \<and>
    list_all2 (\<lambda>x y. Pool_WorkerCount (snd x) = MaxWorkers (snd y) \<and> p_running (snd x)) new qs"
  using assms
proof (induction qs arbitrary: ps)
  case (Cons x qs)
  obtain q qcfg where x: "x = (q, qcfg)" by (cases x)
  with Cons.prems have new: "map_of ps q = None" "0 \<le> MaxWorkers qcfg" by (auto simp: map_of_eq_None_iff)
  obtain res p where p: "Pool_Start node (NewPool q (MaxWorkers qcfg)) = (res, p)" by fastforce
  with new have facts: "res = Ret None" "Pool_WorkerCount p = MaxWorkers qcfg" "p_running p"
    by (auto simp: Pool_Start_def NewPool_def Let_def Pool_WorkerCount_def start_workers_def)
  have start: "StartPool node q (MaxWorkers qcfg) ps = (Ret None, ps @ [(q, p)])"
    using new p facts by (simp add: StartPool_def put_pool_def)
  from Cons.prems x obtain rest where "start_pools node qs (ps @ [(q, p)]) = (Ret (), (ps @ [(q, p)]) @ rest)" "map fst rest = map fst qs"
      "list_all2 (\<lambda>x y. Pool_WorkerCount (snd x) = MaxWorkers (snd y) \<and> p_running (snd x)) rest qs"
    using Cons.IH [of "ps @ [(q, p)]"] by auto
  with start x facts show ?case by (intro exI [of _ "(q, p) # rest"]) simp
qed simp

lemma list_all2_list_all: "list_all2 P xs ys \<Longrightarrow> list_all Q ys \<Longrightarrow> (\<And>x y. P x y \<Longrightarrow> Q y \<Longrightarrow> R x) \<Longrightarrow> list_all R xs"
  by (induction rule: list_all2_induct) auto

lemma doAutoscale_flags: "s_running (doAutoscale node drv qs s) = s_running s" "s_stopped (doAutoscale node drv qs s) = s_stopped s"
  by (induction qs arbitrary: s) (auto simp: Let_def split: prod.splits sum.splits if_splits)

lemma sup_tick_flags: "s_running (sup_tick node drv cfg t s) = s_running s" "s_stopped (sup_tick node drv cfg t s) = s_stopped s"
  by (cases t; simp add: doHeartbeat_def doRequeue_def doPrune_def doAutoscale_flags)+

lemma sup_ticks_flags:
  "s_running (fold (\<lambda>t s. if s_cancelled s then s else sup_tick node drv cfg t s) ts s) = s_running s"
  "s_stopped (fold (\<lambda>t s. if s_cancelled s then s else sup_tick node drv cfg t s) ts s) = s_stopped s"
  by (induction ts arbitrary: s) (simp_all add: sup_tick_flags)

text \<open>
  A worker process serves each queue it was given once, and the default queue if it was given none, each with one running pool of the
  number of workers asked for; and when a signal ends it after any ticks, it stops without a panic and has no pool left.
  Without a manager it exits with status 1.\<close>

theorem work_command_serves_its_queues:
  assumes "0 \<le> workers"
  shows "(\<exists>s. sup_Start node drv (work_config queues workers) now (sup_New d) = (Ret (), s) \<and>
      distinct (map fst (s_pools s)) \<and> fst ` set (s_pools s) = (if queues = [] then {''default''} else set queues) \<and>
      list_all (\<lambda>x. Pool_WorkerCount (snd x) = workers \<and> p_running (snd x)) (s_pools s)) \<and>
    (\<exists>s. work_command (Some drv) node queues workers now ticks (\<lambda>_. None) d = WorkDone s \<and> s_pools s = [] \<and> \<not> s_running s) \<and>
    work_command None node queues workers now ticks (\<lambda>_. None) d = WorkExit 1"
proof -
  let ?cfg = "work_config queues workers"
  have q: "distinct (map fst (sc_Queues ?cfg))" "list_all (\<lambda>x. MaxWorkers (snd x) = workers) (sc_Queues ?cfg)"
    "fst ` set (sc_Queues ?cfg) = (if queues = [] then {''default''} else set queues)" using work_queues by blast+
  have "list_all (\<lambda>x. 0 \<le> MaxWorkers (snd x)) (sc_Queues ?cfg)" using q(2) assms by (auto simp: list_all_iff)
  from start_pools_fresh [OF q(1) _ this, of "[]" node] obtain new where new: "start_pools node (sc_Queues ?cfg) [] = (Ret (), new)"
      "map fst new = map fst (sc_Queues ?cfg)"
      "list_all2 (\<lambda>x y. Pool_WorkerCount (snd x) = MaxWorkers (snd y) \<and> p_running (snd x)) new (sc_Queues ?cfg)" by auto
  then obtain s where s: "sup_Start node drv ?cfg now (sup_New d) = (Ret (), s)" "s_pools s = new" "s_running s" "\<not> s_stopped s"
    by (simp add: sup_Start_def sup_New_def Let_def)
  have workers: "list_all (\<lambda>x. Pool_WorkerCount (snd x) = workers \<and> p_running (snd x)) new"
    using new(3) q(2) by (rule list_all2_list_all) simp
  have "fst ` set new = fst ` set (sc_Queues ?cfg)" using new(2) by (metis set_map)
  with s q workers new(2) have first: "\<exists>s. sup_Start node drv ?cfg now (sup_New d) = (Ret (), s) \<and>
      distinct (map fst (s_pools s)) \<and> fst ` set (s_pools s) = (if queues = [] then {''default''} else set queues) \<and>
      list_all (\<lambda>x. Pool_WorkerCount (snd x) = workers \<and> p_running (snd x)) (s_pools s)"
    by (intro exI [of _ s]) auto
  let ?s2 = "fold (\<lambda>t s. if s_cancelled s then s else sup_tick node drv ?cfg t s) ticks s"
  have "0 < HeartbeatInterval ?cfg" "0 < RequeueInterval ?cfg" "0 < PruneInterval ?cfg"
    by (simp_all add: work_config_def sup_DefaultConfig_def Let_def)
  then have loop: "sup_loop node drv ?cfg ticks s = (Ret (), ?s2)" by (simp add: sup_loop_def)
  have "\<exists>s3. sup_Stop node drv (\<lambda>_. None) ?s2 = (Ret (), s3) \<and> s_pools s3 = [] \<and> \<not> s_running s3"
    using s(3,4) by (simp add: sup_Stop_def sup_ticks_flags Let_def)
  with s(1) loop have "\<exists>s. work_command (Some drv) node queues workers now ticks (\<lambda>_. None) d = WorkDone s \<and> s_pools s = [] \<and> \<not> s_running s"
    by (auto simp: work_command_def Let_def)
  with first show ?thesis by (simp add: work_command_def)
qed

theorem work_command_serves_its_queues_witness:
  "\<exists>s. sup_Start ''n'' silent_driver (work_config [''a'', ''b'', ''a''] 3) 0 (sup_New ()) = (Ret (), s) \<and> fst ` set (s_pools s) = {''a'', ''b''}"
  using work_command_serves_its_queues [of 3 "''n''" silent_driver "[''a'', ''b'', ''a'']" 0 "()" "[]"] by auto

end
