(* ===== verification/Scheduler.thy ===== *)
theory Scheduler
  imports Dispatch "HOL-Library.AList"
begin

text \<open>
  The scheduler of \<^verbatim>\<open>scheduler/scheduler.go\<close>. The cron library is a parameter: a record of the operations the code calls on a cron state
  \<open>'c\<close>, with \<open>entries\<close>, the entries it would fire. The callback of an entry is the job it captures. Listeners and the driver have states of
  their own. The last section is the interleaving of \<^verbatim>\<open>Stop\<close> with the goroutines of fired entries, which share the scheduler's mutex.
\<close>


section \<open>The cron library\<close>

record ScheduledJob =
  sj_ID :: string
  sj_Schedule :: string
  sj_Job :: Job
  sj_Queue :: queue_name
  sj_Opts :: "DispatchOpt list"

type_synonym entry_id = nat

record 'c cron_lib =
  AddFunc :: "string \<Rightarrow> ScheduledJob \<Rightarrow> 'c \<Rightarrow> (error + entry_id) \<times> 'c"
  cron_Remove :: "entry_id \<Rightarrow> 'c \<Rightarrow> 'c"
  cron_Start :: "'c \<Rightarrow> 'c"
  cron_Stop :: "'c \<Rightarrow> 'c"
  entries :: "'c \<Rightarrow> (entry_id \<rightharpoonup> ScheduledJob)"

text \<open>
  What the library documents of these operations: a schedule that does not parse adds nothing, an added entry has an id no entry has, and
  removing takes away that entry only.
\<close>

definition cron_contract :: "'c cron_lib \<Rightarrow> bool" where
  "cron_contract lib \<longleftrightarrow>
     (\<forall>spec job c. case AddFunc lib spec job c of
        (Inl _, c') \<Rightarrow> entries lib c' = entries lib c
      | (Inr i, c') \<Rightarrow> i \<notin> dom (entries lib c) \<and> entries lib c' = (entries lib c)(i \<mapsto> job)) \<and>
     (\<forall>i c. entries lib (cron_Remove lib i c) = (entries lib c)(i := None)) \<and>
     (\<forall>c. entries lib (cron_Start lib c) = entries lib c) \<and>
     (\<forall>c. entries lib (cron_Stop lib c) = entries lib c)"


section \<open>The scheduler\<close>

record Run =
  run_ID :: string
  run_Schedule :: string
  run_Queue :: queue_name
  run_Job :: Job
  run_At :: time
  run_Duration :: duration
  run_Err :: "error option"

text \<open>A listener acts on the observers' state \<open>'o\<close> and may panic.\<close>

type_synonym 'o Listener = "Run \<Rightarrow> 'o \<Rightarrow> (unit, string) outcome \<times> 'o"

text \<open>\<open>sch_ctx\<close> is nil before the first start, and says whether the context has ended after it.\<close>

record ('c, 'o) scheduler =
  sch_jobs :: "(string \<times> ScheduledJob) list"
  sch_cron :: 'c
  sch_entryIDs :: "(string \<times> entry_id) list"
  sch_running :: bool
  sch_ctx :: "bool option"
  sch_listeners :: "'o Listener list"

definition sched_New :: "'c \<Rightarrow> ('c, 'o) scheduler" where
  "sched_New c = \<lparr>sch_jobs = [], sch_cron = c, sch_entryIDs = [], sch_running = False, sch_ctx = None, sch_listeners = []\<rparr>"

definition Observe :: "'o Listener option \<Rightarrow> ('c, 'o) scheduler \<Rightarrow> ('c, 'o) scheduler" where
  "Observe l s = (case l of None \<Rightarrow> s | Some listen \<Rightarrow> s\<lparr>sch_listeners := sch_listeners s @ [listen]\<rparr>)"

definition Register :: "'c cron_lib \<Rightarrow> ScheduledJob \<Rightarrow> ('c, 'o) scheduler \<Rightarrow> error option \<times> ('c, 'o) scheduler" where
  "Register lib job s =
     (if map_of (sch_jobs s) (sj_ID job) \<noteq> None then (None, s)
      else let s1 = s\<lparr>sch_jobs := AList.update (sj_ID job) job (sch_jobs s)\<rparr> in
        case AddFunc lib (sj_Schedule job) job (sch_cron s1) of
          (Inl e, c) \<Rightarrow> (Some e, s1\<lparr>sch_cron := c, sch_jobs := AList.delete (sj_ID job) (sch_jobs s1)\<rparr>)
        | (Inr i, c) \<Rightarrow> (None, s1\<lparr>sch_cron := c, sch_entryIDs := AList.update (sj_ID job) i (sch_entryIDs s1)\<rparr>))"

definition Remove :: "'c cron_lib \<Rightarrow> string \<Rightarrow> ('c, 'o) scheduler \<Rightarrow> ('c, 'o) scheduler" where
  "Remove lib i s =
     (case map_of (sch_entryIDs s) i of
        None \<Rightarrow> s
      | Some e \<Rightarrow> s\<lparr>sch_cron := cron_Remove lib e (sch_cron s), sch_entryIDs := AList.delete i (sch_entryIDs s),
          sch_jobs := AList.delete i (sch_jobs s)\<rparr>)"

text \<open>\<open>ended\<close> says whether the caller's context has ended already.\<close>

definition sched_Start :: "'c cron_lib \<Rightarrow> bool \<Rightarrow> ('c, 'o) scheduler \<Rightarrow> ('c, 'o) scheduler" where
  "sched_Start lib ended s =
     (if sch_running s then s else s\<lparr>sch_ctx := Some ended, sch_running := True, sch_cron := cron_Start lib (sch_cron s)\<rparr>)"

text \<open>\<open>waited\<close> is what the wait for the running entries gives: nothing when they end first, the context's error when it ends first.\<close>

definition sched_Stop :: "'c cron_lib \<Rightarrow> error option \<Rightarrow> ('c, 'o) scheduler \<Rightarrow> error option \<times> ('c, 'o) scheduler" where
  "sched_Stop lib waited s =
     (if \<not> sch_running s then (None, s)
      else (waited, s\<lparr>sch_running := False, sch_ctx := Some True, sch_cron := cron_Stop lib (sch_cron s)\<rparr>))"

definition sched_List :: "('c, 'o) scheduler \<Rightarrow> ScheduledJob list" where
  "sched_List s = map snd (sch_jobs s)"

text \<open>A listener's panic is contained; what it wrote before stays.\<close>

definition deliver :: "Run \<Rightarrow> 'o Listener \<Rightarrow> 'o \<Rightarrow> 'o" where
  "deliver run listen obs = (case listen run obs of (Ret _, obs') \<Rightarrow> obs' | (Panic _, obs') \<Rightarrow> obs')"

record fire_env =
  f_build :: build_env
  f_started :: time
  f_took :: duration

text \<open>\<open>Enqueue\<close> is the driver's operation under a context that has ended or not; the context before the first start is the background one.\<close>

definition dispatchJob ::
    "(bool \<Rightarrow> 'd single_op) \<Rightarrow> 'd DispatchMiddleware list \<Rightarrow> ManagerConfig \<Rightarrow> fire_env \<Rightarrow> ScheduledJob \<Rightarrow> ('c, 'o) scheduler \<Rightarrow> 'd \<times> 'o \<Rightarrow> 'd \<times> 'o" where
  "dispatchJob Enqueue mws cfg env job s st =
     (case st of (d, obs) \<Rightarrow>
        let ended = (case sch_ctx s of None \<Rightarrow> False | Some b \<Rightarrow> b);
            listeners = sch_listeners s;
            opts = OnQueue (sj_Queue job) # sj_Opts job
        in (case Dispatch (Enqueue ended) mws cfg (f_build env) (sj_Job job) opts d of
              (res, d') \<Rightarrow>
                let err = (case res of Inl e \<Rightarrow> Some e | Inr _ \<Rightarrow> None) in
                if listeners = [] then (d', obs)
                else let run = \<lparr>run_ID = sj_ID job, run_Schedule = sj_Schedule job, run_Queue = sj_Queue job, run_Job = sj_Job job,
                       run_At = f_started env, run_Duration = f_took env, run_Err = err\<rparr>
                     in (d', fold (deliver run) listeners obs)))"

text \<open>An entry fires: the library calls its callback.\<close>

definition fire :: "'c cron_lib \<Rightarrow> (bool \<Rightarrow> 'd single_op) \<Rightarrow> 'd DispatchMiddleware list \<Rightarrow> ManagerConfig \<Rightarrow> fire_env \<Rightarrow> entry_id \<Rightarrow> ('c, 'o) scheduler \<Rightarrow> 'd \<times> 'o \<Rightarrow> 'd \<times> 'o" where
  "fire lib Enqueue mws cfg env i s st =
     (case entries lib (sch_cron s) i of None \<Rightarrow> st | Some job \<Rightarrow> dispatchJob Enqueue mws cfg env job s st)"


section \<open>Sequences of calls\<close>

datatype 'o sched_op = OpRegister ScheduledJob | OpRemove string | OpStart bool | OpStop "error option" | OpObserve "'o Listener option"

fun sched_exec :: "'c cron_lib \<Rightarrow> 'o sched_op \<Rightarrow> ('c, 'o) scheduler \<Rightarrow> ('c, 'o) scheduler" where
  "sched_exec lib (OpRegister job) s = snd (Register lib job s)"
| "sched_exec lib (OpRemove i) s = Remove lib i s"
| "sched_exec lib (OpStart ended) s = sched_Start lib ended s"
| "sched_exec lib (OpStop waited) s = snd (sched_Stop lib waited s)"
| "sched_exec lib (OpObserve l) s = Observe l s"

text \<open>The registered jobs, the entry ids and the library's entries are one correspondence.\<close>

definition sched_ok :: "'c cron_lib \<Rightarrow> ('c, 'o) scheduler \<Rightarrow> bool" where
  "sched_ok lib s \<longleftrightarrow>
     distinct (map fst (sch_jobs s)) \<and>
     (\<forall>i. (map_of (sch_jobs s) i = None) = (map_of (sch_entryIDs s) i = None)) \<and>
     (\<forall>i e. map_of (sch_entryIDs s) i = Some e \<longrightarrow>
        (\<exists>job. map_of (sch_jobs s) i = Some job \<and> sj_ID job = i \<and> entries lib (sch_cron s) e = Some job)) \<and>
     (\<forall>e job. entries lib (sch_cron s) e = Some job \<longrightarrow> map_of (sch_entryIDs s) (sj_ID job) = Some e)"

lemma contract_AddFunc_Inl: "cron_contract lib \<Longrightarrow> AddFunc lib spec job c = (Inl e, c') \<Longrightarrow> entries lib c' = entries lib c"
  unfolding cron_contract_def by (metis (mono_tags, lifting) case_prod_conv sum.simps(5))

lemma contract_AddFunc_Inr:
  "cron_contract lib \<Longrightarrow> AddFunc lib spec job c = (Inr i, c') \<Longrightarrow> entries lib c i = None \<and> entries lib c' = (entries lib c)(i \<mapsto> job)"
  unfolding cron_contract_def by (metis (mono_tags, lifting) case_prod_conv sum.simps(6) domIff)

lemma contract_rest [simp]:
  assumes "cron_contract lib"
  shows "entries lib (cron_Remove lib i c) = (entries lib c)(i := None)" "entries lib (cron_Start lib c) = entries lib c"
    "entries lib (cron_Stop lib c) = entries lib c"
  using assms by (simp_all add: cron_contract_def)

lemma sched_ok_New: "entries lib c = Map.empty \<Longrightarrow> sched_ok lib (sched_New c)"
  by (simp add: sched_ok_def sched_New_def)

lemma sched_ok_cron: "entries lib c = entries lib (sch_cron s) \<Longrightarrow> sched_ok lib (s\<lparr>sch_cron := c\<rparr>) = sched_ok lib s"
  by (simp add: sched_ok_def)

lemma sched_ok_parts:
  assumes "sched_ok lib s"
  shows "distinct (map fst (sch_jobs s))"
    "\<And>i. (map_of (sch_jobs s) i = None) = (map_of (sch_entryIDs s) i = None)"
    "\<And>i e. map_of (sch_entryIDs s) i = Some e \<Longrightarrow>
        \<exists>job. map_of (sch_jobs s) i = Some job \<and> sj_ID job = i \<and> entries lib (sch_cron s) e = Some job"
    "\<And>e job. entries lib (sch_cron s) e = Some job \<Longrightarrow> map_of (sch_entryIDs s) (sj_ID job) = Some e"
  using assms unfolding sched_ok_def by blast+

lemma sched_ok_Register:
  assumes "cron_contract lib" "sched_ok lib s" shows "sched_ok lib (snd (Register lib job s))"
proof (cases "map_of (sch_jobs s) (sj_ID job)")
  case (Some j)
  then show ?thesis using assms by (simp add: Register_def)
next
  case None
  obtain res c where add: "AddFunc lib (sj_Schedule job) job (sch_cron s) = (res, c)" by (cases "AddFunc lib (sj_Schedule job) job (sch_cron s)")
  show ?thesis
  proof (cases res)
    case (Inl e)
    from None have "AList.delete (sj_ID job) (AList.update (sj_ID job) job (sch_jobs s)) = sch_jobs s"
      by (simp add: map_of_eq_None_iff delete_update_same)
    with Inl None add have same: "snd (Register lib job s) = s\<lparr>sch_cron := c\<rparr>" by (simp add: Register_def Let_def)
    have "entries lib c = entries lib (sch_cron s)" using contract_AddFunc_Inl [OF assms(1) add [unfolded Inl]] .
    then show ?thesis using assms(2) unfolding same by (subst sched_ok_cron)
  next
    case (Inr i)
    note new = contract_AddFunc_Inr [OF assms(1) add [unfolded Inr]]
    note parts = sched_ok_parts [OF assms(2)]
    from None parts(2) have fresh: "map_of (sch_entryIDs s) (sj_ID job) = None" by blast
    with parts(4) have unused: "entries lib (sch_cron s) e = Some job' \<Longrightarrow> sj_ID job' \<noteq> sj_ID job" for e job' by force
    have other: "map_of (sch_entryIDs s) i' = Some e \<Longrightarrow> e \<noteq> i" for i' e using parts(3) [of i' e] new by auto
    show ?thesis
      unfolding sched_ok_def using Inr None add new
      by (auto simp: Register_def Let_def update_conv' distinct_update parts(1,2) other unused dest: parts(3,4))
  qed
qed

lemma sched_ok_entry_unique:
  assumes "sched_ok lib s" "map_of (sch_entryIDs s) i = Some e" "map_of (sch_entryIDs s) i' = Some e"
  shows "i' = i"
  using assms by (metis option.inject sched_ok_def)

lemma sched_ok_Remove:
  assumes "cron_contract lib" and ok: "sched_ok lib s" shows "sched_ok lib (Remove lib i s)"
proof (cases "map_of (sch_entryIDs s) i")
  case None
  then show ?thesis using assms by (simp add: Remove_def)
next
  case (Some e)
  have other: "e' \<noteq> e" if "map_of (sch_entryIDs s) i' = Some e'" "i' \<noteq> i" for i' e'
    using sched_ok_entry_unique [OF ok Some] that by blast
  have gone: "sj_ID job \<noteq> i" if "entries lib (sch_cron s) e' = Some job" "e' \<noteq> e" for e' job
    using that ok Some unfolding sched_ok_def by (metis option.inject)
  note parts = sched_ok_parts [OF ok]
  show ?thesis
    unfolding sched_ok_def using assms(1) Some
    by (auto simp: Remove_def delete_conv' distinct_delete parts(1,2) other gone dest: parts(3,4))
qed

lemma sched_ok_exec: "cron_contract lib \<Longrightarrow> sched_ok lib s \<Longrightarrow> sched_ok lib (sched_exec lib op1 s)"
  by (cases op1)
    (auto simp: sched_ok_Register sched_ok_Remove, auto simp: sched_ok_def sched_Start_def sched_Stop_def Observe_def split: option.split)

lemma sched_ok_fold: "cron_contract lib \<Longrightarrow> sched_ok lib s \<Longrightarrow> sched_ok lib (fold (sched_exec lib) ops s)"
  by (induction ops arbitrary: s) (auto simp: sched_ok_exec)


section \<open>Stop and the firing goroutines\<close>

text \<open>
  \<^verbatim>\<open>dispatchJob\<close> takes the mutex, copies what it needs, releases it and dispatches. \<^verbatim>\<open>Stop\<close> takes the mutex and keeps it while it waits until
  either every fired entry has ended or its context has. An entry may fire while the library has not been told to stop.
\<close>

datatype fire_phase = WantsLock | HasLock | Dispatching | Finished

datatype stop_phase = StopCalled | StopWaiting | StopReturned "error option"

record sched_conc =
  fires :: "fire_phase list"
  stopping :: stop_phase
  mu_held :: bool
  ctx_done :: bool

inductive sched_step :: "error \<Rightarrow> sched_conc \<Rightarrow> sched_conc \<Rightarrow> bool" for ctxErr where
  entry_fires: "stopping c = StopCalled \<Longrightarrow> sched_step ctxErr c (c\<lparr>fires := fires c @ [WantsLock]\<rparr>)"
| fire_locks: "i < length (fires c) \<Longrightarrow> fires c ! i = WantsLock \<Longrightarrow> \<not> mu_held c \<Longrightarrow>
    sched_step ctxErr c (c\<lparr>fires := (fires c)[i := HasLock], mu_held := True\<rparr>)"
| fire_unlocks: "i < length (fires c) \<Longrightarrow> fires c ! i = HasLock \<Longrightarrow>
    sched_step ctxErr c (c\<lparr>fires := (fires c)[i := Dispatching], mu_held := False\<rparr>)"
| fire_ends: "i < length (fires c) \<Longrightarrow> fires c ! i = Dispatching \<Longrightarrow> sched_step ctxErr c (c\<lparr>fires := (fires c)[i := Finished]\<rparr>)"
| stop_locks: "stopping c = StopCalled \<Longrightarrow> \<not> mu_held c \<Longrightarrow> sched_step ctxErr c (c\<lparr>stopping := StopWaiting, mu_held := True\<rparr>)"
| stop_all_ended: "stopping c = StopWaiting \<Longrightarrow> list_all (\<lambda>p. p = Finished) (fires c) \<Longrightarrow>
    sched_step ctxErr c (c\<lparr>stopping := StopReturned None, mu_held := False\<rparr>)"
| stop_ctx_ended: "stopping c = StopWaiting \<Longrightarrow> ctx_done c \<Longrightarrow>
    sched_step ctxErr c (c\<lparr>stopping := StopReturned (Some ctxErr), mu_held := False\<rparr>)"
| ctx_ends: "sched_step ctxErr c (c\<lparr>ctx_done := True\<rparr>)"

inductive_cases sched_stepE: "sched_step ctxErr c c'"

definition sched_conc_New :: sched_conc where
  "sched_conc_New = \<lparr>fires = [], stopping = StopCalled, mu_held = False, ctx_done = False\<rparr>"

text \<open>The mutex is held by exactly one goroutine while it is held.\<close>

definition mutex_ok :: "sched_conc \<Rightarrow> bool" where
  "mutex_ok c \<longleftrightarrow> length (filter (\<lambda>p. p = HasLock) (fires c)) + (if stopping c = StopWaiting then 1 else 0) = (if mu_held c then 1 else 0)"

lemma count_update:
  "i < length xs \<Longrightarrow> length (filter P (xs[i := y])) + (if P (xs ! i) then 1 else 0) = length (filter P xs) + (if P y then 1 else 0)"
proof (induction xs arbitrary: i)
  case (Cons x xs)
  show ?case
  proof (cases i)
    case (Suc k)
    with Cons.prems Cons.IH [of k] show ?thesis by auto
  qed simp
qed simp

lemma mutex_ok_step: "sched_step e c c' \<Longrightarrow> mutex_ok c \<Longrightarrow> mutex_ok c'"
proof (induction rule: sched_step.induct)
  case (fire_locks i c)
  then show ?case using count_update [of i "fires c" "\<lambda>p. p = HasLock" HasLock] by (simp add: mutex_ok_def split: if_splits)
next
  case (fire_unlocks i c)
  then show ?case using count_update [of i "fires c" "\<lambda>p. p = HasLock" Dispatching] by (simp add: mutex_ok_def split: if_splits)
next
  case (fire_ends i c)
  then show ?case using count_update [of i "fires c" "\<lambda>p. p = HasLock" Finished] by (simp add: mutex_ok_def split: if_splits)
qed (auto simp: mutex_ok_def split: if_splits)

lemma mutex_ok_reach: "(sched_step e)\<^sup>*\<^sup>* c c' \<Longrightarrow> mutex_ok c \<Longrightarrow> mutex_ok c'"
  by (induction rule: rtranclp_induct) (auto intro: mutex_ok_step)

text \<open>What stays while \<^verbatim>\<open>Stop\<close> waits and an entry that has fired still wants the mutex.\<close>

definition stop_blocked :: "error \<Rightarrow> sched_conc \<Rightarrow> bool" where
  "stop_blocked e c \<longleftrightarrow> mutex_ok c \<and>
     (stopping c = StopWaiting \<and> WantsLock \<in> set (fires c) \<or> ctx_done c \<and> stopping c = StopReturned (Some e))"

lemma waiting_keeps_wanting:
  "i < length xs \<Longrightarrow> xs ! i \<noteq> WantsLock \<Longrightarrow> WantsLock \<in> set xs \<Longrightarrow> WantsLock \<in> set (xs[i := y])"
  by (metis in_set_conv_nth length_list_update nth_list_update_neq)

lemma stop_waiting_holds: "mutex_ok c \<Longrightarrow> stopping c = StopWaiting \<Longrightarrow> mu_held c"
  by (simp add: mutex_ok_def split: if_splits)

lemma stop_blocked_step: "sched_step e c c' \<Longrightarrow> stop_blocked e c \<Longrightarrow> stop_blocked e c'"
proof -
  assume step: "sched_step e c c'" and blocked: "stop_blocked e c"
  from step blocked mutex_ok_step have ok: "mutex_ok c'" by (auto simp: stop_blocked_def)
  from step blocked have "stopping c' = StopWaiting \<and> WantsLock \<in> set (fires c') \<or> ctx_done c' \<and> stopping c' = StopReturned (Some e)"
    by (induction rule: sched_step.induct)
      (auto simp: stop_blocked_def list_all_iff stop_waiting_holds intro!: waiting_keeps_wanting)
  with ok show ?thesis by (simp add: stop_blocked_def)
qed

lemma stop_blocked_reach: "(sched_step e)\<^sup>*\<^sup>* c c' \<Longrightarrow> stop_blocked e c \<Longrightarrow> stop_blocked e c'"
  by (induction rule: rtranclp_induct) (auto intro: stop_blocked_step)

end
