(* ===== verification/Scheduler_Properties.thy ===== *)
theory Scheduler_Properties
  imports Scheduler
begin

text \<open>
  What the scheduler guarantees: its registrations and the library's entries stay one correspondence, a firing dispatches and is reported to
  every listener, and how \<^verbatim>\<open>Stop\<close> and a firing entry meet at the mutex.
\<close>


section \<open>Registrations\<close>

lemma sched_ok_List:
  assumes ok: "sched_ok lib s" shows "map sj_ID (sched_List s) = map fst (sch_jobs s)"
proof -
  have "sj_ID job = i" if "(i, job) \<in> set (sch_jobs s)" for i job
  proof -
    from that sched_ok_parts(1) [OF ok] have "map_of (sch_jobs s) i = Some job" by simp
    moreover from this sched_ok_parts(2) [OF ok, of i] obtain e where "map_of (sch_entryIDs s) i = Some e" by auto
    ultimately show ?thesis using sched_ok_parts(3) [OF ok] by fastforce
  qed
  then show ?thesis by (auto simp: sched_List_def)
qed

lemma sched_ok_listed:
  assumes ok: "sched_ok lib s"
  shows "job \<in> set (sched_List s) \<longleftrightarrow> map_of (sch_jobs s) (sj_ID job) = Some job"
proof
  assume listed: "job \<in> set (sched_List s)"
  then obtain i where i: "(i, job) \<in> set (sch_jobs s)" by (auto simp: sched_List_def)
  from i have "sj_ID job = i" using sched_ok_List [OF ok] by (auto simp: sched_List_def)
  with i sched_ok_parts(1) [OF ok] show "map_of (sch_jobs s) (sj_ID job) = Some job" by simp
next
  assume "map_of (sch_jobs s) (sj_ID job) = Some job"
  then show "job \<in> set (sched_List s)" by (force simp: sched_List_def dest: map_of_SomeD)
qed

lemma sched_ok_entries:
  assumes ok: "sched_ok lib s"
  shows "ran (entries lib (sch_cron s)) = set (sched_List s)"
    and "entries lib (sch_cron s) e = Some job \<Longrightarrow> entries lib (sch_cron s) e' = Some job \<Longrightarrow> e = e'"
proof -
  have "job \<in> set (sched_List s)" if "entries lib (sch_cron s) e = Some job" for e job
    using sched_ok_parts(3) [OF ok sched_ok_parts(4) [OF ok that]] that sched_ok_listed [OF ok] by auto
  moreover have "\<exists>e. entries lib (sch_cron s) e = Some job" if "job \<in> set (sched_List s)" for job
  proof -
    from that have j: "map_of (sch_jobs s) (sj_ID job) = Some job" by (simp add: sched_ok_listed [OF ok])
    then obtain e where "map_of (sch_entryIDs s) (sj_ID job) = Some e" using sched_ok_parts(2) [OF ok, of "sj_ID job"] by auto
    then show ?thesis using sched_ok_parts(3) [OF ok] j by fastforce
  qed
  ultimately show "ran (entries lib (sch_cron s)) = set (sched_List s)" by (auto simp: ran_def)
next
  assume "entries lib (sch_cron s) e = Some job" "entries lib (sch_cron s) e' = Some job"
  then show "e = e'" using sched_ok_parts(4) [OF ok] by (metis option.inject)
qed

lemma Register_failed:
  assumes "cron_contract lib" "sched_ok lib s" "fst (Register lib job s) \<noteq> None"
  shows "sched_List (snd (Register lib job s)) = sched_List s"
    and "entries lib (sch_cron (snd (Register lib job s))) = entries lib (sch_cron s)"
proof -
  from assms(3) have new: "map_of (sch_jobs s) (sj_ID job) = None" by (metis Register_def fst_conv)
  from assms(3) obtain e c where add: "AddFunc lib (sj_Schedule job) job (sch_cron s) = (Inl e, c)"
    by (auto simp: Register_def Let_def split: if_splits prod.splits sum.splits)
  from new have "AList.delete (sj_ID job) (AList.update (sj_ID job) job (sch_jobs s)) = sch_jobs s"
    by (simp add: map_of_eq_None_iff delete_update_same)
  with new add contract_AddFunc_Inl [OF assms(1) add]
  show "sched_List (snd (Register lib job s)) = sched_List s"
    "entries lib (sch_cron (snd (Register lib job s))) = entries lib (sch_cron s)"
    by (simp_all add: Register_def Let_def sched_List_def)
qed

text \<open>
  Property C33. Whatever was registered, removed, started, stopped and observed, in whatever order: no two listed jobs share an ID, each listed job is
  the job of exactly one entry of the cron library and no entry has another job, so every listed job fires by its own schedule, once, and
  a removed one does not fire. Registering an ID that is listed changes nothing; registering a job whose schedule does not parse returns
  the library's error and leaves the list and the entries as they were.\<close>

theorem scheduled_jobs_have_one_entry:
  assumes "cron_contract lib" and "entries lib c = Map.empty" and "s = fold (sched_exec lib) ops (sched_New c)"
  shows "distinct (map sj_ID (sched_List s)) \<and> ran (entries lib (sch_cron s)) = set (sched_List s) \<and>
    (\<forall>job \<in> set (sched_List s). \<exists>!e. entries lib (sch_cron s) e = Some job) \<and>
    (\<forall>job. sj_ID job \<in> set (map sj_ID (sched_List s)) \<longrightarrow> Register lib job s = (None, s)) \<and>
    (\<forall>job. fst (Register lib job s) \<noteq> None \<longrightarrow> sched_List (snd (Register lib job s)) = sched_List s \<and>
       entries lib (sch_cron (snd (Register lib job s))) = entries lib (sch_cron s))"
proof -
  have ok: "sched_ok lib s" using assms by (simp add: sched_ok_fold sched_ok_New)
  have "\<exists>!e. entries lib (sch_cron s) e = Some job" if "job \<in> set (sched_List s)" for job
  proof -
    from that sched_ok_entries(1) [OF ok] obtain e where "entries lib (sch_cron s) e = Some job" by (force simp: ran_def)
    then show ?thesis using sched_ok_entries(2) [OF ok] by blast
  qed
  moreover have "Register lib job s = (None, s)" if "sj_ID job \<in> set (map sj_ID (sched_List s))" for job
  proof -
    from that sched_ok_List [OF ok] have "sj_ID job \<in> fst ` set (sch_jobs s)" by simp
    then have "map_of (sch_jobs s) (sj_ID job) \<noteq> None" by (simp only: map_of_eq_None_iff not_not)
    then show ?thesis by (simp add: Register_def)
  qed
  ultimately show ?thesis
    using sched_ok_List [OF ok] sched_ok_parts(1) [OF ok] sched_ok_entries(1) [OF ok] Register_failed [OF assms(1) ok] by metis
qed

text \<open>A cron library that numbers its entries upwards and takes every schedule but the empty one.\<close>

definition next_entry :: "(entry_id \<times> ScheduledJob) list \<Rightarrow> entry_id" where
  "next_entry c = Suc (sum_list (map fst c))"

definition counting_cron :: "(entry_id \<times> ScheduledJob) list cron_lib" where
  "counting_cron = \<lparr>AddFunc = (\<lambda>spec job c. if spec = [] then (Inl (Errorf ''empty spec string''), c) else (Inr (next_entry c), (next_entry c, job) # c)),
     cron_Remove = AList.delete, cron_Start = id, cron_Stop = id, entries = map_of\<rparr>"

lemma next_entry_fresh: "map_of c (next_entry c) = None"
proof -
  have "i \<le> sum_list (map fst c)" if "i \<in> fst ` set c" for i
    using that member_le_sum_list [of i "map fst c"] by simp
  then show ?thesis by (force simp: next_entry_def map_of_eq_None_iff)
qed

lemma counting_cron_contract: "cron_contract counting_cron"
  by (auto simp: cron_contract_def counting_cron_def next_entry_fresh delete_conv' domIff)

definition report_job :: Job where
  "report_job = \<lparr>j_kind = ''Report'', j_payload = Inr [], j_Queue = None, j_Delay = None, j_MaxAttempts = None, j_Tags = None, j_BatchID = None, j_Timeout = None\<rparr>"

definition nightly :: ScheduledJob where
  "nightly = \<lparr>sj_ID = ''nightly'', sj_Schedule = ''20 4 * * *'', sj_Job = report_job, sj_Queue = ''reports'', sj_Opts = []\<rparr>"

lemma scheduled_jobs_have_one_entry_witness:
  "\<exists>s :: ((entry_id \<times> ScheduledJob) list, nat) scheduler.
     s = fold (sched_exec counting_cron) [OpRegister nightly, OpStart False, OpRegister (nightly\<lparr>sj_Schedule := []\<rparr>)] (sched_New []) \<and>
     sched_List s = [nightly] \<and> ran (entries counting_cron (sch_cron s)) = {nightly}"
proof -
  define s :: "((entry_id \<times> ScheduledJob) list, nat) scheduler"
    where "s = fold (sched_exec counting_cron) [OpRegister nightly, OpStart False, OpRegister (nightly\<lparr>sj_Schedule := []\<rparr>)] (sched_New [])"
  have "sched_List s = [nightly]"
    by (simp add: s_def Register_def sched_Start_def sched_New_def sched_List_def counting_cron_def nightly_def next_entry_def)
  moreover from scheduled_jobs_have_one_entry [OF counting_cron_contract _ s_def]
  have "ran (entries counting_cron (sch_cron s)) = set (sched_List s)" by (simp add: counting_cron_def)
  ultimately show ?thesis using s_def by auto
qed


section \<open>A firing\<close>

lemma fold_deliver_log:
  assumes "\<forall>i < length listeners. \<forall>run obs. snd ((listeners ! i) run obs) = obs @ [(n + i, run)]"
  shows "fold (deliver run) listeners obs = obs @ map (\<lambda>i. (n + i, run)) [0..<length listeners]"
  using assms
proof (induction listeners arbitrary: n obs)
  case (Cons l ls)
  have l: "deliver run l obs = obs @ [(n, run)]"
    using Cons.prems [rule_format, of 0 run obs] by (auto simp: deliver_def split: prod.split outcome.split)
  have "\<forall>i < length ls. \<forall>run obs. snd ((ls ! i) run obs) = obs @ [(Suc n + i, run)]"
    using Cons.prems by (metis Suc_mono add_Suc_shift length_Cons nth_Cons_Suc)
  from Cons.IH [OF this] l show ?case
    by (simp add: upt_conv_Cons map_Suc_upt [symmetric] del: upt_Suc)
qed simp

text \<open>
  When an entry fires, its job is dispatched once, with the entry's queue as the first option and the registered options after it, under the
  scheduler's context; then every listener that observes is told of this one run, in the order of registration, with the error the dispatch
  gave, whether or not the job was enqueued and whatever listeners before it panic.\<close>

theorem every_listener_hears_of_a_run:
  assumes "entries lib (sch_cron s) e = Some job"
    and "\<forall>i < length (sch_listeners s). \<forall>run obs. snd ((sch_listeners s ! i) run obs) = obs @ [(i, run)]"
  shows "let ended = (sch_ctx s = Some True);
             sent = Dispatch (Enqueue ended) mws cfg (f_build env) (sj_Job job) (OnQueue (sj_Queue job) # sj_Opts job) d
         in \<exists>run. fire lib Enqueue mws cfg env e s (d, obs) = (snd sent, obs @ map (\<lambda>i. (i, run)) [0..<length (sch_listeners s)]) \<and>
              run_ID run = sj_ID job \<and> run_Schedule run = sj_Schedule job \<and> run_Queue run = sj_Queue job \<and>
              run_At run = f_started env \<and> (case fst sent of Inl err \<Rightarrow> run_Err run = Some err | Inr _ \<Rightarrow> run_Err run = None)"
proof -
  note log = fold_deliver_log [of "sch_listeners s" 0, simplified, OF assms(2)]
  have ended: "(case sch_ctx s of None \<Rightarrow> False | Some b \<Rightarrow> b) = (sch_ctx s = Some True)" by (simp split: option.split)
  obtain res d' where sent: "Dispatch (Enqueue (sch_ctx s = Some True)) mws cfg (f_build env) (sj_Job job) (OnQueue (sj_Queue job) # sj_Opts job) d = (res, d')"
    by (cases "Dispatch (Enqueue (sch_ctx s = Some True)) mws cfg (f_build env) (sj_Job job) (OnQueue (sj_Queue job) # sj_Opts job) d")
  define run where "run = \<lparr>run_ID = sj_ID job, run_Schedule = sj_Schedule job, run_Queue = sj_Queue job, run_Job = sj_Job job,
    run_At = f_started env, run_Duration = f_took env, run_Err = (case res of Inl e \<Rightarrow> Some e | Inr _ \<Rightarrow> None)\<rparr>"
  have "fire lib Enqueue mws cfg env e s (d, obs) = (d', obs @ map (\<lambda>i. (i, run)) [0..<length (sch_listeners s)])"
    using assms(1) sent by (simp add: fire_def dispatchJob_def Let_def ended log run_def)
  then show ?thesis using sent by (auto simp: Let_def run_def split: sum.split)
qed

definition logging_listener :: "nat \<Rightarrow> bool \<Rightarrow> (nat \<times> Run) list Listener" where
  "logging_listener i panics run obs = (if panics then Panic ''boom'' else Ret (), obs @ [(i, run)])"

lemma every_listener_hears_of_a_run_witness:
  "\<exists>run. snd (fire counting_cron (\<lambda>ended row d. if ended then ((Some ErrJobNotFound, row), d) else ((None, row), d)) [] (DefaultConfig ''n'')
        \<lparr>f_build = \<lparr>b_now = (\<lambda>_. 0), b_uuid = ''u''\<rparr>, f_started = 5, f_took = 1\<rparr> 1
        (snd (sched_Stop counting_cron None (sched_Start counting_cron False
           \<lparr>sch_jobs = [(''nightly'', nightly)], sch_cron = [(1, nightly)], sch_entryIDs = [(''nightly'', 1)], sch_running = False, sch_ctx = None,
            sch_listeners = [logging_listener 0 True, logging_listener 1 False]\<rparr>))) ((), [])) = [(0, run), (1, run)] \<and>
     run_Err run = Some ErrJobNotFound"
proof -
  define s where "s = snd (sched_Stop counting_cron None (sched_Start counting_cron False
     \<lparr>sch_jobs = [(''nightly'', nightly)], sch_cron = [(1, nightly)], sch_entryIDs = [(''nightly'', 1)], sch_running = False, sch_ctx = None,
      sch_listeners = [logging_listener 0 True, logging_listener 1 False]\<rparr>))"
  have s: "sch_ctx s = Some True" "sch_listeners s = [logging_listener 0 True, logging_listener 1 False]"
    "entries counting_cron (sch_cron s) 1 = Some nightly"
    by (simp_all add: s_def sched_Stop_def sched_Start_def counting_cron_def)
  have "\<forall>i < length (sch_listeners s). \<forall>run obs. snd ((sch_listeners s ! i) run obs) = obs @ [(i, run)]"
    by (auto simp: s logging_listener_def less_Suc_eq)
  from every_listener_hears_of_a_run [OF s(3) this,
      of "\<lambda>ended row d. if ended then ((Some ErrJobNotFound, row), d) else ((None, row), d)" "[]" "DefaultConfig ''n''"
         "\<lparr>f_build = \<lparr>b_now = (\<lambda>_. 0), b_uuid = ''u''\<rparr>, f_started = 5, f_took = 1\<rparr>" "()" "[]"]
  show ?thesis
    unfolding s_def [symmetric]
    by (auto simp: Let_def s Dispatch_def buildJobRow_def nightly_def report_job_def enqueue_def send_one_def)
qed


section \<open>Stop\<close>

text \<open>
  Property C34. \<^verbatim>\<open>Stop\<close> waits for the fired entries while it holds the mutex each of them still has to take. So once it waits and an entry that has fired has
  not yet taken the mutex, in every continuation that entry goes on wanting it and \<^verbatim>\<open>Stop\<close> goes on waiting, until the context given to \<^verbatim>\<open>Stop\<close>
  ends; it never returns nil, and with a context that does not end it never returns.\<close>

theorem stop_waits_for_its_own_mutex:
  assumes "(sched_step e)\<^sup>*\<^sup>* sched_conc_New c" and "stopping c = StopWaiting" and "WantsLock \<in> set (fires c)"
    and "(sched_step e)\<^sup>*\<^sup>* c c'"
  shows "stopping c' = StopWaiting \<and> WantsLock \<in> set (fires c') \<and> mu_held c' \<or> ctx_done c' \<and> stopping c' = StopReturned (Some e)"
proof -
  have "mutex_ok sched_conc_New" by (simp add: mutex_ok_def sched_conc_New_def)
  with assms(1) have "mutex_ok c" by (rule mutex_ok_reach)
  with assms(2,3) have "stop_blocked e c" by (simp add: stop_blocked_def)
  with assms(4) have "stop_blocked e c'" by (rule stop_blocked_reach)
  then show ?thesis by (auto simp: stop_blocked_def stop_waiting_holds)
qed

lemma stop_waits_for_its_own_mutex_witness:
  "\<exists>c. (sched_step ErrJobTimedOut)\<^sup>*\<^sup>* sched_conc_New c \<and> stopping c = StopWaiting \<and> WantsLock \<in> set (fires c) \<and>
     (\<forall>c'. (sched_step ErrJobTimedOut)\<^sup>*\<^sup>* c c' \<longrightarrow> \<not> ctx_done c' \<longrightarrow> stopping c' = StopWaiting)"
proof -
  define c1 where "c1 = sched_conc_New\<lparr>fires := [WantsLock]\<rparr>"
  define c2 where "c2 = c1\<lparr>stopping := StopWaiting, mu_held := True\<rparr>"
  have "sched_step ErrJobTimedOut sched_conc_New c1"
    using sched_step.entry_fires [of sched_conc_New ErrJobTimedOut] by (simp add: c1_def sched_conc_New_def)
  moreover have "sched_step ErrJobTimedOut c1 c2"
    unfolding c2_def by (rule sched_step.stop_locks) (simp_all add: c1_def sched_conc_New_def)
  ultimately have reach: "(sched_step ErrJobTimedOut)\<^sup>*\<^sup>* sched_conc_New c2" by (meson converse_rtranclp_into_rtranclp rtranclp.rtrancl_refl)
  have c2: "stopping c2 = StopWaiting" "WantsLock \<in> set (fires c2)" by (simp_all add: c2_def c1_def)
  from stop_waits_for_its_own_mutex [OF reach c2] reach c2 show ?thesis by blast
qed

end
