(* ===== verification/Sql_Schema.thy ===== *)
theory Sql_Schema
  imports Sql_Driver
begin

text \<open>
  What the SQL driver sets up before it runs a job: the dialects of \<^verbatim>\<open>driver/sqldriver/dialect.go\<close>, the names of its tables, the statements of
  \<^verbatim>\<open>Migrate\<close> and their effect on the schema of a database, whatever tables and indexes it has already and whichever statement fails.
\<close>


section \<open>Dialects\<close>

text \<open>\<^verbatim>\<open>NowValue\<close>: a fragment of SQL, or, when it is empty, the instant to pass.\<close>

record NowValue =
  nv_SQL :: string
  nv_Value :: "time option"

definition Now :: "time \<Rightarrow> Dialect \<Rightarrow> NowValue" where
  "Now clock d = (case d of
     Postgres \<Rightarrow> \<lparr>nv_SQL = ''NOW()'', nv_Value = None\<rparr>
   | MySQL \<Rightarrow> \<lparr>nv_SQL = ''NOW()'', nv_Value = None\<rparr>
   | SQLite \<Rightarrow> \<lparr>nv_SQL = [], nv_Value = Some clock\<rparr>)"

definition ILike :: "Dialect \<Rightarrow> string" where
  "ILike d = (case d of Postgres \<Rightarrow> ''ILIKE'' | MySQL \<Rightarrow> ''LIKE'' | SQLite \<Rightarrow> ''LIKE'')"

definition Placeholder :: "Dialect \<Rightarrow> nat \<Rightarrow> string" where
  "Placeholder d n = (case d of Postgres \<Rightarrow> ''$'' @ decimal n | MySQL \<Rightarrow> ''?'' | SQLite \<Rightarrow> ''?'')"

definition SupportsSkipLocked :: "Dialect \<Rightarrow> bool" where
  "SupportsSkipLocked d = (case d of Postgres \<Rightarrow> True | MySQL \<Rightarrow> True | SQLite \<Rightarrow> False)"

definition ArrayType :: "Dialect \<Rightarrow> string" where
  "ArrayType d = (case d of Postgres \<Rightarrow> ''TEXT[]'' | MySQL \<Rightarrow> ''JSON'' | SQLite \<Rightarrow> ''TEXT'')"

text \<open>
  \<^verbatim>\<open>ClaimQuery\<close>: what its statement selects (the states, whether the attempts left matter, whether rows locked elsewhere are
  skipped) and whether it also updates what it selects. All three order by priority, scheduled time and id.
\<close>

record claim_query =
  cq_states :: "State list"
  cq_attempts_left :: bool
  cq_skip_locked :: bool
  cq_updates :: bool

definition ClaimQuery :: "Dialect \<Rightarrow> claim_query" where
  "ClaimQuery d = (case d of
     Postgres \<Rightarrow> \<lparr>cq_states = [StateAvailable], cq_attempts_left = False, cq_skip_locked = True, cq_updates = True\<rparr>
   | MySQL \<Rightarrow> \<lparr>cq_states = [StateAvailable, StateScheduled, StateRetryable], cq_attempts_left = True, cq_skip_locked = True, cq_updates = False\<rparr>
   | SQLite \<Rightarrow> \<lparr>cq_states = [StateAvailable], cq_attempts_left = False, cq_skip_locked = False, cq_updates = True\<rparr>)"

definition selects :: "claim_query \<Rightarrow> (job_id \<Rightarrow> bool) \<Rightarrow> queue_name \<Rightarrow> time \<Rightarrow> JobRow \<Rightarrow> bool" where
  "selects cq locked_row queue now r \<longleftrightarrow>
     Queue r = queue \<and> State r \<in> set (cq_states cq) \<and> ScheduledAt r \<le> now \<and>
     (cq_attempts_left cq \<longrightarrow> Attempt r < MaxAttempts r) \<and> \<not> (cq_skip_locked cq \<and> locked_row (ID r))"

definition ClaimQuery_ids :: "Dialect \<Rightarrow> (job_id \<Rightarrow> bool) \<Rightarrow> queue_name \<Rightarrow> time \<Rightarrow> int \<Rightarrow> JobRow list \<Rightarrow> job_id list" where
  "ClaimQuery_ids d locked_row queue now mx t =
     map ID (limit mx (sort_key claim_order (filter (selects (ClaimQuery d) locked_row queue now) t)))"

text \<open>\<^verbatim>\<open>claimMySQL\<close> runs the statement of its dialect, and that selects what the model's claim selects.\<close>

lemma claimMySQL_runs_ClaimQuery: "ClaimQuery_ids MySQL lk queue now mx t = claim_ids lk queue now mx t"
proof -
  have "selects (ClaimQuery MySQL) lk queue now = (\<lambda>r. sql_eligible queue now r \<and> \<not> lk (ID r))"
    by (auto simp: fun_eq_iff selects_def ClaimQuery_def sql_eligible_def)
  then show ?thesis by (simp add: ClaimQuery_ids_def claim_ids_def)
qed

text \<open>
  The other two statements are not run by \<^verbatim>\<open>Claim\<close>. They would never take up a job whose retry was scheduled, and they would run a job past its limit.
\<close>

lemma unused_ClaimQuery_differs:
  assumes "d \<noteq> MySQL"
  shows "State r = StateRetryable \<or> State r = StateScheduled \<Longrightarrow> \<not> selects (ClaimQuery d) lk queue now r"
    and "State r = StateAvailable \<Longrightarrow> Queue r = queue \<Longrightarrow> ScheduledAt r \<le> now \<Longrightarrow> \<not> lk (ID r) \<Longrightarrow> selects (ClaimQuery d) lk queue now r"
  using assms by (cases d; auto simp: selects_def ClaimQuery_def)+


section \<open>Names\<close>

definition table :: "string \<Rightarrow> string \<Rightarrow> string" where
  "table prefix name = prefix @ name"

definition is_identifier_char :: "char \<Rightarrow> bool" where
  "is_identifier_char c \<longleftrightarrow> (let n = of_char c :: nat in
     97 \<le> n \<and> n \<le> 122 \<or> 65 \<le> n \<and> n \<le> 90 \<or> 48 \<le> n \<and> n \<le> 57 \<or> n = 95)"

definition validIdentifierPrefix :: "string \<Rightarrow> bool" where
  "validIdentifierPrefix prefix = list_all is_identifier_char prefix"

definition index_name :: "string \<Rightarrow> string \<Rightarrow> string" where
  "index_name prefix name = ''idx_'' @ prefix @ ''jobs_'' @ name"

definition dialectFor :: "string \<Rightarrow> Dialect" where
  "dialectFor driverName =
     (if driverName = ''postgres'' \<or> driverName = ''pgx'' then Postgres
      else if driverName = ''mysql'' \<or> driverName = ''mariadb'' then MySQL
      else if driverName = ''sqlite3'' \<or> driverName = ''sqlite'' \<or> driverName = ''modernc.org/sqlite'' then SQLite
      else Postgres)"

definition placeholders_from :: "(nat \<Rightarrow> string) \<Rightarrow> nat \<Rightarrow> nat \<Rightarrow> string" where
  "placeholders_from ph start n = join '','' (map (\<lambda>i. ph (start + i)) [0..<n])"

definition placeholdersJobIDs :: "job_id list \<Rightarrow> (nat \<Rightarrow> string) \<Rightarrow> string" where
  "placeholdersJobIDs ids ph = join '','' (map (\<lambda>i. ph (i + 1)) [0..<length ids])"

definition durationMillisSQL :: "Dialect \<Rightarrow> string \<Rightarrow> string \<Rightarrow> string" where
  "durationMillisSQL d start_col end_col = (case d of
     Postgres \<Rightarrow> ''EXTRACT(EPOCH FROM ('' @ end_col @ '' - '' @ start_col @ '')) * 1000''
   | MySQL \<Rightarrow> ''TIMESTAMPDIFF(MICROSECOND, '' @ start_col @ '', '' @ end_col @ '') / 1000''
   | SQLite \<Rightarrow> ''(julianday('' @ end_col @ '') - julianday('' @ start_col @ '')) * 86400000'')"


section \<open>The schema and its statements\<close>

text \<open>
  A column as \<^verbatim>\<open>CREATE TABLE\<close> declares it. The type text of an id carries its key and its counter, as in the code.
\<close>

record column_def =
  cd_name :: string
  cd_type :: string
  cd_not_null :: bool
  cd_default :: "string option"
  cd_key :: string

definition col :: "string \<Rightarrow> string \<Rightarrow> column_def" where
  "col name ty = \<lparr>cd_name = name, cd_type = ty, cd_not_null = False, cd_default = None, cd_key = []\<rparr>"

definition required :: "string \<Rightarrow> string \<Rightarrow> column_def" where
  "required name ty = (col name ty)\<lparr>cd_not_null := True\<rparr>"

definition defaulted :: "string \<Rightarrow> string \<Rightarrow> string \<Rightarrow> column_def" where
  "defaulted name ty v = (required name ty)\<lparr>cd_default := Some v\<rparr>"

definition keyed :: "string \<Rightarrow> column_def \<Rightarrow> column_def" where
  "keyed k c = c\<lparr>cd_key := k\<rparr>"

datatype ddl =
    CreateTable string "column_def list"
  | CreateIndex bool string string "string list"

definition keyType :: "Dialect \<Rightarrow> string" where
  "keyType d = (if d = MySQL then ''VARCHAR(255)'' else ''TEXT'')"

definition idType :: "Dialect \<Rightarrow> string" where
  "idType d = (if d = SQLite then ''INTEGER PRIMARY KEY AUTOINCREMENT''
     else if d = MySQL then ''BIGINT UNSIGNED NOT NULL AUTO_INCREMENT PRIMARY KEY'' else ''BIGSERIAL PRIMARY KEY'')"

definition payloadType :: "Dialect \<Rightarrow> string" where
  "payloadType d = (if d = SQLite then ''BLOB'' else if d = MySQL then ''LONGBLOB'' else ''BYTEA'')"

definition jobs_table :: "Dialect \<Rightarrow> column_def list" where
  "jobs_table d =
     [col ''id'' (idType d), keyed ''UNIQUE'' (required ''uuid'' (keyType d)), defaulted ''queue'' (keyType d) ''default'',
      required ''kind'' (keyType d), required ''payload'' (payloadType d), defaulted ''state'' (keyType d) ''available'',
      defaulted ''priority'' ''INTEGER'' ''0'', defaulted ''attempt'' ''INTEGER'' ''0'', defaulted ''max_attempts'' ''INTEGER'' ''3'',
      required ''attempted_by'' (ArrayType d), col ''attempted_at'' ''TIMESTAMP'', required ''errors'' ''TEXT'',
      col ''output'' (payloadType d), required ''tags'' (ArrayType d),
      defaulted ''scheduled_at'' ''TIMESTAMP'' ''CURRENT_TIMESTAMP'', defaulted ''created_at'' ''TIMESTAMP'' ''CURRENT_TIMESTAMP'',
      col ''started_at'' ''TIMESTAMP'', col ''completed_at'' ''TIMESTAMP'', col ''finalized_at'' ''TIMESTAMP'',
      col ''node_id'' (keyType d), col ''batch_id'' (keyType d), defaulted ''timeout'' ''INTEGER'' ''0'', required ''metadata'' ''TEXT'',
      col ''unique_key'' (keyType d)]"

definition leader_table :: "Dialect \<Rightarrow> column_def list" where
  "leader_table d =
     [keyed ''PRIMARY KEY CHECK (id = 1)'' (col ''id'' ''INTEGER''), defaulted ''node_id'' (keyType d) [], defaulted ''host'' (keyType d) [],
      defaulted ''port'' ''INTEGER'' ''0'', defaulted ''status'' (keyType d) ''inactive'',
      defaulted ''started_at'' ''TIMESTAMP'' ''CURRENT_TIMESTAMP'', defaulted ''last_heartbeat'' ''TIMESTAMP'' ''CURRENT_TIMESTAMP'',
      defaulted ''version'' (keyType d) ''1.0.0'']"

definition nodes_table :: "Dialect \<Rightarrow> column_def list" where
  "nodes_table d =
     [keyed ''PRIMARY KEY'' (col ''node_id'' (keyType d)), required ''host'' (keyType d), defaulted ''port'' ''INTEGER'' ''0'',
      required ''queues'' (ArrayType d), defaulted ''workers'' ''INTEGER'' ''0'', defaulted ''status'' (keyType d) ''active'',
      defaulted ''started_at'' ''TIMESTAMP'' ''CURRENT_TIMESTAMP'', defaulted ''last_heartbeat'' ''TIMESTAMP'' ''CURRENT_TIMESTAMP'',
      defaulted ''version'' (keyType d) ''1.0.0'']"

definition failed_jobs_table :: "Dialect \<Rightarrow> column_def list" where
  "failed_jobs_table d =
     [col ''id'' (idType d), required ''uuid'' (keyType d), required ''queue'' (keyType d), required ''kind'' (keyType d),
      required ''payload'' (payloadType d), required ''attempt'' ''INTEGER'', required ''max_attempts'' ''INTEGER'', required ''errors'' ''TEXT'',
      defaulted ''failed_at'' ''TIMESTAMP'' ''CURRENT_TIMESTAMP'', required ''tags'' (ArrayType d)]"

definition locks_table :: "Dialect \<Rightarrow> column_def list" where
  "locks_table d = [keyed ''PRIMARY KEY'' (col ''lock_key'' (keyType d)), required ''node_id'' (keyType d), required ''expires_at'' ''TIMESTAMP'']"

definition migrationTableStatements :: "Dialect \<Rightarrow> string \<Rightarrow> (string \<times> column_def list) list" where
  "migrationTableStatements d prefix =
     [(table prefix ''jobs'', jobs_table d), (table prefix ''leader'', leader_table d), (table prefix ''nodes'', nodes_table d),
      (table prefix ''failed_jobs'', failed_jobs_table d), (table prefix ''locks'', locks_table d)]"

definition migration_indexes :: "(string \<times> string list) list" where
  "migration_indexes =
     [(''queue_state'', [''queue'', ''state'', ''scheduled_at'', ''priority DESC'', ''id'']), (''state'', [''state'']), (''kind'', [''kind'']),
      (''batch_id'', [''batch_id'']), (''node_id'', [''node_id'']), (''scheduled_at'', [''scheduled_at'']), (''unique_key'', [''unique_key''])]"


text \<open>The columns the driver's statements name: \<^verbatim>\<open>jobColumns\<close> and the lists of its \<^verbatim>\<open>INSERT\<close> statements.\<close>

definition jobColumns :: "string list" where
  "jobColumns = [''id'', ''uuid'', ''queue'', ''kind'', ''payload'', ''state'', ''priority'', ''attempt'', ''max_attempts'',
     ''attempted_by'', ''attempted_at'', ''errors'', ''output'', ''tags'', ''scheduled_at'', ''created_at'',
     ''started_at'', ''completed_at'', ''finalized_at'', ''node_id'', ''batch_id'', ''timeout'', ''metadata'', ''unique_key'']"

definition jobInsertColumns :: "string list" where
  "jobInsertColumns = [''uuid'', ''queue'', ''kind'', ''payload'', ''state'', ''priority'', ''attempt'', ''max_attempts'',
     ''attempted_by'', ''errors'', ''tags'', ''scheduled_at'', ''created_at'', ''batch_id'', ''timeout'', ''metadata'', ''unique_key'']"

definition failedInsertColumns :: "string list" where
  "failedInsertColumns = [''uuid'', ''queue'', ''kind'', ''payload'', ''attempt'', ''max_attempts'', ''errors'', ''tags'']"

definition nodeInsertColumns :: "string list" where
  "nodeInsertColumns = [''node_id'', ''host'', ''port'', ''queues'', ''workers'', ''status'', ''started_at'', ''last_heartbeat'', ''version'']"

definition leaderInsertColumns :: "string list" where
  "leaderInsertColumns = [''id'', ''node_id'', ''host'', ''port'', ''status'', ''started_at'', ''last_heartbeat'', ''version'']"

definition lockInsertColumns :: "string list" where
  "lockInsertColumns = [''lock_key'', ''node_id'', ''expires_at'']"


section \<open>Running the statements\<close>

text \<open>
  The tables and indexes a database has. \<^verbatim>\<open>CREATE TABLE IF NOT EXISTS\<close> leaves a table of that name as it is, whatever its columns are. An index
  needs its table and the columns it names; a second index of a name is an error unless the statement says \<^verbatim>\<open>IF NOT EXISTS\<close>; the names of
  indexes are those of a table on MySQL and of the database elsewhere.
\<close>

record schema =
  sch_tables :: "(string \<times> column_def list) list"
  sch_indexes :: "(string \<times> string \<times> string list) list"

definition has_index :: "Dialect \<Rightarrow> string \<Rightarrow> string \<Rightarrow> schema \<Rightarrow> bool" where
  "has_index d tbl name s \<longleftrightarrow> (\<exists>(n, t, cs) \<in> set (sch_indexes s). n = name \<and> (d = MySQL \<longrightarrow> t = tbl))"

definition index_column :: "string \<Rightarrow> string" where
  "index_column c = takeWhile (\<lambda>x. x \<noteq> CHR '' '') c"

fun exec_ddl :: "Dialect \<Rightarrow> ddl \<Rightarrow> schema \<Rightarrow> error + schema" where
  "exec_ddl d (CreateTable name cols) s =
     (if name \<in> fst ` set (sch_tables s) then Inr s else Inr (s\<lparr>sch_tables := sch_tables s @ [(name, cols)]\<rparr>))"
| "exec_ddl d (CreateIndex if_not_exists name tbl cols) s =
     (case map_of (sch_tables s) tbl of
        None \<Rightarrow> Inl (Errorf (''no such table: '' @ tbl))
      | Some declared \<Rightarrow>
          if has_index d tbl name s then (if if_not_exists then Inr s else Inl (Errorf (''index exists: '' @ name)))
          else if list_all (\<lambda>c. index_column c \<in> cd_name ` set declared) cols
          then Inr (s\<lparr>sch_indexes := sch_indexes s @ [(name, tbl, cols)]\<rparr>)
          else Inl (Errorf (''no such column in '' @ tbl)))"

text \<open>The loops of \<^verbatim>\<open>Migrate\<close>, from database call \<open>k\<close> on, of which \<open>flt\<close> says which fail.\<close>

fun create_tables :: "Dialect \<Rightarrow> (nat \<Rightarrow> error option) \<Rightarrow> nat \<Rightarrow> (string \<times> column_def list) list \<Rightarrow> schema \<Rightarrow> error option \<times> schema" where
  "create_tables d flt k [] s = (None, s)"
| "create_tables d flt k ((name, cols) # rest) s =
     (case flt k of
        Some e \<Rightarrow> (Some (Wrapf ''migrate sqldriver'' e), s)
      | None \<Rightarrow>
          (case exec_ddl d (CreateTable name cols) s of
             Inl e \<Rightarrow> (Some (Wrapf ''migrate sqldriver'' e), s)
           | Inr s' \<Rightarrow> create_tables d flt (k + 1) rest s'))"

fun create_indexes :: "Dialect \<Rightarrow> string \<Rightarrow> (nat \<Rightarrow> error option) \<Rightarrow> nat \<Rightarrow> (string \<times> string list) list \<Rightarrow> schema \<Rightarrow> (error option \<times> nat) \<times> schema" where
  "create_indexes d prefix flt k [] s = ((None, k), s)"
| "create_indexes d prefix flt k ((n, cols) # rest) s =
     (let name = index_name prefix n; tbl = table prefix ''jobs'' in
      case (if d = MySQL then flt k else None) of
        Some e \<Rightarrow> ((Some e, k), s)
      | None \<Rightarrow>
          if d = MySQL \<and> has_index d tbl name s then create_indexes d prefix flt (k + 1) rest s
          else let k' = (if d = MySQL then k + 1 else k) in
            (case flt k' of
               Some e \<Rightarrow> ((Some (Wrapf (''create index '' @ name) e), k'), s)
             | None \<Rightarrow>
                 (case exec_ddl d (CreateIndex (d \<noteq> MySQL) name tbl cols) s of
                    Inl e \<Rightarrow> ((Some (Wrapf (''create index '' @ name) e), k'), s)
                  | Inr s' \<Rightarrow> create_indexes d prefix flt (k' + 1) rest s')))"

text \<open>\<^verbatim>\<open>Migrate\<close>. SQLite's \<^verbatim>\<open>PRAGMA busy_timeout\<close> sets the connection, not the schema.\<close>

definition Migrate :: "Dialect \<Rightarrow> string \<Rightarrow> (nat \<Rightarrow> error option) \<Rightarrow> schema \<Rightarrow> error option \<times> schema" where
  "Migrate d prefix flt s =
     (case create_tables d flt 0 (migrationTableStatements d prefix) s of
        (Some e, s1) \<Rightarrow> (Some e, s1)
      | (None, s1) \<Rightarrow>
          (case create_indexes d prefix flt 5 migration_indexes s1 of
             ((Some e, _), s2) \<Rightarrow> (Some e, s2)
           | ((None, k), s2) \<Rightarrow> if d = SQLite then (flt k, s2) else (None, s2)))"

end
