(* ===== verification/Schema_Properties.thy ===== *)
theory Schema_Properties
  imports Sql_Schema
begin

text \<open>
  What \<^verbatim>\<open>Migrate\<close> guarantees: it can be repeated and resumed after any failure, the tables it declares have the columns the driver's statements name,
  and which prefixes keep two queues of one database apart.
\<close>


section \<open>Repeating and resuming a migration\<close>

text \<open>One table, and one index, of a run in which no call fails.\<close>

definition ensure_table :: "string \<times> column_def list \<Rightarrow> schema \<Rightarrow> schema" where
  "ensure_table x s = (if fst x \<in> fst ` set (sch_tables s) then s else s\<lparr>sch_tables := sch_tables s @ [x]\<rparr>)"

definition index_step :: "Dialect \<Rightarrow> string \<Rightarrow> string \<times> string list \<Rightarrow> schema \<Rightarrow> schema option" where
  "index_step d prefix x s =
     (let name = index_name prefix (fst x); tbl = table prefix ''jobs'' in
      if d = MySQL \<and> has_index d tbl name s then Some s
      else (case exec_ddl d (CreateIndex (d \<noteq> MySQL) name tbl (snd x)) s of Inl _ \<Rightarrow> None | Inr s' \<Rightarrow> Some s'))"

fun index_all :: "Dialect \<Rightarrow> string \<Rightarrow> (string \<times> string list) list \<Rightarrow> schema \<Rightarrow> schema option" where
  "index_all d prefix [] s = Some s"
| "index_all d prefix (x # xs) s = (case index_step d prefix x s of None \<Rightarrow> None | Some s' \<Rightarrow> index_all d prefix xs s')"

definition settled :: "Dialect \<Rightarrow> string \<Rightarrow> schema \<Rightarrow> string \<times> string list \<Rightarrow> bool" where
  "settled d prefix s x \<longleftrightarrow> has_index d (table prefix ''jobs'') (index_name prefix (fst x)) s \<and>
     (d = MySQL \<or> map_of (sch_tables s) (table prefix ''jobs'') \<noteq> None)"

lemma ensure_table_present: "fst x \<in> fst ` set (sch_tables s) \<Longrightarrow> ensure_table x s = s"
  by (simp add: ensure_table_def)

lemma ensure_table_names: "fst ` set (sch_tables (ensure_table x s)) = insert (fst x) (fst ` set (sch_tables s))"
  by (auto simp: ensure_table_def)

lemma ensure_tables_names: "fst ` set (sch_tables (fold ensure_table xs s)) = fst ` set xs \<union> fst ` set (sch_tables s)"
  by (induction xs arbitrary: s) (auto simp: ensure_table_names)

lemma ensure_tables_present: "fst ` set xs \<subseteq> fst ` set (sch_tables s) \<Longrightarrow> fold ensure_table xs s = s"
  by (induction xs) (simp_all add: ensure_table_present)

lemma ensure_tables_resume: "fold ensure_table xs (fold ensure_table (take m xs) s) = fold ensure_table xs s"
proof -
  let ?s = "fold ensure_table (take m xs) s"
  have "fold ensure_table (take m xs @ drop m xs) ?s = fold ensure_table (drop m xs) (fold ensure_table (take m xs) ?s)"
    by (simp only: fold_append comp_def)
  also have "fold ensure_table (take m xs) ?s = ?s" by (rule ensure_tables_present) (auto simp: ensure_tables_names)
  also have "fold ensure_table (drop m xs) ?s = fold ensure_table (take m xs @ drop m xs) s" by (simp only: fold_append comp_def)
  finally show ?thesis by simp
qed

lemma create_tables_run:
  "create_tables d flt k xs s = (r, s1) \<Longrightarrow> \<exists>m. s1 = fold ensure_table (take m xs) s \<and> (r = None \<longrightarrow> take m xs = xs)"
proof (induction d flt k xs s rule: create_tables.induct)
  case (1 d flt k s)
  then show ?case by auto
next
  case (2 d flt k name cols rest s)
  show ?case
  proof (cases "flt k")
    case None
    have "exec_ddl d (CreateTable name cols) s = Inr (ensure_table (name, cols) s)" by (simp add: ensure_table_def)
    with 2 None obtain m where "s1 = fold ensure_table (take m rest) (ensure_table (name, cols) s)" "r = None \<longrightarrow> take m rest = rest"
      by fastforce
    then show ?thesis by (intro exI [of _ "Suc m"]) simp
  next
    case (Some e)
    with 2(2) show ?thesis by (intro exI [of _ 0]) auto
  qed
qed

lemma create_tables_calm: "create_tables d (\<lambda>_. None) k xs s = (None, fold ensure_table xs s)"
proof (induction xs arbitrary: k s)
  case (Cons x xs)
  have "exec_ddl d (CreateTable (fst x) (snd x)) s = Inr (ensure_table x s)" by (simp add: ensure_table_def)
  with Cons show ?case by (cases x) simp
qed simp

lemma has_index_append:
  "has_index d tbl n (s\<lparr>sch_indexes := sch_indexes s @ [(name, t, cs)]\<rparr>) \<longleftrightarrow> has_index d tbl n s \<or> n = name \<and> (d = MySQL \<longrightarrow> t = tbl)"
  by (auto simp: has_index_def)

lemma index_step_cases:
  assumes "index_step d prefix x s = Some s1"
  shows "settled d prefix s x \<and> s1 = s \<or>
    map_of (sch_tables s) (table prefix ''jobs'') \<noteq> None \<and>
    s1 = s\<lparr>sch_indexes := sch_indexes s @ [(index_name prefix (fst x), table prefix ''jobs'', snd x)]\<rparr>"
  using assms by (auto simp: index_step_def settled_def Let_def split: if_splits option.splits sum.splits)

lemma index_step_tables: "index_step d prefix x s = Some s1 \<Longrightarrow> sch_tables s1 = sch_tables s"
  by (auto dest: index_step_cases)

lemma index_step_settles: "index_step d prefix x s = Some s1 \<Longrightarrow> settled d prefix s1 x"
  by (drule index_step_cases) (auto simp: settled_def has_index_append)

lemma index_step_keeps: "index_step d prefix y s = Some s1 \<Longrightarrow> settled d prefix s x \<Longrightarrow> settled d prefix s1 x"
  by (drule index_step_cases) (auto simp: settled_def has_index_append)

lemma settled_step: "settled d prefix s x \<Longrightarrow> index_step d prefix x s = Some s"
  by (cases d) (auto simp: settled_def index_step_def split: option.splits)

lemma index_all_append:
  "index_all d prefix (xs @ ys) s = (case index_all d prefix xs s of None \<Rightarrow> None | Some s' \<Rightarrow> index_all d prefix ys s')"
  by (induction xs arbitrary: s) (auto split: option.splits)

lemma index_all_settled: "list_all (settled d prefix s) xs \<Longrightarrow> index_all d prefix xs s = Some s"
  by (induction xs) (auto simp: settled_step)

lemma index_all_keeps: "index_all d prefix xs s = Some s1 \<Longrightarrow> settled d prefix s y \<Longrightarrow> settled d prefix s1 y"
  by (induction xs arbitrary: s) (auto split: option.splits dest: index_step_keeps)

lemma index_all_settles: "index_all d prefix xs s = Some s1 \<Longrightarrow> list_all (settled d prefix s1) xs"
  by (induction xs arbitrary: s) (auto split: option.splits dest: index_step_settles index_all_keeps)

lemma index_all_tables: "index_all d prefix xs s = Some s1 \<Longrightarrow> sch_tables s1 = sch_tables s"
  by (induction xs arbitrary: s) (auto split: option.splits dest: index_step_tables)

lemma index_all_resume:
  assumes "index_all d prefix (take m xs) s = Some s1"
  shows "index_all d prefix xs s1 = index_all d prefix xs s"
proof -
  have "index_all d prefix (take m xs) s1 = Some s1" using index_all_settles [OF assms] by (rule index_all_settled)
  then have "index_all d prefix (take m xs @ drop m xs) s1 = index_all d prefix (take m xs @ drop m xs) s"
    using assms by (simp only: index_all_append)
  then show ?thesis by simp
qed

lemma create_indexes_Cons:
  assumes "create_indexes d prefix flt k (x # rest) s = ((r, k'), s1)"
  shows "r \<noteq> None \<and> s1 = s \<or> (\<exists>s' j. index_step d prefix x s = Some s' \<and> create_indexes d prefix flt j rest s' = ((r, k'), s1))"
proof (cases x)
  case (Pair n cols)
  with assms show ?thesis
    by (cases "d = MySQL"; cases "flt k"; cases "flt (k + 1)")
      (auto simp: index_step_def Let_def split: option.splits if_splits sum.splits)
qed

lemma create_indexes_run:
  "create_indexes d prefix flt k xs s = ((r, k'), s1) \<Longrightarrow>
   \<exists>m. index_all d prefix (take m xs) s = Some s1 \<and> (r = None \<longrightarrow> take m xs = xs)"
proof (induction xs arbitrary: k s)
  case (Cons x xs)
  from create_indexes_Cons [OF Cons.prems] show ?case
  proof
    assume "r \<noteq> None \<and> s1 = s"
    then show ?thesis by (intro exI [of _ 0]) simp
  next
    assume "\<exists>s' j. index_step d prefix x s = Some s' \<and> create_indexes d prefix flt j xs s' = ((r, k'), s1)"
    then obtain s' m where "index_step d prefix x s = Some s'" "index_all d prefix (take m xs) s' = Some s1" "r = None \<longrightarrow> take m xs = xs"
      using Cons.IH by blast
    then show ?thesis by (intro exI [of _ "Suc m"]) simp
  qed
qed simp

lemma create_indexes_calm:
  "index_all d prefix xs s = Some s' \<Longrightarrow> \<exists>j. create_indexes d prefix (\<lambda>_. None) k xs s = ((None, j), s')"
proof (induction xs arbitrary: k s)
  case (Cons x xs)
  then obtain s1 where step: "index_step d prefix x s = Some s1" and rest: "index_all d prefix xs s1 = Some s'"
    by (auto split: option.splits)
  from step have "\<exists>j. create_indexes d prefix (\<lambda>_. None) k (x # xs) s = create_indexes d prefix (\<lambda>_. None) j xs s1"
    by (cases x; cases "d = MySQL") (auto simp: index_step_def Let_def split: option.splits if_splits sum.splits)
  with Cons.IH [OF rest] show ?case by metis
qed simp

lemma Migrate_calm_iff:
  "Migrate d prefix (\<lambda>_. None) s = (None, s2) \<longleftrightarrow>
   index_all d prefix migration_indexes (fold ensure_table (migrationTableStatements d prefix) s) = Some s2"
    (is "?l \<longleftrightarrow> index_all d prefix ?xs ?s = Some s2")
proof
  assume ?l
  then obtain j where "create_indexes d prefix (\<lambda>_. None) 5 ?xs ?s = ((None, j), s2)"
    by (auto simp: Migrate_def create_tables_calm split: prod.splits option.splits if_splits)
  then show "index_all d prefix ?xs ?s = Some s2" by (auto dest: create_indexes_run)
next
  assume "index_all d prefix ?xs ?s = Some s2"
  then obtain j where "create_indexes d prefix (\<lambda>_. None) 5 ?xs ?s = ((None, j), s2)"
    using create_indexes_calm by blast
  then show ?l by (simp add: Migrate_def create_tables_calm)
qed

text \<open>
  Property C36. A migration that failed anywhere, or succeeded, leaves a schema from which a migration without failures reaches the
  same schema as it reaches from the start.\<close>

theorem interrupted_migration_resumes:
  assumes "Migrate d prefix flt s = (r, s1)" and "Migrate d prefix (\<lambda>_. None) s = (None, s2)"
  shows "Migrate d prefix (\<lambda>_. None) s1 = (None, s2)"
proof -
  let ?ts = "migrationTableStatements d prefix" and ?xs = migration_indexes
  have goal: "index_all d prefix ?xs (fold ensure_table ?ts s) = Some s2" using assms(2) by (simp only: Migrate_calm_iff)
  obtain t s0 where tables: "create_tables d flt 0 ?ts s = (t, s0)" by fastforce
  obtain m where m: "s0 = fold ensure_table (take m ?ts) s" "t = None \<longrightarrow> take m ?ts = ?ts" using create_tables_run [OF tables] by blast
  show ?thesis
  proof (cases t)
    case (Some e)
    with assms(1) tables have "s1 = s0" by (simp add: Migrate_def)
    with m goal show ?thesis by (simp only: Migrate_calm_iff ensure_tables_resume)
  next
    case None
    obtain t' j s1' where "create_indexes d prefix flt 5 ?xs s0 = ((t', j), s1')" by (metis prod.exhaust)
    with assms(1) tables None have idx: "create_indexes d prefix flt 5 ?xs s0 = ((t', j), s1)"
      by (auto simp: Migrate_def split: option.splits if_splits)
    then obtain n where n: "index_all d prefix (take n ?xs) s0 = Some s1" using create_indexes_run by blast
    from None m have s0: "s0 = fold ensure_table ?ts s" by simp
    have "fold ensure_table ?ts s1 = s1"
      by (rule ensure_tables_present) (simp only: index_all_tables [OF n] s0 ensure_tables_names Un_upper1)
    then show ?thesis using index_all_resume [OF n] goal by (simp only: Migrate_calm_iff s0)
  qed
qed


section \<open>What the schema declares\<close>

text \<open>An \<^verbatim>\<open>INSERT\<close> fits a table: it names columns of it, once each, and gives a value to each column that must have one and has no default.\<close>

definition insert_fits :: "string list \<Rightarrow> column_def list \<Rightarrow> bool" where
  "insert_fits names cols \<longleftrightarrow> distinct names \<and> list_all (\<lambda>n. n \<in> set (map cd_name cols)) names \<and>
     list_all (\<lambda>c. cd_not_null c \<and> cd_default c = None \<longrightarrow> cd_name c \<in> set names) cols"

lemmas column_simps = col_def required_def defaulted_def keyed_def

lemma jobs_table_names: "map cd_name (jobs_table d) = jobColumns"
  by (simp add: jobs_table_def jobColumns_def column_simps)

text \<open>
  The five tables declare what the statements rely on: \<^verbatim>\<open>jobs\<close> has exactly the columns \<^verbatim>\<open>scanJob\<close> reads, in that order, and every \<^verbatim>\<open>INSERT\<close> fits its
  table, on all dialects.\<close>

theorem statements_fit_the_schema:
  "map cd_name (jobs_table d) = jobColumns \<and> distinct jobColumns \<and> insert_fits jobInsertColumns (jobs_table d) \<and>
   insert_fits failedInsertColumns (failed_jobs_table d) \<and> insert_fits nodeInsertColumns (nodes_table d) \<and>
   insert_fits leaderInsertColumns (leader_table d) \<and> insert_fits lockInsertColumns (locks_table d)"
proof (intro conjI)
  show "map cd_name (jobs_table d) = jobColumns" by (rule jobs_table_names)
  show "distinct jobColumns" by (simp add: jobColumns_def)
  show "insert_fits jobInsertColumns (jobs_table d)"
    by (simp add: insert_fits_def jobInsertColumns_def jobs_table_def column_simps)
  show "insert_fits failedInsertColumns (failed_jobs_table d)"
    by (simp add: insert_fits_def failedInsertColumns_def failed_jobs_table_def column_simps)
  show "insert_fits nodeInsertColumns (nodes_table d)"
    by (simp add: insert_fits_def nodeInsertColumns_def nodes_table_def column_simps)
  show "insert_fits leaderInsertColumns (leader_table d)"
    by (simp add: insert_fits_def leaderInsertColumns_def leader_table_def column_simps)
  show "insert_fits lockInsertColumns (locks_table d)"
    by (simp add: insert_fits_def lockInsertColumns_def locks_table_def column_simps)
qed

lemma index_columns_declared: "list_all (\<lambda>(n, cols). list_all (\<lambda>c. index_column c \<in> set jobColumns) cols) migration_indexes"
  by (simp add: migration_indexes_def jobColumns_def index_column_def)

lemma index_step_total:
  assumes "map_of (sch_tables s) (table prefix ''jobs'') = Some declared"
    and "list_all (\<lambda>c. index_column c \<in> cd_name ` set declared) cols"
  shows "index_step d prefix (n, cols) s \<noteq> None"
  using assms by (auto simp: index_step_def Let_def)

lemma index_all_total:
  assumes "map_of (sch_tables s) (table prefix ''jobs'') = Some declared"
    and "list_all (\<lambda>(n, cols). list_all (\<lambda>c. index_column c \<in> cd_name ` set declared) cols) xs"
  shows "index_all d prefix xs s \<noteq> None"
  using assms
proof (induction xs arbitrary: s)
  case (Cons x xs)
  obtain n cols where x: "x = (n, cols)" by (cases x)
  with Cons.prems obtain s1 where s1: "index_step d prefix x s = Some s1"
    using index_step_total [of s prefix declared cols d n] by auto
  have "index_all d prefix xs s1 \<noteq> None"
    using Cons.prems by (intro Cons.IH) (simp_all add: index_step_tables [OF s1])
  with s1 show ?case by simp
qed simp

lemma ensure_tables_map_of:
  assumes "distinct (map fst xs)" "list_all (\<lambda>x. fst x \<notin> fst ` set (sch_tables s)) xs"
  shows "map_of (sch_tables (fold ensure_table xs s)) t = (case map_of (sch_tables s) t of None \<Rightarrow> map_of xs t | Some c \<Rightarrow> Some c)"
  using assms
proof (induction xs arbitrary: s)
  case (Cons x xs)
  have names: "fst ` set (sch_tables (ensure_table x s)) = insert (fst x) (fst ` set (sch_tables s))" by (rule ensure_table_names)
  have "list_all (\<lambda>y. fst y \<notin> fst ` set (sch_tables (ensure_table x s))) xs"
    using Cons.prems by (fastforce simp: names list_all_iff image_iff)
  with Cons have "map_of (sch_tables (fold ensure_table xs (ensure_table x s))) t =
      (case map_of (sch_tables (ensure_table x s)) t of None \<Rightarrow> map_of xs t | Some c \<Rightarrow> Some c)" by simp
  moreover have "map_of (sch_tables (ensure_table x s)) t = (case map_of (sch_tables s) t of None \<Rightarrow> map_of [x] t | Some c \<Rightarrow> Some c)"
    using Cons.prems by (cases x) (simp add: ensure_table_def map_add_def split: option.splits)
  ultimately show ?case by (cases x) (auto split: option.splits)
qed (simp split: option.splits)

definition fresh_prefix :: "Dialect \<Rightarrow> string \<Rightarrow> schema \<Rightarrow> bool" where
  "fresh_prefix d prefix s \<longleftrightarrow> list_all (\<lambda>x. fst x \<notin> fst ` set (sch_tables s)) (migrationTableStatements d prefix)"

lemma statement_names: "map fst (migrationTableStatements d prefix) = map (table prefix) [''jobs'', ''leader'', ''nodes'', ''failed_jobs'', ''locks'']"
  by (simp add: migrationTableStatements_def)

lemma statements_distinct: "distinct (map fst (migrationTableStatements d prefix))"
  by (simp add: statement_names table_def)

text \<open>A migration into a database without tables of these names succeeds, declares all of them with their columns and indexes and leaves other tables alone.\<close>

theorem migration_declares_its_tables:
  assumes "fresh_prefix d prefix s"
  shows "\<exists>s'. Migrate d prefix (\<lambda>_. None) s = (None, s') \<and>
    list_all (\<lambda>(t, cols). map_of (sch_tables s') t = Some cols) (migrationTableStatements d prefix) \<and>
    list_all (\<lambda>(n, cols). has_index d (table prefix ''jobs'') (index_name prefix n) s') migration_indexes \<and>
    (\<forall>t c. map_of (sch_tables s) t = Some c \<longrightarrow> map_of (sch_tables s') t = Some c)"
proof -
  let ?ts = "migrationTableStatements d prefix" and ?s = "fold ensure_table (migrationTableStatements d prefix) s"
  have tables: "map_of (sch_tables ?s) t = (case map_of (sch_tables s) t of None \<Rightarrow> map_of ?ts t | Some c \<Rightarrow> Some c)" for t
    using assms by (intro ensure_tables_map_of statements_distinct) (simp add: fresh_prefix_def)
  have new: "map_of (sch_tables ?s) t = Some cols" if "(t, cols) \<in> set ?ts" for t cols
  proof -
    from assms that have "t \<notin> fst ` set (sch_tables s)" unfolding fresh_prefix_def list_all_iff by force
    then have "map_of (sch_tables s) t = None" by (simp add: map_of_eq_None_iff)
    with that show ?thesis by (simp add: tables statements_distinct)
  qed
  have "(table prefix ''jobs'', jobs_table d) \<in> set ?ts" by (simp add: migrationTableStatements_def)
  then have "index_all d prefix migration_indexes ?s \<noteq> None"
    using index_columns_declared jobs_table_names [of d]
    by (intro index_all_total [of _ _ "jobs_table d"] new) (simp_all flip: set_map)
  then obtain s' where s': "index_all d prefix migration_indexes ?s = Some s'" by blast
  from index_all_settles [OF s'] have "list_all (\<lambda>(n, cols). has_index d (table prefix ''jobs'') (index_name prefix n) s') migration_indexes"
    by (auto simp: list_all_iff settled_def)
  moreover from s' have "Migrate d prefix (\<lambda>_. None) s = (None, s')" by (simp only: Migrate_calm_iff)
  ultimately show ?thesis using new by (auto simp: list_all_iff index_all_tables [OF s'] tables)
qed

text \<open>A migration that loses the database at its third table, and the one that resumes it.\<close>

lemma interrupted_migration_resumes_witness:
  "\<exists>s1 s2. Migrate SQLite ''t_'' (\<lambda>k. if k = 2 then Some (Errorf ''down'') else None) \<lparr>sch_tables = [], sch_indexes = []\<rparr> =
      (Some (Wrapf ''migrate sqldriver'' (Errorf ''down'')), s1) \<and>
    length (sch_tables s1) = 2 \<and> Migrate SQLite ''t_'' (\<lambda>_. None) s1 = (None, s2)"
proof -
  let ?s0 = "\<lparr>sch_tables = [], sch_indexes = []\<rparr>" and ?flt = "\<lambda>k::nat. if k = 2 then Some (Errorf ''down'') else None"
  have "\<exists>s1. Migrate SQLite ''t_'' ?flt ?s0 = (Some (Wrapf ''migrate sqldriver'' (Errorf ''down'')), s1) \<and> length (sch_tables s1) = 2"
    by (simp add: Migrate_def migrationTableStatements_def table_def)
  then obtain s1 where lost: "Migrate SQLite ''t_'' ?flt ?s0 = (Some (Wrapf ''migrate sqldriver'' (Errorf ''down'')), s1)"
    "length (sch_tables s1) = 2" by blast
  have "fresh_prefix SQLite ''t_'' ?s0" by (simp add: fresh_prefix_def list_all_iff)
  from migration_declares_its_tables [OF this] obtain s2 where whole: "Migrate SQLite ''t_'' (\<lambda>_. None) ?s0 = (None, s2)" by blast
  from interrupted_migration_resumes [OF lost(1) whole] lost show ?thesis by blast
qed


section \<open>Prefixes\<close>

definition table_names :: "string list" where
  "table_names = [''jobs'', ''leader'', ''nodes'', ''failed_jobs'', ''locks'']"

lemma append_eq_take_drop:
  "us @ n = n' \<longleftrightarrow> length n \<le> length n' \<and> drop (length n' - length n) n' = n \<and> us = take (length n' - length n) n'"
proof
  assume "us @ n = n'"
  then show "length n \<le> length n' \<and> drop (length n' - length n) n' = n \<and> us = take (length n' - length n) n'" by auto
next
  assume "length n \<le> length n' \<and> drop (length n' - length n) n' = n \<and> us = take (length n' - length n) n'"
  then show "us @ n = n'" by (metis append_take_drop_id)
qed

lemma suffix_table_names:
  assumes "n \<in> set table_names" "n' \<in> set table_names"
  shows "us @ n = n' \<longleftrightarrow> us = [] \<and> n = n' \<or> us = ''failed_'' \<and> n = ''jobs'' \<and> n' = ''failed_jobs''"
  using assms unfolding table_names_def set_simps by (elim insertE emptyE; simp add: append_eq_take_drop)

text \<open>
  Two queues in one database share a table only if they have the same prefix, or if one prefix is the other followed by \<^verbatim>\<open>failed_\<close>: then the
  \<^verbatim>\<open>failed_jobs\<close> of the one is the \<^verbatim>\<open>jobs\<close> of the other.\<close>

theorem table_names_clash_iff:
  assumes "n \<in> set table_names" "n' \<in> set table_names"
  shows "table p n = table p' n' \<longleftrightarrow> p = p' \<and> n = n' \<or> p' = p @ ''failed_'' \<and> n = ''failed_jobs'' \<and> n' = ''jobs'' \<or>
    p = p' @ ''failed_'' \<and> n = ''jobs'' \<and> n' = ''failed_jobs''"
proof -
  have "table p n = table p' n' \<longleftrightarrow> (\<exists>us. p = p' @ us \<and> us @ n = n' \<or> p @ us = p' \<and> n = us @ n')"
    by (simp add: table_def append_eq_append_conv2)
  also have "\<dots> \<longleftrightarrow> (\<exists>us. p = p' @ us \<and> us @ n = n') \<or> (\<exists>us. p' = p @ us \<and> us @ n' = n)"
    by (simp only: ex_disj_distrib eq_commute [of _ p'] eq_commute [of n])
  also have "\<dots> \<longleftrightarrow> p = p' \<and> n = n' \<or> p' = p @ ''failed_'' \<and> n = ''failed_jobs'' \<and> n' = ''jobs'' \<or>
      p = p' @ ''failed_'' \<and> n = ''jobs'' \<and> n' = ''failed_jobs''"
    by (simp only: suffix_table_names [OF assms] suffix_table_names [OF assms(2,1)]) auto
  finally show ?thesis .
qed

lemma table_names_clash_iff_witness:
  "table ''tasker_'' ''failed_jobs'' = table ''tasker_failed_'' ''jobs'' \<and> table ''a_'' ''jobs'' \<noteq> table ''b_'' ''jobs''"
  using table_names_clash_iff [of "''failed_jobs''" "''jobs''" "''tasker_''" "''tasker_failed_''"]
    table_names_clash_iff [of "''jobs''" "''jobs''" "''a_''" "''b_''"]
  by (simp add: table_names_def)

lemma ensure_tables_keep: "map_of (sch_tables s) t = Some c \<Longrightarrow> map_of (sch_tables (fold ensure_table xs s)) t = Some c"
  by (induction xs arbitrary: s) (simp_all add: ensure_table_def map_add_def)

lemma index_all_names:
  "index_all d prefix xs s = Some s1 \<Longrightarrow> fst ` set (sch_indexes s1) \<subseteq> fst ` set (sch_indexes s) \<union> (index_name prefix \<circ> fst) ` set xs"
proof (induction xs arbitrary: s)
  case (Cons x xs)
  then obtain s' where s': "index_step d prefix x s = Some s'" "index_all d prefix xs s' = Some s1" by (auto split: option.splits)
  from index_step_cases [OF s'(1)] have "fst ` set (sch_indexes s') \<subseteq> insert (index_name prefix (fst x)) (fst ` set (sch_indexes s))" by auto
  with Cons.IH [OF s'(2)] show ?case by auto
qed simp

lemma index_names_apart: "index_name (p @ ''failed_'') n \<noteq> index_name p n'"
  by (simp add: index_name_def)

lemma has_index_name: "has_index d tbl n s \<Longrightarrow> n \<in> fst ` set (sch_indexes s)"
  by (force simp: has_index_def)

lemma state_not_in_failed_jobs: "''state'' \<notin> cd_name ` set (failed_jobs_table d)"
  by (simp add: failed_jobs_table_def column_simps)

lemma Migrate_success:
  assumes "Migrate d prefix flt s = (None, s2)"
  shows "index_all d prefix migration_indexes (fold ensure_table (migrationTableStatements d prefix) s) = Some s2"
proof -
  let ?ts = "migrationTableStatements d prefix"
  obtain t s0 where tables: "create_tables d flt 0 ?ts s = (t, s0)" by fastforce
  with assms have t: "t = None" by (auto simp: Migrate_def split: option.splits)
  with create_tables_run [OF tables] have s0: "s0 = fold ensure_table ?ts s" by auto
  obtain t' j s1' where idx: "create_indexes d prefix flt 5 migration_indexes s0 = ((t', j), s1')" by (metis prod.exhaust)
  with assms tables t have "t' = None" "s1' = s2" by (auto simp: Migrate_def split: option.splits if_splits)
  with create_indexes_run [OF idx] s0 show ?thesis by auto
qed

lemma index_step_undeclared:
  assumes "map_of (sch_tables s) (table prefix ''jobs'') = Some cs" "\<not> has_index d (table prefix ''jobs'') (index_name prefix n) s"
    and "c \<in> set cols" "index_column c \<notin> cd_name ` set cs"
  shows "index_step d prefix (n, cols) s = None"
proof -
  from assms(3,4) have "\<not> list_all (\<lambda>c. index_column c \<in> cd_name ` set cs) cols" by (auto simp: list_all_iff)
  with assms(1,2) show ?thesis by (simp add: index_step_def Let_def)
qed

text \<open>
  In that case the second migration finds a table of the name it wants, keeps it, and fails at its first index, whose column
  \<^verbatim>\<open>state\<close> that table does not have.\<close>

theorem clashing_prefix_cannot_migrate:
  assumes "Migrate d p (\<lambda>_. None) \<lparr>sch_tables = [], sch_indexes = []\<rparr> = (None, s)"
  shows "fst (Migrate d (p @ ''failed_'') flt s) \<noteq> None"
proof
  let ?p = "p @ ''failed_''" and ?s0 = "\<lparr>sch_tables = [], sch_indexes = []\<rparr>"
  let ?t = "fold ensure_table (migrationTableStatements d ?p) s"
  assume "fst (Migrate d ?p flt s) = None"
  then obtain s1 where "Migrate d ?p flt s = (None, s1)" by (cases "Migrate d ?p flt s") auto
  from Migrate_success [OF this] have all: "index_all d ?p migration_indexes ?t = Some s1" .
  have first: "index_all d p migration_indexes (fold ensure_table (migrationTableStatements d p) ?s0) = Some s"
    using assms by (rule Migrate_success)
  have "map_of (sch_tables (fold ensure_table (migrationTableStatements d p) ?s0)) (table p ''failed_jobs'') = Some (failed_jobs_table d)"
    by (subst ensure_tables_map_of) (simp_all add: migrationTableStatements_def table_def)
  then have declared: "map_of (sch_tables ?t) (table ?p ''jobs'') = Some (failed_jobs_table d)"
    using index_all_tables [OF first] by (intro ensure_tables_keep) (simp add: table_def)
  have "sch_indexes (fold ensure_table xs s') = sch_indexes s'" for xs s'
    by (induction xs arbitrary: s') (simp_all add: ensure_table_def)
  then have names: "fst ` set (sch_indexes ?t) \<subseteq> (index_name p \<circ> fst) ` set migration_indexes"
    using index_all_names [OF first] by simp
  have no_index: "\<not> has_index d tbl (index_name ?p n) ?t" for tbl n
  proof
    assume "has_index d tbl (index_name ?p n) ?t"
    then have "index_name ?p n \<in> fst ` set (sch_indexes ?t)" by (rule has_index_name)
    with names have "index_name ?p n \<in> (index_name p \<circ> fst) ` set migration_indexes" by blast
    then show False by (elim imageE) (simp add: index_names_apart)
  qed
  have "index_step d ?p (''queue_state'', [''queue'', ''state'', ''scheduled_at'', ''priority DESC'', ''id'']) ?t = None"
    using state_not_in_failed_jobs [of d] by (intro index_step_undeclared [OF declared no_index, of "''state''"]) (simp_all add: index_column_def)
  then have "index_all d ?p migration_indexes ?t = None" by (simp only: migration_indexes_def index_all.simps option.case)
  with all show False by simp
qed

end
