(* ===== verification/Connections.thy ===== *)
theory Connections
  imports Schema_Properties Redis_Cluster
begin

text \<open>
  Opening and closing the drivers: \<^verbatim>\<open>Config\<close>, \<^verbatim>\<open>NewDriver\<close> and \<^verbatim>\<open>Close\<close> of \<^verbatim>\<open>driver/sqldriver/driver.go\<close> and of
  \<^verbatim>\<open>driver/redisdriver/driver.go\<close>, and the names of the Redis keys. The packages \<^verbatim>\<open>database/sql\<close> and \<^verbatim>\<open>go-redis\<close> are
  parameters: what opening, pinging and closing a handle of type \<open>'h\<close> answers. Which handles were closed is recorded in order.
\<close>


section \<open>SQL\<close>

record 'h SqlConfig =
  c_DB :: "'h option"
  c_Dialect :: string
  c_DSN :: string
  c_DriverName :: string
  c_MaxOpenConns :: int
  c_MaxIdleConns :: int
  c_ConnMaxLifetime :: duration
  c_TablePrefix :: string

definition sql_DefaultConfig :: "'h SqlConfig" where
  "sql_DefaultConfig = \<lparr>c_DB = None, c_Dialect = [], c_DSN = [], c_DriverName = ''postgres'', c_MaxOpenConns = 25,
     c_MaxIdleConns = 10, c_ConnMaxLifetime = 0, c_TablePrefix = ''tasker_''\<rparr>"

record 'h db_lib =
  lib_Open :: "string \<Rightarrow> string \<Rightarrow> error + 'h"
  lib_Ping :: "'h \<Rightarrow> error option"
  lib_Close :: "'h \<Rightarrow> error option"

record 'h db_world =
  w_limits :: "('h \<times> int \<times> int \<times> duration) list"
  w_closed :: "'h list"

record 'h SqlDriver =
  sd_db :: 'h
  sd_config :: "'h SqlConfig"
  sd_dialect :: Dialect
  sd_borrowed :: bool

text \<open>\<open>quoted\<close> is the \<^verbatim>\<open>%q\<close> of \<^verbatim>\<open>fmt\<close>.\<close>

definition sql_NewDriver ::
    "'h db_lib \<Rightarrow> (string \<Rightarrow> string) \<Rightarrow> 'h SqlConfig \<Rightarrow> 'h db_world \<Rightarrow> (error + 'h SqlDriver) \<times> 'h db_world" where
  "sql_NewDriver lib quoted cfg w =
     (if \<not> validIdentifierPrefix (c_TablePrefix cfg) then (Inl (Errorf (''invalid table prefix '' @ quoted (c_TablePrefix cfg))), w)
      else case c_DB cfg of
        Some h \<Rightarrow>
          if c_Dialect cfg = [] then
            (Inl (Errorf ''sqldriver: Config.DB was given without a Dialect; a borrowed pool carries no driver name to infer one from''), w)
          else (case lib_Ping lib h of
            Some e \<Rightarrow> (Inl (Wrapf ''failed to ping the borrowed database'' e), w)
          | None \<Rightarrow> (Inr \<lparr>sd_db = h, sd_config = cfg, sd_dialect = dialectFor (c_Dialect cfg), sd_borrowed = True\<rparr>, w))
      | None \<Rightarrow>
          (case lib_Open lib (c_DriverName cfg) (c_DSN cfg) of
             Inl e \<Rightarrow> (Inl (Wrapf ''failed to open database'' e), w)
           | Inr h \<Rightarrow>
               let w1 = w\<lparr>w_limits := w_limits w @ [(h, c_MaxOpenConns cfg, c_MaxIdleConns cfg, c_ConnMaxLifetime cfg)]\<rparr> in
               (case lib_Ping lib h of
                  Some e \<Rightarrow> (Inl (Wrapf ''failed to ping database'' e), w1\<lparr>w_closed := w_closed w1 @ [h]\<rparr>)
                | None \<Rightarrow> (Inr \<lparr>sd_db = h, sd_config = cfg, sd_dialect = dialectFor (c_DriverName cfg), sd_borrowed = False\<rparr>, w1))))"

definition sql_Close :: "'h db_lib \<Rightarrow> 'h SqlDriver \<Rightarrow> 'h db_world \<Rightarrow> error option \<times> 'h db_world" where
  "sql_Close lib dr w =
     (if sd_borrowed dr then (None, w) else (lib_Close lib (sd_db dr), w\<lparr>w_closed := w_closed w @ [sd_db dr]\<rparr>))"

definition sql_Ping :: "'h db_lib \<Rightarrow> 'h SqlDriver \<Rightarrow> error option" where
  "sql_Ping lib dr = lib_Ping lib (sd_db dr)"

text \<open>
  Who owns a pool closes it. A pool the application lends in \<^verbatim>\<open>Config.DB\<close> is neither configured nor closed, by \<^verbatim>\<open>NewDriver\<close> or by
  \<^verbatim>\<open>Close\<close>, whatever fails. A pool \<^verbatim>\<open>NewDriver\<close> opens is closed exactly once: at once when its first ping fails, else by \<^verbatim>\<open>Close\<close>.\<close>

theorem pools_are_closed_by_their_owner:
  assumes "sql_NewDriver lib quoted cfg w = (r, w')"
  shows "case c_DB cfg of
      Some h \<Rightarrow> w' = w \<and> (\<forall>dr w''. r = Inr dr \<longrightarrow> sd_db dr = h \<and> sql_Close lib dr w'' = (None, w''))
    | None \<Rightarrow>
        (case r of
           Inr dr \<Rightarrow> lib_Open lib (c_DriverName cfg) (c_DSN cfg) = Inr (sd_db dr) \<and> w_closed w' = w_closed w \<and>
             (\<forall>w''. w_closed (snd (sql_Close lib dr w'')) = w_closed w'' @ [sd_db dr])
         | Inl e \<Rightarrow> w' = w \<or> (\<exists>h. lib_Open lib (c_DriverName cfg) (c_DSN cfg) = Inr h \<and> w_closed w' = w_closed w @ [h]))"
  using assms by (auto simp: sql_NewDriver_def sql_Close_def Let_def split: if_splits option.splits sum.splits)

lemma pools_are_closed_by_their_owner_witness:
  "w_closed (snd (sql_Close \<lparr>lib_Open = \<lambda>_ _. Inr (7 :: nat), lib_Ping = \<lambda>_. None, lib_Close = \<lambda>_. None\<rparr>
     \<lparr>sd_db = 7, sd_config = sql_DefaultConfig, sd_dialect = Postgres, sd_borrowed = False\<rparr> \<lparr>w_limits = [], w_closed = []\<rparr>)) = [7]"
proof -
  let ?lib = "\<lparr>lib_Open = \<lambda>_ _. Inr (7 :: nat), lib_Ping = \<lambda>_. None, lib_Close = \<lambda>_. None\<rparr>"
  have "sql_NewDriver ?lib (\<lambda>s. s) sql_DefaultConfig \<lparr>w_limits = [], w_closed = []\<rparr> =
      (Inr \<lparr>sd_db = 7, sd_config = sql_DefaultConfig, sd_dialect = Postgres, sd_borrowed = False\<rparr>, \<lparr>w_limits = [(7, 25, 10, 0)], w_closed = []\<rparr>)"
    by (simp add: sql_NewDriver_def sql_DefaultConfig_def validIdentifierPrefix_def is_identifier_char_def dialectFor_def)
  from pools_are_closed_by_their_owner [OF this] show ?thesis by (simp add: sql_DefaultConfig_def)
qed

text \<open>Every table and index of a driver that \<^verbatim>\<open>NewDriver\<close> returned is named by an identifier: names go into the SQL text unquoted.\<close>

theorem names_of_a_driver_are_identifiers:
  assumes "sql_NewDriver lib quoted cfg w = (Inr dr, w')" and "n \<in> set table_names" and "i \<in> fst ` set migration_indexes"
  shows "list_all is_identifier_char (table (c_TablePrefix (sd_config dr)) n) \<and> list_all is_identifier_char (index_name (c_TablePrefix (sd_config dr)) i)"
proof -
  have "list_all is_identifier_char (c_TablePrefix (sd_config dr))"
    using assms(1) by (auto simp: sql_NewDriver_def validIdentifierPrefix_def Let_def split: if_splits option.splits sum.splits)
  moreover have "list_all is_identifier_char n" using assms(2) by (auto simp: table_names_def is_identifier_char_def)
  moreover have "list_all is_identifier_char i" using assms(3) by (auto simp: migration_indexes_def is_identifier_char_def)
  ultimately show ?thesis by (simp add: table_def index_name_def is_identifier_char_def)
qed


section \<open>Redis\<close>

record RedisConfig =
  rc_Addr :: string
  rc_Password :: string
  rc_DB :: int
  rc_PoolSize :: int
  rc_KeyPrefix :: string

definition redis_DefaultConfig :: RedisConfig where
  "redis_DefaultConfig = \<lparr>rc_Addr = ''localhost:6379'', rc_Password = [], rc_DB = 0, rc_PoolSize = 0, rc_KeyPrefix = ''tasker:''\<rparr>"

record 'h redis_lib =
  rl_NewClient :: "string \<Rightarrow> string \<Rightarrow> int \<Rightarrow> int \<Rightarrow> 'h"
  rl_Ping :: "'h \<Rightarrow> error option"
  rl_Close :: "'h \<Rightarrow> error option"

record 'h RedisDriver =
  rd_client :: 'h
  rd_config :: RedisConfig

text \<open>The list is that of the clients closed so far.\<close>

definition redis_NewDriver :: "'h redis_lib \<Rightarrow> RedisConfig \<Rightarrow> 'h list \<Rightarrow> (error + 'h RedisDriver) \<times> 'h list" where
  "redis_NewDriver lib cfg closed =
     (let client = rl_NewClient lib (rc_Addr cfg) (rc_Password cfg) (rc_DB cfg) (rc_PoolSize cfg) in
      case rl_Ping lib client of
        Some e \<Rightarrow> (Inl (Wrapf ''failed to connect to Redis'' e), closed @ [client])
      | None \<Rightarrow> (Inr \<lparr>rd_client = client, rd_config = cfg\<rparr>, closed))"

definition redis_Close :: "'h redis_lib \<Rightarrow> 'h RedisDriver \<Rightarrow> 'h list \<Rightarrow> error option \<times> 'h list" where
  "redis_Close lib dr closed = (rl_Close lib (rd_client dr), closed @ [rd_client dr])"

definition redis_Ping :: "'h redis_lib \<Rightarrow> 'h RedisDriver \<Rightarrow> error option" where
  "redis_Ping lib dr = rl_Ping lib (rd_client dr)"

definition redis_key :: "RedisConfig \<Rightarrow> string \<Rightarrow> string" where
  "redis_key cfg suffix = rc_KeyPrefix cfg @ suffix"

text \<open>The keys the driver uses: one constructor for each expression that names one.\<close>

datatype key_role =
    KeyJobId | KeyUuids | KeyJobs | KeyIds | KeyCreated | KeyRunning | KeyDue queue_name
  | KeyNodes | KeyNode node_id | KeyLeader | KeyLock string

fun key_suffix :: "key_role \<Rightarrow> string" where
  "key_suffix KeyJobId = ''job:id''"
| "key_suffix KeyUuids = ''job:uuids''"
| "key_suffix KeyJobs = ''jobs''"
| "key_suffix KeyIds = ''job:ids''"
| "key_suffix KeyCreated = ''job:created''"
| "key_suffix KeyRunning = ''job:running''"
| "key_suffix (KeyDue queue) = ''job:due:'' @ queue"
| "key_suffix KeyNodes = ''nodes''"
| "key_suffix (KeyNode node) = ''node:'' @ node"
| "key_suffix KeyLeader = ''leader''"
| "key_suffix (KeyLock name) = ''lock:'' @ name"

definition role_key :: "RedisConfig \<Rightarrow> key_role \<Rightarrow> string" where
  "role_key cfg k = redis_key cfg (key_suffix k)"

lemma key_suffix_inj: "key_suffix k = key_suffix k' \<Longrightarrow> k = k'"
  by (cases k; cases k'; simp)

text \<open>
  No two keys of a driver are the same key, whatever queues, nodes and locks are called; and the keys of two drivers are
  apart when neither prefix begins the other.\<close>

theorem redis_keys_do_not_alias:
  assumes "role_key cfg k = role_key cfg' k'"
  shows "if rc_KeyPrefix cfg = rc_KeyPrefix cfg' then k = k'
    else (\<exists>us. us \<noteq> [] \<and> (rc_KeyPrefix cfg' = rc_KeyPrefix cfg @ us \<or> rc_KeyPrefix cfg = rc_KeyPrefix cfg' @ us))"
proof (cases "rc_KeyPrefix cfg = rc_KeyPrefix cfg'")
  case True
  with assms key_suffix_inj [of k k'] show ?thesis by (simp add: role_key_def redis_key_def)
next
  case False
  from assms have "\<exists>us. rc_KeyPrefix cfg = rc_KeyPrefix cfg' @ us \<or> rc_KeyPrefix cfg' = rc_KeyPrefix cfg @ us"
    by (auto simp: role_key_def redis_key_def append_eq_append_conv2 dest: sym)
  with False show ?thesis by (metis append_Nil2)
qed

lemma redis_keys_do_not_alias_witness:
  "role_key redis_DefaultConfig (KeyLock ''jobs'') = role_key (redis_DefaultConfig\<lparr>rc_KeyPrefix := ''tasker:lock:''\<rparr>) KeyJobs \<and>
   (\<exists>us. ''tasker:lock:'' = ''tasker:'' @ us)"
  using redis_keys_do_not_alias [of redis_DefaultConfig "KeyLock ''jobs''" "redis_DefaultConfig\<lparr>rc_KeyPrefix := ''tasker:lock:''\<rparr>" KeyJobs]
  by (simp add: role_key_def redis_key_def redis_DefaultConfig_def)

end
