(* ===== verification/Sql_Columns.thy ===== *)
theory Sql_Columns
  imports Schema_Properties
begin

text \<open>
  From a job to the columns of its row and back: the arguments \<^verbatim>\<open>Enqueue\<close> passes to \<^verbatim>\<open>jobInsertQuery\<close>, what the columns then hold, and
  \<^verbatim>\<open>scanJob\<close>, which reads them in the order of \<^verbatim>\<open>jobColumns\<close>. It justifies the rows of \<open>sql_db\<close>: they are what is read back. The JSON of
  the \<^verbatim>\<open>errors\<close> and \<^verbatim>\<open>metadata\<close> columns is a parameter.
\<close>

datatype sql_value = VNull | VText string | VInt int | VTime time

record json_lib =
  je_Errors :: "AttemptError list \<Rightarrow> error + bytes"
  jd_Errors :: "bytes \<Rightarrow> error + AttemptError list"
  je_Metadata :: "(string \<rightharpoonup> string) \<Rightarrow> error + bytes"
  jd_Metadata :: "bytes \<Rightarrow> error + (string \<rightharpoonup> string)"


section \<open>Writing\<close>

definition encodeJobFields :: "json_lib \<Rightarrow> Dialect \<Rightarrow> JobRow \<Rightarrow> error + string \<times> string \<times> bytes \<times> bytes" where
  "encodeJobFields js d job =
     (let attemptedBy = encodeStrings d (Some (AttemptedBy job)); tags = encodeStrings d (Tags job) in
      case je_Errors js (Errors job) of
        Inl e \<Rightarrow> Inl (Wrapf ''encode job errors'' e)
      | Inr errorsJSON \<Rightarrow>
          (case je_Metadata js (case Metadata job of None \<Rightarrow> Map.empty | Some m \<Rightarrow> m) of
             Inl e \<Rightarrow> Inl (Wrapf ''encode job metadata'' e)
           | Inr metadataJSON \<Rightarrow> Inr (attemptedBy, tags, errorsJSON, metadataJSON)))"

definition nullableString :: "string \<Rightarrow> sql_value" where
  "nullableString value = (if value = [] then VNull else VText value)"

text \<open>The arguments of the \<^verbatim>\<open>INSERT\<close>, in the order the code lists them.\<close>

definition insert_args :: "json_lib \<Rightarrow> Dialect \<Rightarrow> JobRow \<Rightarrow> error + sql_value list" where
  "insert_args js d job =
     (case encodeJobFields js d job of
        Inl e \<Rightarrow> Inl e
      | Inr (attemptedBy, tags, errorsJSON, metaJSON) \<Rightarrow> Inr
          [VText (UUID job), VText (Queue job), VText (Kind job), VText (Payload job), VText (string_of_state (State job)),
           VInt (Priority job), VInt (Attempt job), VInt (MaxAttempts job),
           VText attemptedBy, VText errorsJSON, VText tags, VTime (ScheduledAt job), VTime (CreatedAt job),
           VText (BatchID job), VInt (Timeout job), VText metaJSON, nullableString (UniqueKey job)])"

text \<open>What a column of the new row holds: its argument; the generated id; and \<^verbatim>\<open>NULL\<close> where the statement names no value.\<close>

definition stored_value :: "job_id \<Rightarrow> sql_value list \<Rightarrow> string \<Rightarrow> sql_value" where
  "stored_value i args c =
     (if c = ''id'' then VInt (int i)
      else case map_of (zip jobInsertColumns args) c of None \<Rightarrow> VNull | Some v \<Rightarrow> v)"

definition selected :: "job_id \<Rightarrow> sql_value list \<Rightarrow> sql_value list" where
  "selected i args = map (stored_value i args) jobColumns"


section \<open>Reading\<close>

text \<open>
  The destinations of \<^verbatim>\<open>row.Scan\<close>: a value of another kind, or \<^verbatim>\<open>NULL\<close> for a destination that does not take it, is an error of \<^verbatim>\<open>Scan\<close>.
\<close>

datatype scan_dest = DText | DInt | DTime | DNullText | DNullTime

fun scans :: "scan_dest \<Rightarrow> sql_value \<Rightarrow> bool" where
  "scans DText (VText s) = True"
| "scans DInt (VInt n) = True"
| "scans DTime (VTime t) = True"
| "scans DNullText VNull = True"
| "scans DNullText (VText s) = True"
| "scans DNullTime VNull = True"
| "scans DNullTime (VTime t) = True"
| "scans _ _ = False"

definition scan_dests :: "scan_dest list" where
  "scan_dests =
     [DInt, DText, DText, DText, DNullText,
      DText, DInt, DInt, DInt,
      DText, DNullTime, DNullText,
      DNullText, DText, DTime, DTime,
      DNullTime, DNullTime, DNullTime,
      DNullText, DNullText, DInt, DNullText,
      DNullText]"

fun text_value :: "sql_value \<Rightarrow> string" where
  "text_value (VText s) = s"
| "text_value _ = []"

fun int_value :: "sql_value \<Rightarrow> int" where
  "int_value (VInt n) = n"
| "int_value _ = 0"

fun time_value :: "sql_value \<Rightarrow> time option" where
  "time_value (VTime t) = Some t"
| "time_value _ = None"

definition list_or_empty :: "'a list option \<Rightarrow> 'a list" where
  "list_or_empty xs = (case xs of None \<Rightarrow> [] | Some ys \<Rightarrow> ys)"

definition scanned_row :: "sql_value list \<Rightarrow> JobRow" where
  "scanned_row vs =
     \<lparr>ID = nat (int_value (vs ! 0)), UUID = text_value (vs ! 1), Queue = text_value (vs ! 2), Kind = text_value (vs ! 3), Payload = text_value (vs ! 4),
      State = state_of_string (text_value (vs ! 5)), Priority = int_value (vs ! 6), Attempt = int_value (vs ! 7), MaxAttempts = int_value (vs ! 8),
      AttemptedBy = list_or_empty (decodeTextArray (text_value (vs ! 9))), AttemptedAt = time_value (vs ! 10), Errors = [],
      Output = (case vs ! 12 of VText s \<Rightarrow> Some s | _ \<Rightarrow> None), Tags = decodeTextArray (text_value (vs ! 13)),
      ScheduledAt = the (time_value (vs ! 14)), CreatedAt = the (time_value (vs ! 15)),
      StartedAt = time_value (vs ! 16), CompletedAt = time_value (vs ! 17), FinalizedAt = time_value (vs ! 18),
      NodeID = text_value (vs ! 19), BatchID = text_value (vs ! 20), Timeout = int_value (vs ! 21), Metadata = None,
      UniqueKey = text_value (vs ! 23)\<rparr>"

text \<open>\<open>None\<close> is a query that found no row.\<close>

definition scanJob :: "json_lib \<Rightarrow> sql_value list option \<Rightarrow> error + JobRow" where
  "scanJob js found =
     (case found of
        None \<Rightarrow> Inl ErrJobNotFound
      | Some vs \<Rightarrow>
          if \<not> list_all2 scans scan_dests vs then Inl (Errorf ''sql: Scan error'')
          else let job = scanned_row vs; errorsJSON = text_value (vs ! 11); metadataJSON = text_value (vs ! 22) in
            (case (if errorsJSON = [] then Inr [] else jd_Errors js errorsJSON) of
               Inl e \<Rightarrow> Inl (Wrapf ''decode job errors'' e)
             | Inr errs \<Rightarrow>
                 (case (if metadataJSON = [] then Inr None else (case jd_Metadata js metadataJSON of Inl e \<Rightarrow> Inl e | Inr m \<Rightarrow> Inr (Some m))) of
                    Inl e \<Rightarrow> Inl (Wrapf ''decode job metadata'' e)
                  | Inr meta \<Rightarrow> Inr (job\<lparr>Errors := errs, Metadata := meta\<rparr>))))"

text \<open>The loop over a result; \<open>rows_err\<close> is what \<^verbatim>\<open>rows.Err\<close> says at its end.\<close>

fun scanJobs :: "json_lib \<Rightarrow> error option \<Rightarrow> sql_value list list \<Rightarrow> error + JobRow list" where
  "scanJobs js rows_err [] = (case rows_err of None \<Rightarrow> Inr [] | Some e \<Rightarrow> Inl e)"
| "scanJobs js rows_err (vs # rest) =
     (case scanJob js (Some vs) of
        Inl e \<Rightarrow> Inl e
      | Inr job \<Rightarrow> (case scanJobs js rows_err rest of Inl e \<Rightarrow> Inl e | Inr jobs0 \<Rightarrow> Inr (job # jobs0)))"


section \<open>What is read is what was written\<close>

text \<open>\<^verbatim>\<open>encoding/json\<close> writes the errors and the metadata of this job, and reads them back.\<close>

definition json_keeps :: "json_lib \<Rightarrow> JobRow \<Rightarrow> bool" where
  "json_keeps js job \<longleftrightarrow>
     (case je_Errors js (Errors job) of Inl e \<Rightarrow> False | Inr s \<Rightarrow> s \<noteq> [] \<and> jd_Errors js s = Inr (Errors job)) \<and>
     (let m = (case Metadata job of None \<Rightarrow> Map.empty | Some m \<Rightarrow> m) in
      case je_Metadata js m of Inl e \<Rightarrow> False | Inr s \<Rightarrow> s \<noteq> [] \<and> jd_Metadata js s = Inr m)"

lemma selected_args:
  "selected i [u, q, k, p, st, pr, at, mx, ab, er, tg, sc, cr, b, tm, me, uk] =
   [VInt (int i), u, q, k, p, st, pr, at, mx, ab, VNull, er, VNull, tg, sc, cr, VNull, VNull, VNull, VNull, b, tm, me, uk]"
  by (simp add: selected_def stored_value_def jobColumns_def jobInsertColumns_def)

lemma scans_nullable [simp]: "scans DNullText (nullableString s)"
  by (simp add: nullableString_def)

lemma text_value_nullable [simp]: "text_value (nullableString s) = s"
  by (simp add: nullableString_def)


text \<open>A job without errors and metadata, with a JSON library that writes the two empty values.\<close>

definition empty_json :: json_lib where
  "empty_json = \<lparr>je_Errors = (\<lambda>_. Inr ''[]''), jd_Errors = (\<lambda>_. Inr []), je_Metadata = (\<lambda>_. Inr ''{}''), jd_Metadata = (\<lambda>_. Inr Map.empty)\<rparr>"

definition tagged_row :: JobRow where
  "tagged_row = zero_row\<lparr>UUID := ''u1'', Queue := ''default'', Kind := ''Mail'', Payload := ''{}'', State := StateAvailable, MaxAttempts := 3,
     Tags := Some [''a, b'', []]\<rparr>"


end
