(* ===== verification/Draining.thy ===== *)
theory Draining
  imports Lone_Job Delivery
begin

text \<open>
  What a worker gets done when jobs succeed: the locale \<open>served_queue\<close> is what its loop needs of a store whose claims hand out the first job of a queue;
  over it the loop completes every job that waits in the queue, each once and in the order of the claims. Both drivers are such stores.
\<close>


section \<open>Jobs that succeed\<close>

definition always_succeeds :: "('s, 'p, 'w) worker_registry \<Rightarrow> string \<Rightarrow> bytes \<Rightarrow> bool" where
  "always_succeeds reg kind payload \<longleftrightarrow> (\<exists>obj. worker_decodeJob reg kind payload = Inr obj \<and>
     (\<forall>show_panic c s. fst (run_recovered show_panic (collectMiddlewares reg obj) obj payload c s) = None))"

lemma always_succeeds_now: "always_succeeds reg (Kind job) (Payload job) \<Longrightarrow> succeeds_now reg job"
  by (auto simp: always_succeeds_def succeeds_now_def)

text \<open>The jobs of a queue that a claim may take once they are due.\<close>

definition ready_jobs :: "(job_id \<Rightarrow> JobRow option) \<Rightarrow> queue_name \<Rightarrow> JobRow set" where
  "ready_jobs look q = {r. (\<exists>i. look i = Some r) \<and> Queue r = q \<and> waiting (State r) \<and> Attempt r < MaxAttempts r}"

lemma ready_jobs_cong: "(\<And>i. look' i = look i) \<Longrightarrow> ready_jobs look' q = ready_jobs look q"
  by (simp add: ready_jobs_def)

text \<open>A job that is taken, or has ended, is no longer among them; the others are.\<close>

lemma ready_jobs_leave:
  assumes "\<And>j. look' j = (if j = i then Some row' else look j)" and "\<not> waiting (State row')" and "\<And>j r. look j = Some r \<Longrightarrow> ID r = j"
  shows "ready_jobs look' q = {r \<in> ready_jobs look q. ID r \<noteq> i}"
  using assms by (auto simp: ready_jobs_def split: if_splits)

lemma ready_jobs_join:
  assumes "look i = None" and "look' i = Some row" and "\<And>j. j \<noteq> i \<Longrightarrow> look' j = look j"
  shows "ready_jobs look' q = ready_jobs look q \<union> {r. r = row \<and> Queue r = q \<and> waiting (State r) \<and> Attempt r < MaxAttempts r}"
proof -
  have "(\<exists>j. look' j = Some r) \<longleftrightarrow> (\<exists>j. look j = Some r) \<or> r = row" for r
    using assms by (metis option.distinct(1) option.inject)
  then show ?thesis by (auto simp: ready_jobs_def)
qed

text \<open>The calls of a loop that completes the jobs of a list, one after the other.\<close>

abbreviation served_calls :: "queue_name \<Rightarrow> node_id \<Rightarrow> JobRow list \<Rightarrow> driver_op list" where
  "served_calls q n xs \<equiv> concat (map (\<lambda>r. [OpClaim q n 1, OpComplete (ID r) None]) xs)"


section \<open>Stores that serve a queue\<close>

text \<open>
  \<open>serves q s\<close> is the invariant under which the calls of the loop behave; \<open>rank\<close> orders the jobs. A claim at a time at which all the ready jobs of the queue are
  due hands out the first of them, and nothing when there is none.
\<close>

locale served_queue =
  fixes serves :: "queue_name \<Rightarrow> 's \<Rightarrow> bool" and look :: "'s \<Rightarrow> job_id \<Rightarrow> JobRow option" and health :: "'e \<Rightarrow> bool" and clock :: "'e \<Rightarrow> time"
    and rank :: "JobRow \<Rightarrow> 'k::linorder" and drive :: "(nat \<Rightarrow> 'e) \<Rightarrow> ('s \<times> nat) driver_call"
  assumes look_ID: "serves q s \<Longrightarrow> look s i = Some r \<Longrightarrow> ID r = i"
    and finite_ready: "serves q s \<Longrightarrow> finite (ready_jobs (look s) q)"
    and claim_first: "serves q s \<Longrightarrow> health (envs k) \<Longrightarrow> ready_jobs (look s) q \<noteq> {} \<Longrightarrow>
      (\<And>r. r \<in> ready_jobs (look s) q \<Longrightarrow> ScheduledAt r \<le> clock (envs k)) \<Longrightarrow>
      \<exists>row job s'. row \<in> ready_jobs (look s) q \<and> (\<forall>r \<in> ready_jobs (look s) q. r \<noteq> row \<longrightarrow> rank row < rank r) \<and>
        drive envs (OpClaim q n 1) (s, k) = (Inr [job], (s', k + 1)) \<and> serves q s' \<and> same_job row job \<and> State job = StateRunning \<and>
        Attempt job = Attempt row + 1 \<and> (\<forall>j. look s' j = (if j = ID row then Some job else look s j))"
    and claim_none: "serves q s \<Longrightarrow> health (envs k) \<Longrightarrow> ready_jobs (look s) q = {} \<Longrightarrow>
      \<exists>s'. drive envs (OpClaim q n 1) (s, k) = (Inr [], (s', k + 1)) \<and> serves q s' \<and> (\<forall>j. look s' j = look s j)"
    and complete_running: "serves q s \<Longrightarrow> health (envs k) \<Longrightarrow> look s i = Some row \<Longrightarrow> State row = StateRunning \<Longrightarrow>
      \<exists>row' s'. snd (drive envs (OpComplete i None) (s, k)) = (s', k + 1) \<and> serves q s' \<and> State row' = StateCompleted \<and>
        Attempt row' = Attempt row \<and> (\<forall>j. look s' j = (if j = i then Some row' else look s j))"
begin

text \<open>A round with a job: it is the first, and it is completed.\<close>

lemma serving_round:
  assumes serves: "serves q s" and some: "ready_jobs (look s) q \<noteq> {}"
    and ready: "\<And>r. r \<in> ready_jobs (look s) q \<Longrightarrow> always_succeeds reg (Kind r) (Payload r) \<and> ScheduledAt r \<le> clock (envs k)"
    and ok: "health (envs k)" "health (envs (k + 1))" "\<not> stop_before r"
  shows "\<exists>row row' u' s'. row \<in> ready_jobs (look s) q \<and> (\<forall>r \<in> ready_jobs (look s) q. r \<noteq> row \<longrightarrow> rank row < rank r) \<and>
    (\<forall>rs. run (drive envs) reg c q n (r # rs) (u, (s, k)) =
      (case run (drive envs) reg c q n rs (u', (s', k + 2)) of (ops, fin, sd) \<Rightarrow> (OpClaim q n 1 # OpComplete (ID row) None # ops, fin, sd))) \<and>
    serves q s' \<and> State row' = StateCompleted \<and> Attempt row' = Attempt row + 1 \<and>
    (\<forall>j. look s' j = (if j = ID row then Some row' else look s j)) \<and> ready_jobs (look s') q = ready_jobs (look s) q - {row}"
proof -
  from claim_first [where envs = envs and k = k and n = n, OF serves ok(1) some] ready obtain row job s1 where
    row: "row \<in> ready_jobs (look s) q" "\<forall>r \<in> ready_jobs (look s) q. r \<noteq> row \<longrightarrow> rank row < rank r"
    and called: "drive envs (OpClaim q n 1) (s, k) = (Inr [job], (s1, k + 1))" and one: "serves q s1"
    and job: "same_job row job" "State job = StateRunning" "Attempt job = Attempt row + 1" "\<forall>j. look s1 j = (if j = ID row then Some job else look s j)"
    by blast
  have id: "ID job = ID row" using job(1) by (simp add: same_job_def)
  have "always_succeeds reg (Kind job) (Payload job)" using ready [OF row(1)] job(1) by (simp add: same_job_def)
  from execute_succeeds [OF always_succeeds_now [OF this], of "drive envs" "round_env r" c u "(s1, k + 1)"] obtain u' where
    ex: "execute (drive envs) (round_env r) reg c job (u, (s1, k + 1)) =
      ([OpComplete (ID row) None], Ret (), (u', snd (drive envs (OpComplete (ID row) None) (s1, k + 1))))" unfolding id by blast
  have "look s1 (ID row) = Some job" using job(4) by simp
  from complete_running [where envs = envs and k = "k + 1", OF one ok(2) this job(2)] obtain row' s' where
    fin: "snd (drive envs (OpComplete (ID row) None) (s1, k + 1)) = (s', k + 1 + 1)" "serves q s'" "State row' = StateCompleted"
      "Attempt row' = Attempt job" "\<forall>j. look s' j = (if j = ID row then Some row' else look s1 j)" by blast
  have look': "\<forall>j. look s' j = (if j = ID row then Some row' else look s j)" using fin(5) job(4) by simp
  have "ready_jobs (look s') q = {r \<in> ready_jobs (look s) q. ID r \<noteq> ID row}"
    by (rule ready_jobs_leave) (use look' fin(3) look_ID [OF serves] in \<open>auto simp: waiting_def\<close>)
  also have "\<dots> = ready_jobs (look s) q - {row}"
    using row(1) look_ID [OF serves] by (auto simp: ready_jobs_def)
  finally have left: "ready_jobs (look s') q = ready_jobs (look s) q - {row}" .
  have "\<forall>rs. run (drive envs) reg c q n (r # rs) (u, (s, k)) =
      (case run (drive envs) reg c q n rs (u', (s', k + 2)) of (ops, fin, sd) \<Rightarrow> (OpClaim q n 1 # OpComplete (ID row) None # ops, fin, sd))"
    using run_round [OF ok(3) called ex] fin(1) by simp
  moreover have "Attempt row' = Attempt row + 1" using fin(4) job(3) by simp
  ultimately show ?thesis using row fin(2,3) look' left
    by (intro exI [of _ row] exI [of _ row'] exI [of _ u'] exI [of _ s'] conjI)
qed

text \<open>A round without a job only claims.\<close>

lemma idle_rounds:
  assumes "serves q s" and "ready_jobs (look s) q = {}" and "\<forall>m. health (envs m)" and "\<forall>r \<in> set rs. \<not> stop_before r \<and> \<not> stop_waiting r"
  shows "\<exists>s'. run (drive envs) reg c q n rs (u, (s, k)) = (replicate (length rs) (OpClaim q n 1), StillRunning, u, (s', k + length rs)) \<and>
    (\<forall>j. look s' j = look s j)"
  using assms
proof (induction rs arbitrary: s k)
  case (Cons r rs)
  from claim_none [where envs = envs and k = k and n = n, OF Cons.prems(1) spec [OF Cons.prems(3)] Cons.prems(2)] obtain s1 where
    one: "drive envs (OpClaim q n 1) (s, k) = (Inr [], (s1, k + 1))" "serves q s1" "\<forall>j. look s1 j = look s j" by blast
  have none: "ready_jobs (look s1) q = {}" using Cons.prems(2) one(3) ready_jobs_cong [of "look s1" "look s"] by simp
  have go: "\<forall>r \<in> set rs. \<not> stop_before r \<and> \<not> stop_waiting r" using Cons.prems(4) by simp
  from Cons.IH [OF one(2) none Cons.prems(3) go, of "k + 1"] obtain s2 where
    "run (drive envs) reg c q n rs (u, (s1, k + 1)) = (replicate (length rs) (OpClaim q n 1), StillRunning, u, (s2, k + 1 + length rs))"
    "\<forall>j. look s2 j = look s1 j" by blast
  with one Cons.prems(4) show ?case by (simp add: Let_def)
qed simp

text \<open>The whole loop, by induction on the jobs that are ready.\<close>

lemma drains:
  assumes "serves q s" and "card (ready_jobs (look s) q) \<le> length rs" and "\<forall>m. health (envs m)"
    and "\<forall>r \<in> set rs. \<not> stop_before r \<and> \<not> stop_waiting r"
    and "\<forall>r \<in> ready_jobs (look s) q. always_succeeds reg (Kind r) (Payload r) \<and> (\<forall>m. ScheduledAt r \<le> clock (envs m))"
  shows "\<exists>xs u' s'. set xs = ready_jobs (look s) q \<and> sorted_wrt (\<lambda>r r'. rank r < rank r') xs \<and>
    run (drive envs) reg c q n rs (u, (s, k)) =
      (served_calls q n xs @ replicate (length rs - length xs) (OpClaim q n 1), StillRunning, u', (s', k + length xs + length rs)) \<and>
    (\<forall>r \<in> set xs. \<exists>r'. look s' (ID r) = Some r' \<and> State r' = StateCompleted \<and> Attempt r' = Attempt r + 1) \<and>
    (\<forall>j. j \<notin> ID ` set xs \<longrightarrow> look s' j = look s j)"
  using assms
proof (induction rs arbitrary: s k u)
  case Nil
  then have "ready_jobs (look s) q = {}" using finite_ready [OF Nil(1)] by simp
  then show ?case by (intro exI [of _ "[]"]) simp
next
  case (Cons r rs)
  show ?case
  proof (cases "ready_jobs (look s) q = {}")
    case True
    from idle_rounds [where rs = "r # rs" and reg = reg and c = c and n = n and u = u and k = k and envs = envs, OF Cons.prems(1) True Cons.prems(3,4)]
    obtain s' where "run (drive envs) reg c q n (r # rs) (u, (s, k)) =
        (replicate (length (r # rs)) (OpClaim q n 1), StillRunning, u, (s', k + length (r # rs)))" "\<forall>j. look s' j = look s j" by blast
    with True show ?thesis by (intro exI [of _ "[]"] exI [of _ u] exI [of _ s']) simp
  next
    case False
    have "\<not> stop_before r" using Cons.prems(4) by simp
    moreover have "\<And>r. r \<in> ready_jobs (look s) q \<Longrightarrow> always_succeeds reg (Kind r) (Payload r) \<and> ScheduledAt r \<le> clock (envs k)"
      using Cons.prems(5) by simp
    ultimately obtain row row' u1 s1 where
      row: "row \<in> ready_jobs (look s) q" "\<forall>r \<in> ready_jobs (look s) q. r \<noteq> row \<longrightarrow> rank row < rank r"
      and round: "\<And>rs. run (drive envs) reg c q n (r # rs) (u, (s, k)) =
        (case run (drive envs) reg c q n rs (u1, (s1, k + 2)) of (ops, fin, sd) \<Rightarrow> (OpClaim q n 1 # OpComplete (ID row) None # ops, fin, sd))"
      and one: "serves q s1" "State row' = StateCompleted" "Attempt row' = Attempt row + 1"
        "\<forall>j. look s1 j = (if j = ID row then Some row' else look s j)" "ready_jobs (look s1) q = ready_jobs (look s) q - {row}"
      using serving_round [where envs = envs and k = k, OF Cons.prems(1) False _ spec [OF Cons.prems(3)] spec [OF Cons.prems(3)], of reg r c n u] by blast
    have few: "card (ready_jobs (look s1) q) \<le> length rs"
      using Cons.prems(2) row(1) finite_ready [OF Cons.prems(1)] by (simp add: one(5))
    have go: "\<forall>r \<in> set rs. \<not> stop_before r \<and> \<not> stop_waiting r" using Cons.prems(4) by simp
    have well: "\<forall>r \<in> ready_jobs (look s1) q. always_succeeds reg (Kind r) (Payload r) \<and> (\<forall>m. ScheduledAt r \<le> clock (envs m))"
      using Cons.prems(5) by (simp add: one(5))
    from Cons.IH [OF one(1) few Cons.prems(3) go well, of u1 "k + 2"] obtain xs u2 s2 where
      xs: "set xs = ready_jobs (look s) q - {row}" "sorted_wrt (\<lambda>r r'. rank r < rank r') xs"
      and rest: "run (drive envs) reg c q n rs (u1, (s1, k + 2)) =
        (served_calls q n xs @ replicate (length rs - length xs) (OpClaim q n 1), StillRunning, u2, (s2, k + 2 + length xs + length rs))"
      and done_all: "\<forall>r \<in> set xs. \<exists>r'. look s2 (ID r) = Some r' \<and> State r' = StateCompleted \<and> Attempt r' = Attempt r + 1"
      and others: "\<forall>j. j \<notin> ID ` set xs \<longrightarrow> look s2 j = look s1 j"
      unfolding one(5) by blast
    have "ID row \<notin> ID ` set xs" using row(1) look_ID [OF Cons.prems(1)] by (auto simp: xs(1) ready_jobs_def)
    with others one(4) have finished: "look s2 (ID row) = Some row'" by simp
    have "run (drive envs) reg c q n (r # rs) (u, (s, k)) =
        (served_calls q n (row # xs) @ replicate (length (r # rs) - length (row # xs)) (OpClaim q n 1), StillRunning, u2,
         (s2, k + length (row # xs) + length (r # rs)))"
      unfolding round rest by simp
    moreover have "set (row # xs) = ready_jobs (look s) q" using row(1) xs(1) by auto
    moreover have "sorted_wrt (\<lambda>r r'. rank r < rank r') (row # xs)" using row(2) xs by auto
    moreover have "\<forall>r \<in> set (row # xs). \<exists>r'. look s2 (ID r) = Some r' \<and> State r' = StateCompleted \<and> Attempt r' = Attempt r + 1"
      using finished one(2,3) done_all by simp
    moreover have "\<forall>j. j \<notin> ID ` set (row # xs) \<longrightarrow> look s2 j = look s j" using others one(4) by simp
    ultimately show ?thesis by (intro exI [of _ "row # xs"] exI [of _ u2] exI [of _ s2] conjI)
  qed
qed

end


section \<open>The SQL driver\<close>

lemma sql_ready_finite: "finite (ready_jobs (sql_look db) q)"
  by (rule finite_subset [of _ "set (jobs db)"]) (auto simp: ready_jobs_def sql_look_def dest: find_key_SomeD)

lemma sql_claimable_ready:
  assumes "sql_inv db" and "faultless env" and "\<And>r. r \<in> ready_jobs (sql_look db) q \<Longrightarrow> ScheduledAt r \<le> clk env 0"
  shows "claimable d env q db = ready_jobs (sql_look db) q"
  using assms by (auto simp: claimable_def ready_jobs_def sql_look_Some_iff faultless_def skipped_def)

lemma sql_claim_returns:
  assumes "faultless env"
  shows "\<exists>rows. fst (sql_Claim d env q n m db) = Inr rows"
  using assms by (cases d) (simp_all add: sql_Claim_def claimMySQL_def claimTransaction_def claimSkipLocked_def Let_def faultless_def)

lemma sql_claim_first:
  assumes inv: "sql_inv db" and ok: "faultless env" and some: "ready_jobs (sql_look db) q \<noteq> {}"
    and due: "\<And>r. r \<in> ready_jobs (sql_look db) q \<Longrightarrow> ScheduledAt r \<le> clk env 0"
  shows "\<exists>row \<in> ready_jobs (sql_look db) q. (\<forall>r \<in> ready_jobs (sql_look db) q. r \<noteq> row \<longrightarrow> claim_order row < claim_order r) \<and>
    fst (sql_Claim d env q n 1 db) = Inr [sql_claim_row d (clk env 0) n row] \<and>
    (\<forall>j. sql_look (snd (sql_Claim d env q n 1 db)) j = (if j = ID row then Some (sql_claim_row d (clk env 0) n row) else sql_look db j))"
proof -
  note claimable = sql_claimable_ready [OF inv ok due]
  have "least_by claim_order 1 (set (chosen d env q 1 db)) (ready_jobs (sql_look db) q)"
    using chosen_least [OF inv, where d = d and env = env and q = q and m = 1] by (simp add: claimable)
  from least_by_one [OF this some sql_ready_finite] obtain row where
    row: "set (chosen d env q 1 db) = {row}" "row \<in> ready_jobs (sql_look db) q"
      "\<forall>r \<in> ready_jobs (sql_look db) q. r \<noteq> row \<longrightarrow> claim_order row < claim_order r" .
  have "length (chosen d env q 1 db) \<le> 1" by (simp add: chosen_def limit_def)
  with row(1) have chosen: "chosen d env q 1 db = [row]" by (cases "chosen d env q 1 db") auto
  obtain rows where rows: "fst (sql_Claim d env q n 1 db) = Inr rows" using sql_claim_returns [OF ok] by blast
  let ?db = "snd (sql_Claim d env q n 1 db)" and ?row = "sql_claim_row d (clk env 0) n row"
  note upd = sql_Claim_chosen [OF rows zero_less_one, unfolded chosen list.map]
  have mem: "row \<in> set (jobs db)" "sql_look db (ID row) = Some row"
    using row(2) inv by (auto simp: ready_jobs_def sql_look_Some_iff)
  have look: "sql_look ?db j = (if j = ID row then Some ?row else sql_look db j)" for j
  proof -
    have moved: "sql_look ?db j = map_option (\<lambda>r. if ID r = ID row then ?row else r) (sql_look db j)" if "j = ID row \<or> sql_look db j = None"
      using that claim_update_look(1) [OF inv, of "{row}" d "clk env 0" n "[ID row]" j] mem by (auto simp: upd(1))
    moreover have "sql_look ?db j = sql_look db j" if "j \<noteq> ID row" "sql_look db j = Some a" for a
    proof -
      have "ID a \<noteq> ID row" using that inv by (simp add: sql_look_Some_iff)
      then show ?thesis using claim_update_look(1) [OF inv, of "{row}" d "clk env 0" n "[ID row]" j] mem by (simp add: upd(1) that(2))
    qed
    ultimately show ?thesis using mem(2) by (cases "sql_look db j") (auto split: if_splits)
  qed
  have inv': "sql_inv ?db" using sql.inv_exec [OF inv, of "(OpClaim q n 1, env)" d] by simp
  have "filter (\<lambda>r. ID r = ID row) (jobs ?db) = [?row]"
  proof (rule distinct_singleton_list)
    show "distinct (filter (\<lambda>r. ID r = ID row) (jobs ?db))" using inv' by (auto simp: sql_inv_def distinct_map)
    have "r \<in> set (jobs ?db) \<and> ID r = ID row \<longleftrightarrow> r = ?row" for r
      unfolding sql_look_Some_iff [OF inv', symmetric] look by auto
    then show "set (filter (\<lambda>r. ID r = ID row) (jobs ?db)) = {?row}" by auto
  qed
  with upd(2) have "mset rows = {# ?row #}" by (simp add: rows_with_ids_def)
  then have "rows = [?row]" by simp
  with row(2,3) rows look show ?thesis by blast
qed

lemma sql_claim_none:
  assumes inv: "sql_inv db" and ok: "faultless env" and none: "ready_jobs (sql_look db) q = {}"
  shows "fst (sql_Claim d env q n 1 db) = Inr [] \<and> (\<forall>j. sql_look (snd (sql_Claim d env q n 1 db)) j = sql_look db j)"
proof -
  have "claimable d env q db = {}" using sql_claimable_ready [OF inv ok, of q d] none by simp
  then have chosen: "chosen d env q 1 db = []"
    using chosen_least [OF inv, where d = d and env = env and q = q and m = 1] by (simp add: least_by_def)
  obtain rows where rows: "fst (sql_Claim d env q n 1 db) = Inr rows" using sql_claim_returns [OF ok] by blast
  note upd = sql_Claim_chosen [OF rows zero_less_one, unfolded chosen list.map]
  have "rows = []" using upd(2) by (simp add: rows_with_ids_def)
  with rows show ?thesis using claim_update_look(1) [OF inv, of "{}" d "clk env 0" n "[]"] by (simp add: upd(1) option.map_ident)
qed

lemma sql_complete_running:
  assumes inv: "sql_inv db" and ok: "faultless env" and row: "sql_look db i = Some row" "State row = StateRunning"
  shows "\<forall>j. sql_look (snd (sql_Complete env i out db)) j = (if j = i then Some (sql_complete_row (clk env 0) out row) else sql_look db j)"
proof -
  let ?p = "\<lambda>r. ID r = i \<and> State r = StateRunning"
  have mem: "row \<in> set (jobs db)" "ID row = i" using row(1) inv by (auto simp: sql_look_Some_iff)
  then have "count_where ?p (jobs db) \<noteq> 0" using row(2) by (auto simp: count_where_def filter_empty_conv)
  then have "jobs (snd (sql_Complete env i out db)) = update_where ?p (sql_complete_row (clk env 0) out) (jobs db)"
    using ok by (simp add: sql_Complete_def Let_def faultless_def)
  then show ?thesis using row mem
    by (auto simp: sql_look_def find_key_update_where row_simps map_option_case split: option.split dest: find_key_SomeD)
qed

interpretation sql_serves: served_queue "\<lambda>_. sql_inv" sql_look faultless "\<lambda>env. clk env 0" claim_order "sql_driver d" for d
proof unfold_locales
  fix q i k n row r and db :: sql_db and envs :: "nat \<Rightarrow> sql_env"
  assume inv: "sql_inv db"
  show "ID r = i" if "sql_look db i = Some r" using that inv by (simp add: sql_look_Some_iff)
  show "finite (ready_jobs (sql_look db) q)" by (rule sql_ready_finite)
  have inv': "sql_inv (sql_exec d (op, env) db)" if "op_ok op" for op env using sql.inv_exec [OF inv, of "(op, env)" d] that by simp
  assume ok: "faultless (envs k)"
  show "\<exists>row job s'. row \<in> ready_jobs (sql_look db) q \<and> (\<forall>r \<in> ready_jobs (sql_look db) q. r \<noteq> row \<longrightarrow> claim_order row < claim_order r) \<and>
      sql_driver d envs (OpClaim q n 1) (db, k) = (Inr [job], (s', k + 1)) \<and> sql_inv s' \<and> same_job row job \<and> State job = StateRunning \<and>
      Attempt job = Attempt row + 1 \<and> (\<forall>j. sql_look s' j = (if j = ID row then Some job else sql_look db j))"
    if "ready_jobs (sql_look db) q \<noteq> {}" "\<And>r. r \<in> ready_jobs (sql_look db) q \<Longrightarrow> ScheduledAt r \<le> clk (envs k) 0"
  proof -
    from sql_claim_first [OF inv ok that(1), of d n] that(2) obtain row where
      row: "row \<in> ready_jobs (sql_look db) q" "\<forall>r \<in> ready_jobs (sql_look db) q. r \<noteq> row \<longrightarrow> claim_order row < claim_order r"
      and call: "fst (sql_Claim d (envs k) q n 1 db) = Inr [sql_claim_row d (clk (envs k) 0) n row]"
      and look: "\<forall>j. sql_look (snd (sql_Claim d (envs k) q n 1 db)) j = (if j = ID row then Some (sql_claim_row d (clk (envs k) 0) n row) else sql_look db j)"
      by blast
    with inv' [of "OpClaim q n 1" "envs k"] show ?thesis
      by (intro exI [of _ row] exI [of _ "sql_claim_row d (clk (envs k) 0) n row"] exI [of _ "snd (sql_Claim d (envs k) q n 1 db)"])
        (simp add: sql_driver_def same_job_def sql_claim_row_def)
  qed
  show "\<exists>s'. sql_driver d envs (OpClaim q n 1) (db, k) = (Inr [], (s', k + 1)) \<and> sql_inv s' \<and> (\<forall>j. sql_look s' j = sql_look db j)"
    if "ready_jobs (sql_look db) q = {}"
    using sql_claim_none [OF inv ok that, of d n] inv' [of "OpClaim q n 1" "envs k"] by (simp add: sql_driver_def)
  show "\<exists>row' s'. snd (sql_driver d envs (OpComplete i None) (db, k)) = (s', k + 1) \<and> sql_inv s' \<and> State row' = StateCompleted \<and>
      Attempt row' = Attempt row \<and> (\<forall>j. sql_look s' j = (if j = i then Some row' else sql_look db j))"
    if "sql_look db i = Some row" "State row = StateRunning"
    using sql_complete_running [OF inv ok that, of None] inv' [of "OpComplete i None" "envs k"]
    by (intro exI [of _ "sql_complete_row (clk (envs k) 0) None row"]) (simp add: sql_driver_def sql_complete_row_def)
qed


section \<open>The Redis driver\<close>

lemma redis_ready_finite: "finite (ready_jobs (redis_look st) q)"
proof -
  have "finite (dom (DAList.lookup (r_jobs st)))" by (simp add: lookup.rep_eq finite_dom_map_of)
  then have "finite ((\<lambda>i. doc_row (the (get_doc st i))) ` dom (DAList.lookup (r_jobs st)))" by simp
  moreover have "ready_jobs (redis_look st) q \<subseteq> (\<lambda>i. doc_row (the (get_doc st i))) ` dom (DAList.lookup (r_jobs st))"
    by (force simp: ready_jobs_def redis_look_def get_doc_def)
  ultimately show ?thesis by (rule rev_finite_subset)
qed

lemma redis_claimable_ready:
  assumes "\<And>r. r \<in> ready_jobs (redis_look st) q \<Longrightarrow> ScheduledAt r \<le> now"
  shows "redis_claimable now q st = ready_jobs (redis_look st) q"
  using assms unixMicros_mono by (auto simp: redis_claimable_def ready_jobs_def)

text \<open>One document changes, and stays readable.\<close>

lemma readable_queue_update:
  assumes "readable_queue q st" and "redis_inv st'" and "\<And>j. get_doc st' j = (if j = i then Some doc' else get_doc st j)"
    and "Queue (doc_row doc') = q \<Longrightarrow> readable_doc doc'"
  shows "readable_queue q st'"
  using assms by (auto simp: readable_queue_def split: if_splits)

lemma redis_claim_none:
  assumes q: "readable_queue q st" and ok: "redis_calls env" and none: "ready_jobs (redis_look st) q = {}"
  shows "fst (redis_Claim env q n 1 st) = Inr [] \<and> (\<forall>j. get_doc (snd (redis_Claim env q n 1 st)) j = get_doc st j)"
proof -
  let ?now = "r_clk env 0"
  have inv: "redis_inv st" and call: "pre_err env = None" "post_err env = None" using q ok by (simp_all add: readable_queue_def redis_calls_def)
  note rows = taken_rows [OF inv, where now = ?now and q = q]
  have "redis_claimable ?now q st = {}" using redis_claimable_ready [of st q ?now] none by simp
  with rows(2) have "map cand_row (taken ?now q 1 st) = []" unfolding rows(1) [of 1] by (simp add: limit_def)
  then have c: "taken ?now q 1 st = []" by simp
  then have "fst (claimScript ?now q n 1 st) = []" by (simp add: claimScript_taken claim_take_docs del: claim_take.simps)
  moreover have "get_doc (snd (claimScript ?now q n 1 st)) j = get_doc st j" for j
    using arg_cong [where f = e_doc, OF claimScript_entries [of ?now q n 1 st j]] by (simp add: c split: if_splits)
  ultimately show ?thesis by (simp add: redis_Claim_def run_script_def call split_def Let_def)
qed

lemma redis_complete_running:
  assumes ok: "redis_calls env" and doc: "get_doc st i = Some doc" "State (doc_row doc) = StateRunning"
  shows "get_doc (snd (redis_Complete env i None st)) j =
    (if j = i then Some (doc\<lparr>doc_row := redis_complete_row (r_clk env 0) [] (doc_row doc)\<rparr>) else get_doc st j)"
  using ok doc by (simp add: redis_Complete_def finishScript_def found_error_def run_script_def redis_calls_def split_def Let_def)

interpretation redis_serves: served_queue readable_queue redis_look redis_calls "\<lambda>env. r_clk env 0" row_order redis_driver
proof unfold_locales
  fix q i k n row r and st :: redis and envs :: "nat \<Rightarrow> redis_env"
  assume q: "readable_queue q st"
  then have inv: "redis_inv st" by (simp add: readable_queue_def)
  show "ID r = i" if "redis_look st i = Some r" using that entry_okD(1) [OF inv] by (auto simp: redis_look_def)
  show "finite (ready_jobs (redis_look st) q)" by (rule redis_ready_finite)
  have inv': "redis_inv (redis_exec (op, env) st)" if "op_ok op" for op env using redis.inv_exec [OF inv, of "(op, env)"] that by simp
  assume ok: "redis_calls (envs k)"
  let ?claim = "redis_Claim (envs k) q n 1 st" and ?now = "r_clk (envs k) 0"
  have claim_inv: "redis_inv (snd ?claim)" using inv' [of "OpClaim q n 1" "envs k"] by simp
  show "\<exists>row job s'. row \<in> ready_jobs (redis_look st) q \<and> (\<forall>r \<in> ready_jobs (redis_look st) q. r \<noteq> row \<longrightarrow> row_order row < row_order r) \<and>
      redis_driver envs (OpClaim q n 1) (st, k) = (Inr [job], (s', k + 1)) \<and> readable_queue q s' \<and> same_job row job \<and> State job = StateRunning \<and>
      Attempt job = Attempt row + 1 \<and> (\<forall>j. redis_look s' j = (if j = ID row then Some job else redis_look st j))"
    if "ready_jobs (redis_look st) q \<noteq> {}" "\<And>r. r \<in> ready_jobs (redis_look st) q \<Longrightarrow> ScheduledAt r \<le> ?now"
  proof -
    from redis_claim_one [OF q ok, of n] that redis_claimable_ready [of st q ?now] obtain row doc where
      row: "row \<in> ready_jobs (redis_look st) q" "\<forall>r \<in> ready_jobs (redis_look st) q. r \<noteq> row \<longrightarrow> row_order row < row_order r"
      and doc: "get_doc st (ID row) = Some doc" "doc_row doc = row" and call: "fst ?claim = Inr [redis_claim_row ?now n row]"
      and docs: "\<forall>j. get_doc (snd ?claim) j = (if j = ID row then Some (doc\<lparr>doc_row := redis_claim_row ?now n row\<rparr>) else get_doc st j)"
      by auto
    have "readable_doc doc" if "Queue row = q" using q doc that by (auto simp: readable_queue_def)
    then have "readable_queue q (snd ?claim)"
      by (intro readable_queue_update [OF q claim_inv spec [OF docs]]) (simp add: doc(2) readable_doc_def redis_claim_row_def)
    with row call docs show ?thesis
      by (intro exI [of _ row] exI [of _ "redis_claim_row ?now n row"] exI [of _ "snd ?claim"])
        (simp add: redis_driver_def same_job_def redis_claim_row_def redis_look_def)
  qed
  show "\<exists>s'. redis_driver envs (OpClaim q n 1) (st, k) = (Inr [], (s', k + 1)) \<and> readable_queue q s' \<and> (\<forall>j. redis_look s' j = redis_look st j)"
    if "ready_jobs (redis_look st) q = {}"
    using redis_claim_none [OF q ok that, of n] claim_inv q by (simp add: redis_driver_def redis_look_def readable_queue_def)
  show "\<exists>row' s'. snd (redis_driver envs (OpComplete i None) (st, k)) = (s', k + 1) \<and> readable_queue q s' \<and> State row' = StateCompleted \<and>
      Attempt row' = Attempt row \<and> (\<forall>j. redis_look s' j = (if j = i then Some row' else redis_look st j))"
    if row: "redis_look st i = Some row" "State row = StateRunning"
  proof -
    obtain doc where doc: "get_doc st i = Some doc" "doc_row doc = row" using row(1) by (auto simp: redis_look_def)
    note docs = redis_complete_running [OF ok doc(1), unfolded doc(2), OF row(2)]
    have "readable_doc doc" if "Queue row = q" using q doc that by (auto simp: readable_queue_def)
    then have "readable_queue q (snd (redis_Complete (envs k) i None st))"
      by (intro readable_queue_update [OF q _ docs]) (use inv' [of "OpComplete i None" "envs k"] in
        \<open>simp_all add: doc(2) readable_doc_def redis_complete_row_def\<close>)
    then show ?thesis
      by (intro exI [of _ "redis_complete_row ?now [] row"]) (simp add: redis_driver_def docs redis_look_def redis_complete_row_def)
  qed
qed

end
