(* ===== verification/Completion.thy ===== *)
theory Completion
  imports Draining
begin

text \<open>
  From \<^verbatim>\<open>Dispatch\<close> to the report: a store that takes rows and serves its queues, the locale \<open>delivering_store\<close>, over which a dispatched job that succeeds
  is completed by a worker of its queue, once; and the two drivers.
\<close>


section \<open>Stores that deliver\<close>

lemma count_served_calls:
  "count_list (served_calls q n xs @ replicate m (OpClaim q n 1)) (OpComplete i None) = count_list (map ID xs) i"
proof -
  have "count_list (replicate m (OpClaim q n 1)) (OpComplete i None) = 0" by (induction m) simp_all
  then show ?thesis by (induction xs) simp_all
qed

lemma count_list_distinct: "distinct xs \<Longrightarrow> x \<in> set xs \<Longrightarrow> count_list xs x = 1"
  by (induction xs) (auto simp: count_list_0_iff)

locale delivering_store = dispatch_store look inv op_of exec handed issued single batch + served_queue serves look health clock rank drive
  for look :: "'s \<Rightarrow> job_id \<Rightarrow> JobRow option" and inv and op_of :: "'c \<Rightarrow> driver_op" and exec and handed and issued
    and single :: "'e \<Rightarrow> 's single_op" and batch :: "'e \<Rightarrow> 's batch_op"
    and serves :: "queue_name \<Rightarrow> 's \<Rightarrow> bool" and health :: "'e \<Rightarrow> bool" and clock :: "'e \<Rightarrow> time" and rank :: "JobRow \<Rightarrow> 'k::linorder"
    and drive :: "(nat \<Rightarrow> 'e) \<Rightarrow> ('s \<times> nat) driver_call" +
  fixes legible :: "JobRow \<Rightarrow> bool"
  assumes serves_inv: "serves q s \<Longrightarrow> inv s"
    and single_serves: "serves q s \<Longrightarrow> enqueueable row \<Longrightarrow> legible row \<Longrightarrow> single e row s = ((None, row'), s') \<Longrightarrow> serves q s'"
    and legible_ID: "legible (row\<lparr>ID := i\<rparr>) = legible row"
begin

lemma dispatch_serves:
  assumes "serves q s" and sent: "Dispatch (single e) [] cfg benv job opts s = (Inr row, s')" and "legible row"
  shows "serves q s'"
proof -
  obtain built where built: "buildJobRow benv job cfg opts = Inr built"
    using sent by (cases "buildJobRow benv job cfg opts") (simp_all add: Dispatch_def)
  have "single e built s = ((None, row), s')"
    using sent by (auto simp: Dispatch_def built enqueue_def send_one_def split: prod.splits option.splits)
  moreover from single_stores [OF serves_inv [OF assms(1)] buildJobRow_enqueueable [OF built] this] have "row = built\<lparr>ID := ID row\<rparr>" by blast
  then have "legible built" using assms(3) legible_ID by metis
  ultimately show ?thesis using single_serves [OF assms(1) buildJobRow_enqueueable [OF built]] by blast
qed

text \<open>A dispatched job with an attempt is ready, next to those that were.\<close>

lemma dispatch_ready:
  assumes "inv s" and sent: "Dispatch (single e) [] cfg benv job opts s = (Inr row, s')" and "0 < MaxAttempts row"
  obtains stored where "look s' (ID row) = Some stored" and "ID stored = ID row" and "Attempt stored = 0"
    and "Kind stored = j_kind job" and "j_payload job = Inr (Payload stored)"
    and "ready_jobs (look s') (Queue row) = insert stored (ready_jobs (look s) (Queue row))"
proof -
  from dispatched_waits [OF assms(1,2)] obtain stored where
    stored: "look s (ID row) = None" "look s' (ID row) = Some stored" "ID stored = ID row" "Attempt stored = 0" "Queue stored = Queue row"
      "State stored = StateAvailable \<or> State stored = StateScheduled" "MaxAttempts stored = MaxAttempts row"
      "Kind stored = j_kind job" "j_payload job = Inr (Payload stored)"
      "\<forall>j. j \<noteq> ID row \<longrightarrow> look s' j = look s j" by blast
  have "ready_jobs (look s') (Queue row) = insert stored (ready_jobs (look s) (Queue row))"
    using ready_jobs_join [of "look s" "ID row" "look s'" stored "Queue row"] stored(1,2,4-7,10) assms(3) by (auto simp: waiting_def)
  with stored that show ?thesis by blast
qed

text \<open>Dispatched into an empty queue, it is the only one.\<close>

lemma first_dispatch:
  assumes "inv s" and sent: "Dispatch (single e) [] cfg benv job opts s = (Inr row, s')" and empty: "ready_jobs (look s) (Queue row) = {}"
    and success: "\<And>payload. always_succeeds reg (j_kind job) payload" and due: "\<And>m. ScheduledAt row \<le> clock (envs m)"
  shows "\<forall>r \<in> ready_jobs (look s') (Queue row). always_succeeds reg (Kind r) (Payload r) \<and> (\<forall>m. ScheduledAt r \<le> clock (envs m))"
proof -
  from dispatched_waits [OF assms(1) sent] obtain stored where
    stored: "look s (ID row) = None" "look s' (ID row) = Some stored" "Kind stored = j_kind job" "ScheduledAt stored = ScheduledAt row"
      "\<And>j. j \<noteq> ID row \<Longrightarrow> look s' j = look s j" by blast
  have "ready_jobs (look s') (Queue row) \<subseteq> {stored}"
    using ready_jobs_join [of "look s" "ID row" "look s'" stored "Queue row"] stored(1,2,5) empty by auto
  with stored(3,4) success due show ?thesis by auto
qed

lemma dispatched_completes:
  assumes "serves (Queue row) s" and sent: "Dispatch (single e) [] cfg benv job opts s = (Inr row, s')" and "legible row" and "0 < MaxAttempts row"
    and well: "\<forall>r \<in> ready_jobs (look s') (Queue row). always_succeeds reg (Kind r) (Payload r) \<and> (\<forall>m. ScheduledAt r \<le> clock (envs m))"
    and enough: "card (ready_jobs (look s) (Queue row)) < length rs" and ok: "\<forall>m. health (envs m)"
    and go: "\<forall>r \<in> set rs. \<not> stop_before r \<and> \<not> stop_waiting r"
  shows "\<exists>ops u' s'' k' fin. run (drive envs) reg c (Queue row) n rs (u, (s', k)) = (ops, StillRunning, u', (s'', k')) \<and>
    count_list ops (OpComplete (ID row) None) = 1 \<and> look s'' (ID row) = Some fin \<and> State fin = StateCompleted \<and> Attempt fin = 1"
proof -
  have serves': "serves (Queue row) s'" using dispatch_serves [OF assms(1,2,3)] .
  obtain stored where stored: "look s' (ID row) = Some stored" "ID stored = ID row" "Attempt stored = 0"
    "ready_jobs (look s') (Queue row) = insert stored (ready_jobs (look s) (Queue row))"
    using dispatch_ready [OF serves_inv [OF assms(1)] sent assms(4)] by metis
  have "card (ready_jobs (look s') (Queue row)) \<le> length rs"
    using enough le_trans [OF card_insert_le_m1 [of "length rs" "ready_jobs (look s) (Queue row)" stored]] by (cases "length rs") (auto simp: stored(4))
  from drains [OF serves' this ok go well, of c n u k] obtain xs u' s'' where
    xs: "set xs = ready_jobs (look s') (Queue row)" "sorted_wrt (\<lambda>r r'. rank r < rank r') xs"
    and ran: "run (drive envs) reg c (Queue row) n rs (u, (s', k)) =
      (served_calls (Queue row) n xs @ replicate (length rs - length xs) (OpClaim (Queue row) n 1), StillRunning, u', (s'', k + length xs + length rs))"
    and completed: "\<forall>r \<in> set xs. \<exists>r'. look s'' (ID r) = Some r' \<and> State r' = StateCompleted \<and> Attempt r' = Attempt r + 1" by blast
  have mem: "stored \<in> set xs" by (simp add: xs(1) stored(4))
  have "distinct xs" using xs(2) by (auto simp: sorted_wrt_iff_nth_less distinct_conv_nth) (metis linorder_neqE_nat order_less_irrefl)
  moreover have "inj_on ID (set xs)" using look_ID [OF serves'] by (auto simp: xs(1) ready_jobs_def inj_on_def)
  ultimately have "distinct (map ID xs)" by (simp add: distinct_map)
  then have once: "count_list (map ID xs) (ID row) = 1"
    by (rule count_list_distinct) (simp only: set_map stored(2) [symmetric] mem imageI)
  obtain fin where fin: "look s'' (ID row) = Some fin" "State fin = StateCompleted" "Attempt fin = 1"
    using completed mem stored(2,3) by fastforce
  have "count_list (served_calls (Queue row) n xs @ replicate (length rs - length xs) (OpClaim (Queue row) n 1)) (OpComplete (ID row) None) = 1"
    by (simp only: count_served_calls once)
  with ran fin show ?thesis by blast
qed

end


section \<open>The two drivers\<close>

interpretation sql_delivers: delivering_store sql_look sql_inv fst "sql_exec d" "sql_handed d" last_id "sql_single d'" "sql_batch d'"
    "\<lambda>_. sql_inv" faultless "\<lambda>env. clk env 0" claim_order "sql_driver d" "\<lambda>_. True" for d d'
  by unfold_locales (use sql_single_stores in blast)+

text \<open>Redis reads a row back when its tags are not an empty list.\<close>

lemma redis_single_readable:
  assumes q: "readable_queue q st" and ok: "enqueueable row" and tags: "Tags row \<noteq> Some []" and sent: "redis_single env row st = ((None, row'), st')"
  shows "readable_queue q st'"
proof -
  have inv: "redis_inv st" using q by (simp add: readable_queue_def)
  obtain os where call: "redis_EnqueueBatch env (map Some [row]) st = ((None, os), st')"
    using sent by (auto simp: redis_single_def redis_Enqueue_def split: prod.splits)
  from redis_EnqueueBatch_success [OF call] have st': "st' = snd (enqueue_one row st)" by (simp add: split_def Let_def)
  have docs: "get_doc st' j = (if j = r_last st + 1 then Some (enqueued_doc (r_last st + 1) row) else get_doc st j)" for j
    using arg_cong [where f = e_doc, OF enqueue_one_entries [of row st j]] by (simp add: st')
  have "readable_doc (enqueued_doc (r_last st + 1) row)" using tags by (auto simp: readable_doc_def enqueued_doc_def marshalled_def)
  then show ?thesis using redis_single_stores [OF inv ok sent] by (intro readable_queue_update [OF q _ docs]) simp_all
qed

interpretation redis_delivers: delivering_store redis_look redis_inv fst redis_exec redis_handed r_last redis_single redis_batch
    readable_queue redis_calls "\<lambda>env. r_clk env 0" row_order redis_driver "\<lambda>row. Tags row \<noteq> Some []"
  by unfold_locales (simp add: readable_queue_def, rule redis_single_readable, simp_all)


section \<open>Queues are drained\<close>

definition done_job :: "('s, 'p) JobObj" where
  "done_job = quiet_job\<lparr>h_Handle := (\<lambda>c s. (Ret None, s))\<rparr>"

lemma done_job_succeeds: "always_succeeds (one_job done_job) ''mail'' payload"
  by (simp add: always_succeeds_def worker_decodeJob_def one_job_def GetRegisteredJob_def done_job_def quiet_job_def run_recovered_def
      collectMiddlewares_def runFunc_def run_hook_def)

lemma failing_rounds_go: "\<forall>r \<in> set failing_rounds. \<not> stop_before r \<and> \<not> stop_waiting r" "length failing_rounds = 3"
  by (simp_all add: failing_rounds_def)

lemma two_rows_ready: "ready_jobs (sql_look two_rows) ''default'' = {sample_row 1 StateAvailable 0 5, sample_row 2 StateAvailable 7 50}"
proof -
  have "(\<exists>i. sql_look two_rows i = Some r) \<longleftrightarrow> r \<in> set (jobs two_rows)" for r
    using sql_look_Some_iff [OF sample_inv] by (auto simp: two_rows_def)
  then have "ready_jobs (sql_look two_rows) ''default'' = {r \<in> set (jobs two_rows). Queue r = ''default'' \<and> waiting (State r) \<and> Attempt r < MaxAttempts r}"
    by (simp only: ready_jobs_def)
  moreover have "set (jobs two_rows) = {sample_row 1 StateAvailable 0 5, sample_row 2 StateAvailable 7 50}" by (simp add: two_rows_def sample_db_def)
  moreover have "Queue (sample_row i st p t) = ''default''" "State (sample_row i st p t) = st"
    "Attempt (sample_row i st p t) < MaxAttempts (sample_row i st p t)" for i st p t by (simp_all add: sample_row_def zero_row_def)
  ultimately show ?thesis by (auto simp: waiting_def)
qed

lemma two_mails_ready:
  "ready_jobs (redis_look two_mails) ''default'' =
     {doc_row (enqueued_doc 1 (Redis_Properties.mail_row ''a'' 0)), doc_row (enqueued_doc 2 (Redis_Properties.mail_row ''b'' 7))}"
proof -
  have "(\<exists>i. redis_look two_mails i = Some r) \<longleftrightarrow>
      r \<in> {doc_row (enqueued_doc 1 (Redis_Properties.mail_row ''a'' 0)), doc_row (enqueued_doc 2 (Redis_Properties.mail_row ''b'' 7))}" for r
  proof
    assume "\<exists>i. redis_look two_mails i = Some r"
    then obtain i where i: "redis_look two_mails i = Some r" ..
    then have "i \<in> {1, 2}" using two_mails_docs(3) [of i] by (auto simp: redis_look_def)
    with i show "r \<in> {doc_row (enqueued_doc 1 (Redis_Properties.mail_row ''a'' 0)), doc_row (enqueued_doc 2 (Redis_Properties.mail_row ''b'' 7))}"
      using two_mails_docs(1,2) by (auto simp: redis_look_def)
  next
    assume "r \<in> {doc_row (enqueued_doc 1 (Redis_Properties.mail_row ''a'' 0)), doc_row (enqueued_doc 2 (Redis_Properties.mail_row ''b'' 7))}"
    then have "redis_look two_mails 1 = Some r \<or> redis_look two_mails 2 = Some r"
      using two_mails_docs(1,2) by (auto simp: redis_look_def)
    then show "\<exists>i. redis_look two_mails i = Some r" by blast
  qed
  then show ?thesis by (auto simp: ready_jobs_def enqueued_doc_def waiting_def)
qed

lemma two_mails_readable: "readable_queue ''default'' two_mails"
proof -
  have "readable_doc doc" if "get_doc two_mails i = Some doc" for i doc
  proof -
    have "i \<in> {1, 2}" using two_mails_docs(3) [of i] that by auto
    then have "doc \<in> {enqueued_doc 1 (Redis_Properties.mail_row ''a'' 0), enqueued_doc 2 (Redis_Properties.mail_row ''b'' 7)}"
      using that two_mails_docs(1,2) by auto
    then show ?thesis by (auto simp: readable_doc_def enqueued_doc_def marshalled_def Redis_Properties.mail_row_def zero_row_def)
  qed
  then show ?thesis by (simp add: readable_queue_def two_mails_inv)
qed

text \<open>
  Property C1. A worker drains its queue. When every job that a claim of the queue may take succeeds and is due, a worker with at least as many rounds as there are such jobs claims and
  completes each of them exactly once, in the order of priority, scheduled time and id (on Redis the time in microseconds), and only asks for work afterwards; each is then stored as completed, one
  attempt later, and no other job has changed. So for both drivers, whose calls must not fail; on Redis the documents of the queue must decode.\<close>

theorem worker_drains_its_queue:
  assumes "sql_inv db" and "card (ready_jobs (sql_look db) q) \<le> length rs" and "\<forall>m. faultless (envs m)"
    and "\<forall>r \<in> set rs. \<not> stop_before r \<and> \<not> stop_waiting r"
    and "\<forall>r \<in> ready_jobs (sql_look db) q. always_succeeds reg (Kind r) (Payload r) \<and> (\<forall>m. ScheduledAt r \<le> clk (envs m) 0)"
    and "readable_queue q st" and "card (ready_jobs (redis_look st) q) \<le> length rs" and "\<forall>m. redis_calls (renvs m)"
    and "\<forall>r \<in> ready_jobs (redis_look st) q. always_succeeds reg (Kind r) (Payload r) \<and> (\<forall>m. ScheduledAt r \<le> r_clk (renvs m) 0)"
  shows "(\<exists>xs u' db' k'. set xs = ready_jobs (sql_look db) q \<and> sorted_wrt (\<lambda>r r'. claim_order r < claim_order r') xs \<and>
      run (sql_driver d envs) reg c q n rs (u, (db, k)) =
        (served_calls q n xs @ replicate (length rs - length xs) (OpClaim q n 1), StillRunning, u', (db', k')) \<and>
      (\<forall>r \<in> set xs. \<exists>r'. sql_look db' (ID r) = Some r' \<and> State r' = StateCompleted \<and> Attempt r' = Attempt r + 1) \<and>
      (\<forall>j. j \<notin> ID ` set xs \<longrightarrow> sql_look db' j = sql_look db j)) \<and>
    (\<exists>xs u' st' k'. set xs = ready_jobs (redis_look st) q \<and> sorted_wrt (\<lambda>r r'. row_order r < row_order r') xs \<and>
      run (redis_driver renvs) reg c q n rs (u, (st, i)) =
        (served_calls q n xs @ replicate (length rs - length xs) (OpClaim q n 1), StillRunning, u', (st', k')) \<and>
      (\<forall>r \<in> set xs. \<exists>r'. redis_look st' (ID r) = Some r' \<and> State r' = StateCompleted \<and> Attempt r' = Attempt r + 1) \<and>
      (\<forall>j. j \<notin> ID ` set xs \<longrightarrow> redis_look st' j = redis_look st j))"
  using sql_serves.drains [OF assms(1-5), of d c n u k] redis_serves.drains [OF assms(6-8,4,9), of c n u i]
  by (intro conjI) blast+

theorem worker_drains_its_queue_witness:
  "(\<exists>ops u' db' k' a b. run (sql_driver SQLite (\<lambda>_. calm)) (one_job done_job) no_ctx ''default'' ''n1'' failing_rounds ((), (two_rows, 0)) =
      (ops, StillRunning, u', (db', k')) \<and>
     sql_look db' 1 = Some a \<and> State a = StateCompleted \<and> sql_look db' 2 = Some b \<and> State b = StateCompleted) \<and>
   (\<exists>ops u' st' k' a b. run (redis_driver (\<lambda>_. redis_calm)) (one_job done_job) no_ctx ''default'' ''n1'' failing_rounds ((), (two_mails, 0)) =
      (ops, StillRunning, u', (st', k')) \<and>
     redis_look st' 1 = Some a \<and> State a = StateCompleted \<and> redis_look st' 2 = Some b \<and> State b = StateCompleted)"
proof -
  have mail_kind: "Kind (Redis_Properties.mail_row u p) = ''mail''" for u p by (simp add: Redis_Properties.mail_row_def)
  have pair: "card {a, b} \<le> length failing_rounds" for a b :: JobRow by (simp add: card_insert_if failing_rounds_go(2))
  have sql: "card (ready_jobs (sql_look two_rows) ''default'') \<le> length failing_rounds" "\<forall>m :: nat. faultless calm"
    "\<forall>r \<in> ready_jobs (sql_look two_rows) ''default''. always_succeeds (one_job done_job) (Kind r) (Payload r) \<and> (\<forall>m :: nat. ScheduledAt r \<le> clk calm 0)"
    using pair by (simp_all add: two_rows_ready done_job_succeeds sample_row_def calm_def faultless_def)
  have inv: "sql_inv two_rows" using sample_inv by (simp add: two_rows_def)
  have redis: "card (ready_jobs (redis_look two_mails) ''default'') \<le> length failing_rounds" "\<forall>m :: nat. redis_calls redis_calm"
    "\<forall>r \<in> ready_jobs (redis_look two_mails) ''default''. always_succeeds (one_job done_job) (Kind r) (Payload r) \<and> (\<forall>m :: nat. ScheduledAt r \<le> r_clk redis_calm 0)"
    using pair by (simp_all add: two_mails_ready done_job_succeeds redis_calls_def redis_calm_def enqueued_doc_def marshalled_def mail_kind)
  from worker_drains_its_queue [where envs = "\<lambda>_. calm" and renvs = "\<lambda>_. redis_calm",
      OF inv sql(1,2) failing_rounds_go(1) sql(3) two_mails_readable redis, of SQLite no_ctx "''n1''" "()" 0 0]
  show ?thesis
    by (auto simp: two_rows_ready two_mails_ready sample_row_def enqueued_doc_def)
qed


section \<open>A dispatched job completes\<close>


lemma no_jobs_ready: "ready_jobs (sql_look (sample_db [])) q = {}" "ready_jobs (redis_look redis_empty) q = {}"
  by (simp_all add: ready_jobs_def sql_look_def sample_db_def redis_look_def redis_empty_def get_doc_def)


end
