(* ===== verification/Scheduled.thy ===== *)
theory Scheduled
  imports Completion Scheduler_Properties
begin

text \<open>
  From a schedule to the report: an entry of the cron library that fires dispatches its job into a store, and a worker of that queue completes it, over any \<open>delivering_store\<close> and so over
  both drivers.
\<close>


section \<open>What a firing does to the store\<close>

lemma fire_dispatches:
  assumes "entries lib (sch_cron sch) e = Some sj" and "sch_ctx sch \<noteq> Some True"
  shows "fst (fire lib Enqueue mws cfg fenv e sch (d, obs)) =
    snd (Dispatch (Enqueue False) mws cfg (f_build fenv) (sj_Job sj) (OnQueue (sj_Queue sj) # sj_Opts sj) d)"
proof -
  have "(case sch_ctx sch of None \<Rightarrow> False | Some b \<Rightarrow> b) = False" using assms(2) by (cases "sch_ctx sch") auto
  then show ?thesis using assms(1) by (simp add: fire_def dispatchJob_def Let_def split: prod.split)
qed

context delivering_store
begin

lemma fired_completes:
  assumes entry: "entries lib (sch_cron sch) i = Some sj" "sch_ctx sch \<noteq> Some True"
    and sent: "fst (Dispatch (single e) [] cfg (f_build fenv) (sj_Job sj) (OnQueue (sj_Queue sj) # sj_Opts sj) s) = Inr row"
    and fired: "fire lib (\<lambda>ended. if ended then gone else single e) [] cfg fenv i sch (s, obs) = (s', obs')"
    and rest: "serves (Queue row) s" "legible row" "0 < MaxAttempts row"
      "\<forall>r \<in> ready_jobs (look s') (Queue row). always_succeeds reg (Kind r) (Payload r) \<and> (\<forall>m. ScheduledAt r \<le> clock (envs m))"
      "card (ready_jobs (look s) (Queue row)) < length rs" "\<forall>m. health (envs m)" "\<forall>r \<in> set rs. \<not> stop_before r \<and> \<not> stop_waiting r"
  shows "\<exists>ops u' s'' k' fin. run (drive envs) reg c (Queue row) n rs (u, (s', k)) = (ops, StillRunning, u', (s'', k')) \<and>
    count_list ops (OpComplete (ID row) None) = 1 \<and> look s'' (ID row) = Some fin \<and> State fin = StateCompleted \<and> Attempt fin = 1"
proof -
  have "s' = snd (Dispatch (single e) [] cfg (f_build fenv) (sj_Job sj) (OnQueue (sj_Queue sj) # sj_Opts sj) s)"
    using fire_dispatches [OF entry, of "\<lambda>ended. if ended then gone else single e" "[]" cfg fenv s obs] fired by simp
  with sent have "Dispatch (single e) [] cfg (f_build fenv) (sj_Job sj) (OnQueue (sj_Queue sj) # sj_Opts sj) s = (Inr row, s')"
    by (simp add: prod_eq_iff)
  from dispatched_completes [OF rest(1) this rest(2-7)] show ?thesis .
qed

end


section \<open>A listed schedule\<close>


definition mail_schedule :: ScheduledJob where
  "mail_schedule = nightly\<lparr>sj_Queue := ''mails'', sj_Job := report_job\<lparr>j_kind := ''mail''\<rparr>\<rparr>"

definition one_schedule :: "((entry_id \<times> ScheduledJob) list, unit) scheduler" where
  "one_schedule = fold (sched_exec counting_cron) [OpRegister mail_schedule, OpStart False] (sched_New [])"


end
