(* ===== verification/Registry.thy ===== *)
theory Registry
  imports Coordination Supervisor_Properties
begin

text \<open>
  The node registry over time: sequences of registry calls by any nodes, on the two drivers. A node that a registry does not know stays unknown until it registers, and the
  loops of the supervisor and the coordinator only beat; the drivers differ in what they forget.
\<close>


section \<open>Registries\<close>

datatype registry_call = RRegister NodeInfo duration | RDeregister node_id | RHeartbeat node_id duration | RList

fun registers :: "node_id \<Rightarrow> registry_call \<Rightarrow> bool" where
  "registers n (RRegister node _) = (ni_ID node = n)"
| "registers n _ = False"

fun deregisters :: "node_id \<Rightarrow> registry_call \<Rightarrow> bool" where
  "deregisters n (RDeregister m) = (m = n)"
| "deregisters n _ = False"

text \<open>\<open>known s n t\<close> says that a heartbeat of \<open>n\<close> at instant \<open>t\<close> finds the node.\<close>

locale node_registry =
  fixes exec :: "registry_call \<times> 'e \<Rightarrow> 's \<Rightarrow> 's" and known :: "'s \<Rightarrow> node_id \<Rightarrow> int \<Rightarrow> bool" and inv :: "'s \<Rightarrow> bool" and instant :: "'e \<Rightarrow> int"
  assumes inv_exec: "inv s \<Longrightarrow> inv (exec c s)"
    and unknown_later: "\<not> known s n t \<Longrightarrow> t \<le> t' \<Longrightarrow> \<not> known s n t'"
    and unknown_stays: "\<not> known s n (instant (snd c)) \<Longrightarrow> \<not> registers n (fst c) \<Longrightarrow> instant (snd c) \<le> t \<Longrightarrow> \<not> known (exec c s) n t"
begin

lemma inv_calls: "inv s \<Longrightarrow> inv (fold exec cs s)"
  by (induction cs arbitrary: s) (simp_all add: inv_exec)

lemma lost:
  assumes "\<not> known s n t" and "sorted (t # map (instant \<circ> snd) cs @ [t'])" and "\<forall>c \<in> set cs. \<not> registers n (fst c)"
  shows "\<not> known (fold exec cs s) n t'"
  using assms
proof (induction cs arbitrary: s t)
  case Nil
  then show ?case using unknown_later [of s n t t'] by simp
next
  case (Cons c cs)
  have "\<not> known (exec c s) n (instant (snd c))"
    using Cons.prems unknown_later [of s n t "instant (snd c)"] by (intro unknown_stays) simp_all
  then have "\<not> known (fold exec cs (exec c s)) n t'" by (rule Cons.IH) (use Cons.prems in auto)
  then show ?case by simp
qed

end

text \<open>A registry that keeps what it knows until it is told otherwise.\<close>

locale lasting_registry = node_registry exec known inv instant
  for exec :: "registry_call \<times> 'e \<Rightarrow> 's \<Rightarrow> 's" and known and inv and instant +
  assumes known_stays: "known s n t \<Longrightarrow> \<not> deregisters n (fst c) \<Longrightarrow> known (exec c s) n t'"
begin

lemma kept: "known s n t \<Longrightarrow> \<forall>c \<in> set cs. \<not> deregisters n (fst c) \<Longrightarrow> known (fold exec cs s) n t"
  by (induction cs arbitrary: s) (simp_all add: known_stays [of _ _ t])

end


section \<open>The two drivers\<close>

fun redis_registry :: "registry_call \<times> cluster_env \<Rightarrow> redis_keys \<Rightarrow> redis_keys" where
  "redis_registry (RRegister node ttl, e) st = snd (redis_RegisterNode e node ttl st)"
| "redis_registry (RDeregister n, e) st = snd (redis_DeregisterNode e n st)"
| "redis_registry (RHeartbeat n ttl, e) st = snd (redis_Heartbeat e n ttl st)"
| "redis_registry (RList, e) st = snd (redis_ListNodes e st)"

fun sql_registry :: "Dialect \<Rightarrow> registry_call \<times> sql_env \<Rightarrow> sql_db \<Rightarrow> sql_db" where
  "sql_registry d (RRegister node ttl, e) db = snd (sql_RegisterNode d e node ttl db)"
| "sql_registry d (RDeregister n, e) db = snd (sql_DeregisterNode e n db)"
| "sql_registry d (RHeartbeat n ttl, e) db = snd (sql_Heartbeat e n ttl db)"
| "sql_registry d (RList, e) db = db"

text \<open>A node's key holds that node.\<close>

definition keys_ok :: "redis_keys \<Rightarrow> bool" where
  "keys_ok st \<longleftrightarrow> (\<forall>n node x. k_node st n = Some (node, x) \<longrightarrow> ni_ID node = n)"

definition key_lives :: "redis_keys \<Rightarrow> node_id \<Rightarrow> int \<Rightarrow> bool" where
  "key_lives st n t \<longleftrightarrow> live t (k_node st n) \<noteq> None"

definition row_stands :: "sql_db \<Rightarrow> node_id \<Rightarrow> int \<Rightarrow> bool" where
  "row_stands db n t \<longleftrightarrow> n \<in> ni_ID ` set (nodes db)"

lemma live_None [simp]: "live t None = None"
  by (simp add: live_def)

lemma live_later: "live t entry = None \<Longrightarrow> t \<le> t' \<Longrightarrow> live t' entry = None"
  by (auto simp: live_def split: option.splits if_splits)

lemmas registry_defs = redis_RegisterNode_def redis_DeregisterNode_def redis_Heartbeat_def redis_ListNodes_def run_cluster_def
  registerNodeScript_def heartbeatScript_def

lemma redis_registry_ok: "keys_ok st \<Longrightarrow> keys_ok (redis_registry c st)"
  by (induction c st rule: redis_registry.induct)
    (auto simp: keys_ok_def registry_defs live_def Let_def split: option.splits sum.splits prod.splits if_splits)

lemma redis_registry_unknown:
  "\<not> key_lives st n (srv_ms (snd c)) \<Longrightarrow> \<not> registers n (fst c) \<Longrightarrow> srv_ms (snd c) \<le> t \<Longrightarrow> \<not> key_lives (redis_registry c st) n t"
  by (induction c st rule: redis_registry.induct)
    (auto simp: key_lives_def registry_defs Let_def dest: live_later split: option.splits sum.splits prod.splits if_splits)

interpretation redis_nodes: node_registry redis_registry key_lives keys_ok srv_ms
  by unfold_locales (use redis_registry_ok redis_registry_unknown in \<open>auto simp: key_lives_def dest: live_later\<close>)

lemma ids_update_where: "(\<And>r. p r \<Longrightarrow> ni_ID (f r) = ni_ID r) \<Longrightarrow> ni_ID ` set (update_where p f xs) = ni_ID ` set xs"
  using map_update_where [of p ni_ID f xs] by (simp flip: set_map)

lemma sql_registry_ids:
  "ni_ID ` set (nodes (sql_registry d c db)) = ni_ID ` set (nodes db) \<or>
   (\<exists>n. registers n (fst c) \<and> ni_ID ` set (nodes (sql_registry d c db)) = insert n (ni_ID ` set (nodes db))) \<or>
   (\<exists>n. deregisters n (fst c) \<and> ni_ID ` set (nodes (sql_registry d c db)) = ni_ID ` set (nodes db) - {n})"
proof (induction d c db rule: sql_registry.induct)
  case (1 d node ttl e db)
  have "ni_ID (stored_node d (clk e 0) node) = ni_ID node" by (simp add: stored_node_def)
  then show ?case by (auto simp: sql_RegisterNode_def Let_def ids_update_where split: option.split)
next
  case (2 d n e db)
  then show ?case by (auto simp: sql_DeregisterNode_def split: option.split)
next
  case (3 d n ttl e db)
  then show ?case by (simp add: sql_Heartbeat_def Let_def ids_update_where split: option.split)
qed simp

lemma registers_inj: "registers n c \<Longrightarrow> registers m c \<Longrightarrow> n = m" "deregisters n c \<Longrightarrow> deregisters m c \<Longrightarrow> n = m"
  by (cases c; simp)+

interpretation sql_nodes: lasting_registry "sql_registry d" row_stands "\<lambda>_. True" env_instant for d
proof unfold_locales
  fix db :: sql_db and n t t' and c :: "registry_call \<times> sql_env"
  show "\<not> row_stands (sql_registry d c db) n t" if "\<not> row_stands db n (env_instant (snd c))" "\<not> registers n (fst c)"
    using that sql_registry_ids [of d c db] unfolding row_stands_def by auto
  show "row_stands (sql_registry d c db) n t'" if "row_stands db n t" "\<not> deregisters n (fst c)"
    using that sql_registry_ids [of d c db] unfolding row_stands_def by auto
qed (simp_all add: row_stands_def)


section \<open>A node that lapses\<close>

text \<open>The ticks of a supervisor only beat: with its key gone they leave the registry as it is.\<close>

lemma lapsed_autoscale: "s_driver (doAutoscale node (redis_node_driver env cenv) qs s) = s_driver s"
  by (induction node "redis_node_driver env cenv" qs s rule: doAutoscale.induct)
    (auto simp: redis_node_driver_def Let_def split: prod.splits sum.splits)

lemma redis_node_driver_sel:
  "nd_Heartbeat (redis_node_driver env cenv) n ttl = on_keys (redis_Heartbeat cenv n ttl)"
  "nd_RequeueStale (redis_node_driver env cenv) timeout = on_jobs (redis_RequeueStale env timeout)"
  "nd_Prune (redis_node_driver env cenv) before sts = on_jobs (redis_Prune env before sts)"
  by (simp_all add: redis_node_driver_def)

lemma lapsed_tick:
  assumes "\<not> key_lives (snd (s_driver s)) node (srv_ms cenv)"
  shows "snd (s_driver (sup_tick node (redis_node_driver env cenv) cfg tk s)) = snd (s_driver s)"
  using assms
  by (cases tk) (auto simp: lapsed_autoscale doHeartbeat_def doRequeue_def doPrune_def redis_node_driver_sel on_keys_def on_jobs_def key_lives_def
      redis_Heartbeat_def run_cluster_def heartbeatScript_def split: prod.splits option.splits)

lemma lapsed_ticks:
  assumes "\<not> key_lives (snd (s_driver s)) node t" and "list_all (\<lambda>((env, cenv), tk). t \<le> srv_ms cenv) ticks"
  shows "snd (s_driver (fold (\<lambda>((env, cenv), tk). sup_tick node (redis_node_driver env cenv) cfg tk) ticks s)) = snd (s_driver s)"
  using assms
proof (induction ticks arbitrary: s)
  case (Cons tick ticks)
  obtain env cenv tk where tick: "tick = ((env, cenv), tk)" by (metis prod.exhaust)
  have "\<not> key_lives (snd (s_driver s)) node (srv_ms cenv)"
    using Cons.prems redis_nodes.unknown_later [of "snd (s_driver s)" node t "srv_ms cenv"] by (simp add: tick)
  from lapsed_tick [OF this, of env cfg tk] Cons show ?case by (simp add: tick)
qed simp

lemma listed_keys:
  assumes "keys_ok st" and "c_pre env = None" and "\<forall>k. c_read env k = None"
  shows "\<exists>ns. fst (redis_ListNodes env st) = Inr ns \<and> (\<forall>node \<in> set ns. key_lives st (ni_ID node) (srv_ms env))"
proof -
  obtain stale where "read_nodes env 0 (k_nodes st) st =
    Inr (map (\<lambda>n. the (live (srv_ms env) (k_node st n))) (filter (\<lambda>n. live (srv_ms env) (k_node st n) \<noteq> None) (k_nodes st)), stale)"
    using read_nodes_found [of env] assms(3) by blast
  moreover have "ni_ID node = n" if "live (srv_ms env) (k_node st n) = Some node" for n node
    using that assms(1) by (auto simp: keys_ok_def live_def split: option.splits if_splits)
  ultimately show ?thesis using assms(2) by (auto simp: redis_ListNodes_def key_lives_def)
qed

lemma in_image_filter:
  assumes "n \<in> f ` A" and "\<And>r. r \<in> A \<Longrightarrow> f r = n \<Longrightarrow> g r = c"
  shows "n \<in> f ` {r \<in> A. P (g r)} \<longleftrightarrow> P c"
  using assms by blast

lemma standing_row_beats:
  assumes "row_stands db n t" and "sql_healthy env" and "sql_healthy env'"
  shows "case sql_Heartbeat env n ttl db of (err, db') \<Rightarrow>
    err = None \<and> (\<exists>ns. sql_ListNodes env' db' = Inr ns \<and> (n \<in> ni_ID ` set ns \<longleftrightarrow> clk env' 0 < clk env 0 + NodeLivenessWindow))"
proof -
  define ns where "ns = update_where (\<lambda>r. ni_ID r = n) (\<lambda>r. r\<lparr>ni_LastHeartbeat := clk env 0\<rparr>) (nodes db)"
  have none: "db_err env k = None" "db_err env' k = None" for k using assms(2,3) by (simp_all add: sql_healthy_def)
  have mem: "n \<in> ni_ID ` set (nodes db)" using assms(1) by (simp add: row_stands_def)
  then have "count_where (\<lambda>r. ni_ID r = n) (nodes db) \<noteq> 0" unfolding count_where_0_iff by blast
  then have call: "sql_Heartbeat env n ttl db = (None, db\<lparr>nodes := ns\<rparr>)"
    by (simp only: sql_Heartbeat_def none Let_def option.case if_False ns_def)
  have beat: "ni_LastHeartbeat r = clk env 0" if "r \<in> set ns" "ni_ID r = n" for r
  proof -
    from that(1) obtain r0 where "r = (if ni_ID r0 = n then r0\<lparr>ni_LastHeartbeat := clk env 0\<rparr> else r0)" unfolding ns_def set_update_where by blast
    then show ?thesis using that(2) by (cases "ni_ID r0 = n") simp_all
  qed
  have "n \<in> ni_ID ` set ns" unfolding ns_def using mem by (simp add: ids_update_where)
  from in_image_filter [where f = ni_ID and g = ni_LastHeartbeat and P = "\<lambda>h. clk env' 0 - NodeLivenessWindow < h", OF this beat] none
  show ?thesis by (simp add: call sql_ListNodes_def less_diff_eq diff_less_eq)
qed

text \<open>
  Property C23. A node whose Redis key has expired is lost for good: whatever calls other nodes make, and whatever ticks its own supervisor has, with whatever faults, as long as no one registers
  it anew every heartbeat reports \<^verbatim>\<open>ErrNodeNotFound\<close> and no listing shows it, because the loops only beat and \<^verbatim>\<open>RegisterNode\<close> is called at the start alone. A database keeps the node's row until
  it is deregistered: after any gap the next heartbeat succeeds, and the node is listed from then until the window of thirty seconds has passed.\<close>

theorem lapsed_node_is_lost_on_redis_only:
  assumes "keys_ok st" and "\<not> key_lives st n t" and "sorted (t # map (srv_ms \<circ> snd) cs @ [srv_ms late])" and "\<forall>c \<in> set cs. \<not> registers n (fst c)"
    and "c_pre late = None" and "c_post late = None" and "\<forall>k. c_read late k = None"
    and "list_all (\<lambda>((env, cenv), tk). t \<le> srv_ms cenv) ticks"
    and "row_stands db n t'" and "\<forall>c \<in> set ds. \<not> deregisters n (fst c)" and "sql_healthy env" and "sql_healthy env'"
  shows "redis_Heartbeat late n ttl (fold redis_registry cs st) = (Some ErrNodeNotFound, fold redis_registry cs st) \<and>
    (\<exists>ns. fst (redis_ListNodes late (fold redis_registry cs st)) = Inr ns \<and> n \<notin> ni_ID ` set ns) \<and>
    (\<forall>sup. snd (s_driver sup) = st \<longrightarrow>
       snd (s_driver (fold (\<lambda>((env, cenv), tk). sup_tick n (redis_node_driver env cenv) cfg tk) ticks sup)) = st) \<and>
    (case sql_Heartbeat env n ttl (fold (sql_registry d) ds db) of (err, db') \<Rightarrow>
       err = None \<and> (\<exists>ns. sql_ListNodes env' db' = Inr ns \<and> (n \<in> ni_ID ` set ns \<longleftrightarrow> clk env' 0 < clk env 0 + NodeLivenessWindow)))"
proof (intro conjI allI impI)
  let ?st = "fold redis_registry cs st"
  have lost: "\<not> key_lives ?st n (srv_ms late)" by (rule redis_nodes.lost [OF assms(2-4)])
  then show "redis_Heartbeat late n ttl ?st = (Some ErrNodeNotFound, ?st)"
    using assms(5,6) by (simp add: key_lives_def redis_Heartbeat_def run_cluster_def heartbeatScript_def)
  have "keys_ok ?st" by (rule redis_nodes.inv_calls [OF assms(1)])
  from listed_keys [OF this assms(5,7)] lost
  show "\<exists>ns. fst (redis_ListNodes late ?st) = Inr ns \<and> n \<notin> ni_ID ` set ns" by blast
  show "snd (s_driver (fold (\<lambda>((env, cenv), tk). sup_tick n (redis_node_driver env cenv) cfg tk) ticks sup)) = st" if "snd (s_driver sup) = st" for sup
    using lapsed_ticks [of sup n t ticks cfg] assms(2,8) that by simp
next
  have "row_stands (fold (sql_registry d) ds db) n t'" by (rule sql_nodes.kept [OF assms(9,10)])
  then show "case sql_Heartbeat env n ttl (fold (sql_registry d) ds db) of (err, db') \<Rightarrow>
      err = None \<and> (\<exists>ns. sql_ListNodes env' db' = Inr ns \<and> (n \<in> ni_ID ` set ns \<longleftrightarrow> clk env' 0 < clk env 0 + NodeLivenessWindow))"
    by (rule standing_row_beats [OF _ assms(11,12)])
qed

theorem lapsed_node_is_lost_on_redis_only_witness:
  "redis_Heartbeat (at_ms 40000) ''n'' (15 * Second) (redis_registry (RHeartbeat ''n'' (15 * Second), at_ms 16000) (snd (redis_RegisterNode (at_ms 0) some_node (15 * Second) no_keys))) =
     (Some ErrNodeNotFound, redis_registry (RHeartbeat ''n'' (15 * Second), at_ms 16000) (snd (redis_RegisterNode (at_ms 0) some_node (15 * Second) no_keys))) \<and>
   fst (sql_Heartbeat (at_time (40 * Second)) ''n'' (15 * Second) (sql_registry MySQL (RList, at_time 0) (snd (sql_RegisterNode MySQL (at_time 0) some_node 0 lease_db)))) = None"
proof -
  let ?st = "snd (redis_RegisterNode (at_ms 0) some_node (15 * Second) no_keys)" and ?db = "snd (sql_RegisterNode MySQL (at_time 0) some_node 0 lease_db)"
  have st: "keys_ok ?st" "\<not> key_lives ?st ''n'' 16000"
    by (simp_all add: keys_ok_def key_lives_def redis_RegisterNode_def run_cluster_def registerNodeScript_def at_ms_def no_keys_def some_node_def live_def ttlMillis_def)
  have db: "row_stands ?db ''n'' 0" by (simp add: row_stands_def sql_RegisterNode_def at_time_def lease_db_def some_node_def stored_node_def)
  have env: "c_pre (at_ms 40000) = None" "c_post (at_ms 40000) = None" "\<forall>k. c_read (at_ms 40000) k = None"
    "sql_healthy (at_time (40 * Second))" by (simp_all add: at_ms_def sql_healthy_def at_time_def)
  have calls: "sorted (16000 # map (srv_ms \<circ> snd) [(RHeartbeat ''n'' (15 * Second), at_ms 16000)] @ [srv_ms (at_ms 40000)])"
    "\<forall>c \<in> set [(RHeartbeat ''n'' (15 * Second), at_ms 16000)]. \<not> registers ''n'' (fst c)"
    "\<forall>c \<in> set [(RList, at_time 0)]. \<not> deregisters ''n'' (fst c)" by (simp_all add: at_ms_def)
  have ticks: "list_all (\<lambda>((env :: redis_env, cenv), tk :: tick). 16000 \<le> srv_ms cenv) []" by simp
  from lapsed_node_is_lost_on_redis_only [OF st calls(1,2) env(1-3) ticks db calls(3) env(4,4), of "15 * Second" undefined MySQL]
  show ?thesis by (simp split: prod.splits)
qed

end
