(* ===== verification/Spec2Isabelle.thy ===== *)
theory Spec2Isabelle
  imports Lone_Job Delivery Commands_Properties Scheduler_Properties Connections Sql_Columns Scheduled Registry
begin

text \<open>
  Verification of tasker, a job queue for Go programs.

  \<^bold>\<open>The program.\<close> An application builds jobs and hands them to a \<^verbatim>\<open>Manager\<close> (\<^verbatim>\<open>tasker.go\<close>), which makes a row of each, runs the dispatch middlewares and calls a
  \<^verbatim>\<open>Driver\<close> (\<^verbatim>\<open>driver.go\<close>). Two drivers store the rows: \<^verbatim>\<open>driver/sqldriver\<close> in a table of Postgres, MySQL or SQLite, \<^verbatim>\<open>driver/redisdriver\<close> in
  documents and sorted sets that Lua scripts keep in step. A \<^verbatim>\<open>Pool\<close> of workers (\<^verbatim>\<open>pool.go\<close>) claims rows of one queue, decodes and executes them and reports
  one of three outcomes back, deciding retries by \<^verbatim>\<open>state_machine.go\<close>. A \<^verbatim>\<open>Supervisor\<close> owns the pools of a process, sends heartbeats, re-queues jobs that
  were claimed long ago, prunes finished ones and scales the pools; a \<^verbatim>\<open>Coordinator\<close> registers a node and stands for leader; a \<^verbatim>\<open>Scheduler\<close> dispatches on a cron
  schedule; \<^verbatim>\<open>web/web.go\<close> and \<^verbatim>\<open>cmd\<close> let people look and interfere. All of it meets in the driver, whose calls processes make concurrently.

  \<^bold>\<open>Theories and the code they model.\<close>
  \<^item> \<^verbatim>\<open>Tasker_Prelude\<close>: Go's \<^verbatim>\<open>int64\<close> arithmetic written out with its wrap-around, outcomes that may be panics, middleware chains, keyed updates of lists, sorting by a
    key. \<^verbatim>\<open>Tasker_Types\<close>: \<^verbatim>\<open>types.go\<close> and \<^verbatim>\<open>errors.go\<close> as records and datatypes; times and durations are nanoseconds in \<open>int\<close>.
  \<^item> \<^verbatim>\<open>State_Machine\<close>: \<^verbatim>\<open>state_machine.go\<close> and the backoff of \<^verbatim>\<open>job.go\<close>, with the overflow of the default delay.
  \<^item> \<^verbatim>\<open>Driver_Contract\<close>: the calls of \<^verbatim>\<open>driver.go\<close> that write jobs (\<open>driver_op\<close>), the abstract life of a job (\<open>life_step\<close>) and the locale \<open>job_store\<close>. \<^verbatim>\<open>Leases\<close>: the
    locales \<open>lease\<close> and \<open>fair_lease\<close> behind leader election and locks. \<^verbatim>\<open>Fleet\<close>: workers that interleave on one \<open>job_store\<close>, as a step relation.
  \<^item> \<^verbatim>\<open>driver/sqldriver\<close>: \<^verbatim>\<open>Text_Array\<close> (list columns), \<^verbatim>\<open>Sql_Schema\<close> (dialects, \<^verbatim>\<open>Migrate\<close>), \<^verbatim>\<open>Sql_Columns\<close> (\<^verbatim>\<open>encodeJobFields\<close>, \<^verbatim>\<open>scanJob\<close>), \<^verbatim>\<open>Sql_Driver\<close> (the
    calls that write jobs), \<^verbatim>\<open>Sql_Store\<close> (they give a \<open>job_store\<close>), \<^verbatim>\<open>Sql_Cluster\<close> (nodes, leader, locks).
  \<^item> \<^verbatim>\<open>driver/redisdriver\<close>: \<^verbatim>\<open>Redis_Driver\<close> (each Lua script one function on the keys), \<^verbatim>\<open>Redis_Store\<close> (the invariant of the keys; a \<open>job_store\<close>), \<^verbatim>\<open>Redis_Cluster\<close>
    (expiring keys). \<^verbatim>\<open>Connections\<close>: opening and closing either driver, names of tables and keys. \<^verbatim>\<open>Queries\<close>: listing and statistics of both.
  \<^item> \<^verbatim>\<open>Dispatch\<close>: the options and defaults of \<^verbatim>\<open>job.go\<close> and \<^verbatim>\<open>provider.go\<close>, \<^verbatim>\<open>buildJobRow\<close>, \<^verbatim>\<open>Dispatch\<close>, \<^verbatim>\<open>DispatchBatch\<close>, \<^verbatim>\<open>Chain\<close>, \<^verbatim>\<open>registry.go\<close>. \<^verbatim>\<open>Worker\<close>: the
    worker's loop, \<^verbatim>\<open>middleware.go\<close> and \<^verbatim>\<open>job_context.go\<close>. \<^verbatim>\<open>Pool\<close>: pools and the pool manager.
  \<^item> \<^verbatim>\<open>Supervisor\<close> (with the coordinator), \<^verbatim>\<open>Coordination\<close> (its forwarding calls), \<^verbatim>\<open>Scheduler\<close>, \<^verbatim>\<open>Web\<close>, \<^verbatim>\<open>Commands\<close> (\<^verbatim>\<open>cmd\<close>, \<^verbatim>\<open>batch\<close> and the manager's calls they use).
  \<^item> \<^verbatim>\<open>End_To_End\<close>, \<^verbatim>\<open>Redis_Lone\<close>, \<^verbatim>\<open>Lone_Job\<close>, \<^verbatim>\<open>Delivery\<close>, \<^verbatim>\<open>Fleet_Properties\<close>, \<^verbatim>\<open>Fleet_Worker\<close>, \<^verbatim>\<open>Draining\<close>, \<^verbatim>\<open>Completion\<close>, \<^verbatim>\<open>Scheduled\<close> and this
    theory put worker, dispatching, scheduler and drivers together, \<^verbatim>\<open>Registry\<close> the node calls of the drivers and the supervisor's loop. A theory \<^verbatim>\<open>X_Properties\<close> holds what is proved of \<^verbatim>\<open>X\<close>.

  \<^bold>\<open>State.\<close> A database is the list of its rows in insertion order with the last id given out, the other tables beside it (\<open>sql_db\<close>); a Redis server is its hashes and sorted sets as
  association lists (\<open>redis\<close>, \<open>redis_keys\<close>). A call takes the circumstances it meets, the clock at each reading, which of its statements fail, which rows are locked, whether a reply is
  lost (\<open>sql_env\<close>, \<open>redis_env\<close>, \<open>cluster_env\<close>), and returns its reply and the new state; the statements of one transaction and the commands of one script are one step, other
  interleavings are sequences of calls. An SQL statement is modelled by what it denotes, in the dialect's variants; a Lua script command by command.

  \<^bold>\<open>Interfaces.\<close> \<open>job_store\<close> (interpreted as \<open>sql\<close> and \<open>redis\<close>): each call moves each row along the life automaton by events of that call, and only claims hand out. From it, once:
  bounded claims, exclusivity, final states, stuck states, and the fleet's invariants. \<open>lease\<close> (\<open>lock\<close>, \<open>leader\<close>, \<open>rkey\<close>) and \<open>fair_lease\<close> (\<open>fair_lock\<close>, \<open>fair_leader\<close>, \<open>fair_key\<close>):
  mutual exclusion over any calls, and who is granted a lease. \<open>dispatch_store\<close> (\<open>sql_queue\<close>, \<open>redis_queue\<close>): what becomes of dispatched rows. \<open>claiming_store\<close> (\<open>sql_worker\<close>, \<open>redis_worker\<close>):
  the worker's loop refines a worker of the fleet. \<open>lone_job\<close> (\<open>lone_sql\<close>, \<open>lone_redis\<close>): the retries of a job end. \<open>served_queue\<close> (\<open>sql_serves\<close>, \<open>redis_serves\<close>): a
  worker completes the jobs of its queue in order; with \<open>dispatch_store\<close> it makes \<open>delivering_store\<close> (\<open>sql_delivers\<close>, \<open>redis_delivers\<close>): a dispatched job is completed. \<open>node_registry\<close>
  (\<open>redis_nodes\<close>) and \<open>lasting_registry\<close> (\<open>sql_nodes\<close>): what a registry knows of a node over any calls.

  \<^bold>\<open>What the lemmas show.\<close> For each driver: an invariant kept by every call under every fault, the abstract life refined, claims in the order of priority, time and id, transactions that do all or
  nothing, keys and rows that agree. For the worker: one report per execution, panics contained, retries within the attempts and the deadline. For the loop over a driver: that a queue is drained in
  order, that what was dispatched is done, that retries end, that workers share neither attempts nor, without re-queueing, jobs. For the layers above: which pools run and stop, leases that lapse, what needs authentication and a token, how schedules and
  entries correspond, what a migration declares and how it resumes. Several theorems prove that the code does what it hardly means to: later jobs of a chain never run, a job without attempts is
  stored but never claimed, a long job is executed twice, a paused queue keeps a worker, a retried Redis job cannot be read back, a node whose Redis key has expired stays lost, coordinators with the default configuration share their locks.

  \<^bold>\<open>Bounds.\<close> Attempts lie below \<open>2 ^ 63 - 1\<close> where the decision adds one to them. Loops that run for ever are functions of the finite list of rounds or ticks they perform, arbitrary in length; every
  theorem holds for all of them, so no fuel runs out. \<open>retries_end_at_success_or_limit\<close> takes one round per attempt made, spaced by the largest backoff \<open>b\<close>;
  \<open>worker_drains_its_queue\<close> at least one per job that is ready, and the rounds beyond find nothing. Ids are natural numbers: 64 bits do not run out.

  \<^bold>\<open>Parameters.\<close> \<^verbatim>\<open>encoding/json\<close> of whole jobs, \<^verbatim>\<open>database/sql\<close>, \<^verbatim>\<open>go-redis\<close>, \<^verbatim>\<open>robfig/cron\<close>, \<^verbatim>\<open>cobra\<close>, the UUID generator, clocks, collation and case folding of the databases, the dashboard's random
  token; a theorem that needs more of one than its type says so in a hypothesis and has a witness with a concrete function.

  \<^bold>\<open>Not modelled.\<close> The dashboard's JavaScript, CSS and HTML (\<^verbatim>\<open>web/ui_*.go\<close>: string constants); log lines; HTTP and TCP below requests and replies; the memory model below the mutexes, apart from
  \<^verbatim>\<open>Stop\<close> of the scheduler; query plans and isolation anomalies: a statement acts atomically, and rows locked by others are skipped or waited for as its dialect says. Instants are kept exact where Postgres stores
  microseconds and MySQL seconds. Averages are exact quotients where the code has floating-point numbers.
\<close>


section \<open>The drivers and the life of a job\<close>

text \<open>
  Property C3. Both drivers refine one automaton. Over any sequence of calls, whatever fails in between, the state, the attempt count and the limit of a row that survives change along a
  run of the life automaton whose steps the calls allow; and every step of that automaton is a transition of the table in
  \<^verbatim>\<open>state_machine.go\<close> or one of five that are not: claiming a scheduled or retryable job, re-queueing a running one, failing a
  retryable one and retrying a cancelled one.\<close>

theorem drivers_refine_the_job_life:
  assumes "sql_inv db" and "calls_ok fst cs" and "sql_look db i = Some r" and "sql_look (run_calls (sql_exec d) cs db) i = Some r'"
    and "redis_inv st" and "calls_ok fst ds" and "redis_look st j = Some v" and "redis_look (run_calls redis_exec ds st) j = Some v'"
  shows "life_run (map (\<lambda>c. op_events (fst c) i) cs) (life_of r) (life_of r') \<and>
    life_run (map (\<lambda>c. op_events (fst c) j) ds) (life_of v) (life_of v') \<and>
    (\<forall>ev l l'. life_step ev l = Some l' \<longrightarrow>
       Transition_Valid (l_state l) (l_state l') \<noteq> ((l_state l, l_state l') \<in> beyond_table))"
  using sql.run_life [OF assms(1-4)] redis.run_life [OF assms(5-8)] life_step_edge beyond_table_not_valid by blast

theorem drivers_refine_the_job_life_witness:
  "\<exists>v v'. life_run [{LClaim}] (life_of (sample_row 2 StateAvailable 7 50)) (life_of (sql_claim_row SQLite 100 ''n1'' (sample_row 2 StateAvailable 7 50))) \<and>
     redis_look two_mails 2 = Some v \<and> redis_look second_running 2 = Some v' \<and> State v' = StateRunning \<and> life_run [{LClaim}] (life_of v) (life_of v')"
proof -
  let ?db = "sample_db [sample_row 1 StateAvailable 0 5, sample_row 2 StateAvailable 7 50]"
  let ?cs = "[(OpClaim ''default'' ''n1'' 1, calm)]" and ?ds = "[(OpClaim ''default'' ''n'' 1, redis_calm)]"
  have sql: "sql_look ?db 2 = Some (sample_row 2 StateAvailable 7 50)"
    "sql_look (run_calls (sql_exec SQLite) ?cs ?db) 2 = Some (sql_claim_row SQLite 100 ''n1'' (sample_row 2 StateAvailable 7 50))"
    by (simp_all add: sql_look_def sql_Claim_def claimTransaction_def claim_ids_def limit_def claim_order_def sql_eligible_def
        claim_update_def update_where_def Let_def sql_claim_row_def push_node_def sample_simps)
  have redis: "redis_look two_mails 2 = Some (doc_row (enqueued_doc 2 (Redis_Properties.mail_row ''b'' 7)))"
    by (simp add: redis_look_def two_mails_docs)
  have run: "redis_look (run_calls redis_exec ?ds two_mails) 2 =
      Some (redis_claim_row 100000 ''n'' (doc_row (enqueued_doc 2 (Redis_Properties.mail_row ''b'' 7))))"
    using second_running_facts(2) by (simp add: second_running_def)
  have "calls_ok fst ?cs" "calls_ok fst ?ds" by simp_all
  from drivers_refine_the_job_life [OF sample_inv this(1) sql two_mails_inv this(2) redis run] redis second_running_facts(2)
  show ?thesis by (simp add: row_simps redis_claim_row_def)
qed

text \<open>
  Property C9. The attempts bound the executions: from any consistent store, whatever calls follow, by any process and with any faults, a job with no manual retry among them is handed to a worker at
  most as often as it has attempts left, by either driver.\<close>

theorem handed_at_most_attempts_left:
  assumes "sql_inv db" and "calls_ok fst cs" and "avoids fst i {LRetry} cs" and "sql_look db i = Some r"
    and "redis_inv st" and "calls_ok fst ds" and "avoids fst j {LRetry} ds" and "redis_look st j = Some v"
  shows "times_handed (sql_exec d) (sql_handed d) i cs db \<le> nat (MaxAttempts r - Attempt r) \<and>
    times_handed redis_exec redis_handed j ds st \<le> nat (MaxAttempts v - Attempt v)"
  using sql.handed_at_most [OF assms(1-4)] redis.handed_at_most [OF assms(5-8)] by (rule conjI)

theorem handed_at_most_attempts_left_witness:
  "times_handed (sql_exec SQLite) (sql_handed SQLite) 1 [(OpClaim ''default'' ''n1'' 5, calm), (OpComplete 1 None, calm), (OpClaim ''default'' ''n1'' 5, calm)] two_rows \<le> 3 \<and>
   times_handed redis_exec redis_handed 2 [(OpClaim ''default'' ''n'' 1, redis_calm), (OpRequeueStale 0, redis_calm)] two_mails \<le> 3"
proof -
  have "sql_inv two_rows" "sql_look two_rows 1 = Some (sample_row 1 StateAvailable 0 5)"
    using sample_inv by (simp_all add: two_rows_def sql_look_def sample_simps)
  moreover have "redis_look two_mails 2 = Some (doc_row (enqueued_doc 2 (Redis_Properties.mail_row ''b'' 7)))" by (simp add: redis_look_def two_mails_docs)
  ultimately show ?thesis
    using handed_at_most_attempts_left [of two_rows "[(OpClaim ''default'' ''n1'' 5, calm), (OpComplete 1 None, calm), (OpClaim ''default'' ''n1'' 5, calm)]" 1
      "sample_row 1 StateAvailable 0 5" two_mails "[(OpClaim ''default'' ''n'' 1, redis_calm), (OpRequeueStale 0, redis_calm)]" 2 _ SQLite] two_mails_inv
    by (auto simp: enqueued_doc_def sample_row_def zero_row_def)
qed

text \<open>
  Property C10. A claim that returns takes the first \<open>m\<close> jobs that can be claimed, in the order of priority (highest first), scheduled time and id, and no other job changes. On SQL those are the jobs of
  the queue that wait, are due, have an attempt left and whose row no other transaction has locked (SQLite locks none); on Redis the time counts in microseconds, and the jobs are handed out in that
  order.\<close>

theorem claims_take_the_first:
  assumes "sql_inv db" and "0 < m" and "fst (sql_Claim d env q n m db) = Inr rows"
    and "redis_inv st" and "fst (redis_Claim renv q n m st) = Inr vs"
  shows "(\<exists>C. least_by (\<lambda>r. (- Priority r, ScheduledAt r, ID r)) (nat m) C (claimable d env q db) \<and>
      set rows = sql_claim_row d (clk env 0) n ` C \<and> distinct (map ID rows) \<and>
      (\<forall>i. sql_look (snd (sql_Claim d env q n m db)) i =
         map_option (\<lambda>r. if r \<in> C then sql_claim_row d (clk env 0) n r else r) (sql_look db i))) \<and>
    (\<exists>xs. vs = map (redis_claim_row (r_clk renv 0) n) xs \<and> sorted_wrt (\<lambda>r r'. row_order r < row_order r') xs \<and>
      least_by row_order (nat m) (set xs) (redis_claimable (r_clk renv 0) q st) \<and>
      (\<forall>i. redis_look (snd (redis_Claim renv q n m st)) i =
         map_option (\<lambda>r. if r \<in> set xs then redis_claim_row (r_clk renv 0) n r else r) (redis_look st i)))"
  using sql_claim_takes_the_first [OF assms(1-3)] redis_claim_takes_the_first [OF assms(4,2,5)] by (rule conjI)

theorem claims_take_the_first_witness:
  "(\<exists>C. least_by (\<lambda>r. (- Priority r, ScheduledAt r, ID r)) 1 C (claimable SQLite calm ''default'' two_rows)) \<and>
   (\<exists>xs. least_by row_order 1 (set xs) (redis_claimable 100000 ''default'' two_mails))"
proof -
  have sql: "sql_inv two_rows" using sample_inv by (simp add: two_rows_def)
  have "faultless calm" by (simp add: faultless_def calm_def)
  then obtain rows where rows: "fst (sql_Claim SQLite calm ''default'' ''n'' 1 two_rows) = Inr rows" using sql_claim_returns by blast
  have calls: "redis_calls redis_calm" by (simp add: redis_calls_def redis_calm_def)
  have "redis_claimable (r_clk redis_calm 0) ''default'' two_mails = ready_jobs (redis_look two_mails) ''default''"
    by (rule redis_claimable_ready) (auto simp: two_mails_ready redis_calm_def enqueued_doc_def)
  then have "redis_claimable (r_clk redis_calm 0) ''default'' two_mails \<noteq> {}" by (simp add: two_mails_ready)
  from redis_claim_one [OF two_mails_readable calls this, of "''n''"] obtain vs where
    vs: "fst (redis_Claim redis_calm ''default'' ''n'' 1 two_mails) = Inr vs" by blast
  from claims_take_the_first [OF sql zero_less_one rows two_mails_inv vs] show ?thesis by (auto simp: redis_calm_def)
qed


section \<open>Dispatching and claiming\<close>



text \<open>
  Property C16. A job dispatched with a limit of zero or fewer attempts, by its own method or by the manager's configuration, is never handed to a worker by either driver, whatever is
  called, unless it is cancelled: the claim compares the attempts made with the stored limit, while the retry decision reads such a limit as three.\<close>

theorem job_without_attempts_never_runs:
  assumes "sql_inv db" and "Dispatch (sql_single d env) [] cfg benv job opts db = (Inr row, db')" and "MaxAttempts row \<le> 0"
    and "calls_ok fst cs" and "avoids fst (ID row) {LCancel} cs"
    and "redis_inv st" and "Dispatch (redis_single renv) [] cfg benv job opts st = (Inr v, st')" and "MaxAttempts v \<le> 0"
    and "calls_ok fst ds" and "avoids fst (ID v) {LCancel} ds"
  shows "times_handed (sql_exec d') (sql_handed d') (ID row) cs db' = 0 \<and> times_handed redis_exec redis_handed (ID v) ds st' = 0 \<and>
    effective_max row = 3 \<and> effective_max v = 3"
  using sql_queue.no_attempts_never_handed [OF assms(1-5)] redis_queue.no_attempts_never_handed [OF assms(6-10)] assms(3,8)
  by (simp add: effective_max_def)

lemma job_without_attempts_never_runs_witness:
  "\<exists>row db' v st'. Dispatch (sql_single SQLite calm) [] (NewConfiguredManager ''n'' \<lparr>app_DefaultQueue = ''default'', app_DefaultMaxAttempts = 0, app_NodeID = []\<rparr>)
       \<lparr>b_now = (\<lambda>_. 7), b_uuid = ''v''\<rparr> plain_job [] (sample_db []) = (Inr row, db') \<and>
     times_handed (sql_exec SQLite) (sql_handed SQLite) (ID row) [(OpClaim ''default'' ''n1'' 5, calm), (OpRequeueStale 0, calm)] db' = 0 \<and>
     Dispatch (redis_single redis_calm) [] (NewConfiguredManager ''n'' \<lparr>app_DefaultQueue = ''default'', app_DefaultMaxAttempts = 0, app_NodeID = []\<rparr>)
       \<lparr>b_now = (\<lambda>_. 7), b_uuid = ''v''\<rparr> plain_job [] redis_empty = (Inr v, st') \<and>
     times_handed redis_exec redis_handed (ID v) [(OpClaim ''default'' ''n1'' 5, redis_calm)] st' = 0"
proof -
  let ?cfg = "NewConfiguredManager ''n'' \<lparr>app_DefaultQueue = ''default'', app_DefaultMaxAttempts = 0, app_NodeID = []\<rparr>"
  let ?env = "\<lparr>b_now = (\<lambda>_. 7), b_uuid = ''v''\<rparr>"
  obtain row db' where sent: "Dispatch (sql_single SQLite calm) [] ?cfg ?env plain_job [] (sample_db []) = (Inr row, db')" and row: "MaxAttempts row = 0"
    by (auto simp: dispatch_simps sql_dispatch_simps)
  obtain v st' where put: "Dispatch (redis_single redis_calm) [] ?cfg ?env plain_job [] redis_empty = (Inr v, st')" and v: "MaxAttempts v = 0"
    by (auto simp: dispatch_simps redis_dispatch_simps)
  have "sql_inv (sample_db [])" by (simp add: sql_inv_def sample_db_def)
  from job_without_attempts_never_runs [OF this sent _ _ _ redis_empty_inv put, of "[(OpClaim ''default'' ''n1'' 5, calm), (OpRequeueStale 0, calm)]"
      "[(OpClaim ''default'' ''n1'' 5, redis_calm)]" SQLite] row v sent put
  show ?thesis by auto
qed

text \<open>
  Property C15. The jobs of a chain after the first never run, on either driver: \<^verbatim>\<open>Chain\<close> stores them pending, each naming its parent, and no call of the driver makes a
  pending job available; unless it is cancelled it stays pending and is never handed out.\<close>

theorem chained_jobs_never_run:
  assumes "sql_inv db" and "Chain (sql_batch d env) [] cfg envs js opts db = (Inr rows, db')" and "0 < k" and "k < length js"
    and "calls_ok fst cs" and "avoids fst (ID (rows ! k)) {LCancel} cs"
    and "redis_inv st" and "Chain (redis_batch renv) [] cfg envs js opts st = (Inr vs, st')"
    and "calls_ok fst ds" and "avoids fst (ID (vs ! k)) {LCancel} ds"
  shows "(\<exists>stored. sql_look db' (ID (rows ! k)) = Some stored \<and> State stored = StatePending) \<and>
    times_handed (sql_exec d') (sql_handed d') (ID (rows ! k)) cs db' = 0 \<and>
    (\<forall>r'. sql_look (run_calls (sql_exec d') cs db') (ID (rows ! k)) = Some r' \<longrightarrow> State r' = StatePending) \<and>
    (\<exists>stored. redis_look st' (ID (vs ! k)) = Some stored \<and> State stored = StatePending) \<and>
    times_handed redis_exec redis_handed (ID (vs ! k)) ds st' = 0 \<and>
    (\<forall>r'. redis_look (run_calls redis_exec ds st') (ID (vs ! k)) = Some r' \<longrightarrow> State r' = StatePending)"
  using sql_queue.chained_never_handed [OF assms(1-6)] redis_queue.chained_never_handed [OF assms(7,8,3,4,9,10)] by blast

lemma chained_jobs_never_run_witness:
  "\<exists>rows db' vs st'. Chain (sql_batch SQLite calm) [] (DefaultConfig ''n'') (\<lambda>i. \<lparr>b_now = (\<lambda>_. 7), b_uuid = replicate (i + 1) (CHR ''v'')\<rparr>)
       [plain_job, plain_job] [] (sample_db []) = (Inr rows, db') \<and>
     times_handed (sql_exec SQLite) (sql_handed SQLite) (ID (rows ! 1)) [(OpClaim ''default'' ''n1'' 5, calm), (OpComplete 10 None, calm),
       (OpClaim ''default'' ''n1'' 5, calm)] db' = 0 \<and>
     Chain (redis_batch redis_calm) [] (DefaultConfig ''n'') (\<lambda>i. \<lparr>b_now = (\<lambda>_. 7), b_uuid = replicate (i + 1) (CHR ''v'')\<rparr>)
       [plain_job, plain_job] [] redis_empty = (Inr vs, st') \<and>
     times_handed redis_exec redis_handed (ID (vs ! 1)) [(OpClaim ''default'' ''n1'' 5, redis_calm)] st' = 0"
proof -
  let ?envs = "\<lambda>i. \<lparr>b_now = (\<lambda>_. 7), b_uuid = replicate (i + 1) (CHR ''v'')\<rparr>"
  let ?cs = "[(OpClaim ''default'' ''n1'' 5, calm), (OpComplete 10 None, calm), (OpClaim ''default'' ''n1'' 5, calm)]"
  let ?ds = "[(OpClaim ''default'' ''n1'' 5, redis_calm)]"
  obtain rows db' where sent: "Chain (sql_batch SQLite calm) [] (DefaultConfig ''n'') ?envs [plain_job, plain_job] [] (sample_db []) = (Inr rows, db')"
    by (auto simp: dispatch_simps sql_dispatch_simps)
  obtain vs st' where put: "Chain (redis_batch redis_calm) [] (DefaultConfig ''n'') ?envs [plain_job, plain_job] [] redis_empty = (Inr vs, st')"
    by (auto simp: dispatch_simps redis_dispatch_simps)
  have "sql_inv (sample_db [])" by (simp add: sql_inv_def sample_db_def)
  from chained_jobs_never_run [OF this sent, of 1 ?cs redis_empty redis_calm vs st' ?ds SQLite] redis_empty_inv sent put show ?thesis by auto
qed


section \<open>Working over a store\<close>

text \<open>
  Property C2. The retries of a job end, on either driver, in its first success or its last attempt. Let a job be the only one of its queue and fail at every attempt before the \<open>g\<close>th, at which it
  succeeds if its limit lets it come to that. A worker of the queue claims and reports on it once for each attempt, and after as many rounds as attempts are left up to the lesser of \<open>g\<close> and the limit
  it has made that many attempts: it is completed when the limit allows the \<open>g\<close>th, with one recorded error for each earlier round, and else failed, with one for every round and, on SQL, one copy of it
  among the failed jobs. The rounds must be far enough apart for the backoff, which is at most \<open>b\<close>, and the store must not fail.\<close>

theorem retries_end_at_success_or_limit:
  assumes "alone q row db" and "redis_alone q row st" and "first_success reg b (Kind row) (Payload row) g (MaxAttempts row)"
    and "waiting (State row)" and "0 \<le> Attempt row" and "int (length rs) = min g (MaxAttempts row) - Attempt row" and "rs \<noteq> []" and "MaxAttempts row < 2 ^ 63 - 1"
    and "ScheduledAt row \<le> clk (envs k) 0" and "ScheduledAt row \<le> r_clk (renvs i) 0"
    and "\<forall>m. faultless (envs m)" and "\<forall>m. redis_calls (renvs m)" and "\<forall>r \<in> set rs. \<not> stop_before r"
    and "\<forall>j. Suc j < length rs \<longrightarrow> w_now (round_env (rs ! j)) 2 + b \<le> clk (envs (k + 2 * Suc j)) 0"
    and "\<forall>j. Suc j < length rs \<longrightarrow> w_now (round_env (rs ! j)) 2 + b \<le> r_clk (renvs (i + 2 * Suc j)) 0"
  shows "(\<exists>ops s' db' row'. run (sql_driver d envs) reg c q n rs (s, (db, k)) = (ops, StillRunning, s', (db', k + 2 * length rs)) \<and>
      length ops = 2 * length rs \<and> sql_look db' (ID row) = Some row' \<and> Attempt row' = min g (MaxAttempts row) \<and>
      (if g \<le> MaxAttempts row
       then State row' = StateCompleted \<and> Suc (length (Errors row')) = length (Errors row) + length rs \<and> failed_jobs db' = failed_jobs db
       else State row' = StateFailed \<and> length (Errors row') = length (Errors row) + length rs \<and> failed_jobs db' = failed_jobs db @ [failed_job_of row'])) \<and>
    (\<exists>ops s' st' v. run (redis_driver renvs) reg c q n rs (s, (st, i)) = (ops, StillRunning, s', (st', i + 2 * length rs)) \<and>
      length ops = 2 * length rs \<and> redis_look st' (ID row) = Some v \<and> Attempt v = min g (MaxAttempts row) \<and>
      (if g \<le> MaxAttempts row
       then State v = StateCompleted \<and> Suc (length (Errors v)) = length (Errors row) + length rs
       else State v = StateFailed \<and> length (Errors v) = length (Errors row) + length rs))"
proof (rule conjI)
  from lone_sql.retried_run [OF assms(1,3-9,11,13,14), of d c n s] obtain ops s' db' row' where
    ran: "run (sql_driver d envs) reg c q n rs (s, (db, k)) = (ops, StillRunning, s', (db', k + 2 * length rs))" "length ops = 2 * length rs"
      "Attempt row' = min g (MaxAttempts row)"
      "if g \<le> MaxAttempts row
       then State row' = StateCompleted \<and> Suc (length (Errors row')) = length (Errors row) + length rs \<and> failed_jobs db' = failed_jobs db
       else State row' = StateFailed \<and> length (Errors row') = length (Errors row) + length rs \<and> failed_jobs db' = failed_jobs db @ [failed_job_of row']"
    and kept: "alone q row' db'" "same_job row row'" by blast
  have "sql_look db' (ID row) = Some row'" using kept by (simp add: alone_def same_job_def)
  with ran show "\<exists>ops s' db' row'. run (sql_driver d envs) reg c q n rs (s, (db, k)) = (ops, StillRunning, s', (db', k + 2 * length rs)) \<and>
      length ops = 2 * length rs \<and> sql_look db' (ID row) = Some row' \<and> Attempt row' = min g (MaxAttempts row) \<and>
      (if g \<le> MaxAttempts row
       then State row' = StateCompleted \<and> Suc (length (Errors row')) = length (Errors row) + length rs \<and> failed_jobs db' = failed_jobs db
       else State row' = StateFailed \<and> length (Errors row') = length (Errors row) + length rs \<and> failed_jobs db' = failed_jobs db @ [failed_job_of row'])"
    by (intro exI conjI)
next
  from lone_redis.retried_run [OF assms(2-8,10,12,13,15), of c n s] obtain ops s' st' v where
    ran: "run (redis_driver renvs) reg c q n rs (s, (st, i)) = (ops, StillRunning, s', (st', i + 2 * length rs))" "length ops = 2 * length rs"
      "Attempt v = min g (MaxAttempts row)"
      "if g \<le> MaxAttempts row
       then State v = StateCompleted \<and> Suc (length (Errors v)) = length (Errors row) + length rs
       else State v = StateFailed \<and> length (Errors v) = length (Errors row) + length rs"
    and kept: "redis_alone q v st'" "same_job row v" by (auto split: if_splits)
  have "redis_look st' (ID row) = Some v" using redis_alone_look [OF kept(1)] kept(2) by (simp add: same_job_def)
  with ran show "\<exists>ops s' st' v. run (redis_driver renvs) reg c q n rs (s, (st, i)) = (ops, StillRunning, s', (st', i + 2 * length rs)) \<and>
      length ops = 2 * length rs \<and> redis_look st' (ID row) = Some v \<and> Attempt v = min g (MaxAttempts row) \<and>
      (if g \<le> MaxAttempts row
       then State v = StateCompleted \<and> Suc (length (Errors v)) = length (Errors row) + length rs
       else State v = StateFailed \<and> length (Errors v) = length (Errors row) + length rs)"
    by (intro exI conjI)
qed

lemma spaced_rounds:
  "\<forall>r \<in> set failing_rounds. \<not> stop_before r" "\<forall>m. faultless (spaced_env m)" "\<forall>m. redis_calls (spaced_redis m)"
  "\<forall>j. Suc j < m \<longrightarrow> m \<le> 3 \<longrightarrow> w_now (round_env (failing_rounds ! j)) 2 + 24 * Hour \<le> clk (spaced_env (0 + 2 * Suc j)) 0"
  "\<forall>j. Suc j < m \<longrightarrow> m \<le> 3 \<longrightarrow> w_now (round_env (failing_rounds ! j)) 2 + 24 * Hour \<le> r_clk (spaced_redis (0 + 2 * Suc j)) 0"
  "ScheduledAt lone_row \<le> clk (spaced_env 0) 0" "ScheduledAt lone_row \<le> r_clk (spaced_redis 0) 0" "waiting (State lone_row)"
  "Attempt lone_row = 0" "MaxAttempts lone_row = 3" "Kind lone_row = ''mail''" "ID lone_row = 1" "Errors lone_row = []"
  by (auto simp: failing_rounds_def noon_def spaced_env_def spaced_redis_def algebra_simps faultless_def redis_calls_def redis_calm_def lone_row_def
      sample_simps waiting_def)

text \<open>One job that succeeds at its second attempt, and one that never does and is failed after three.\<close>

theorem retries_end_at_success_or_limit_witness:
  "(\<exists>db' row' st' v. snd (snd (snd (run (sql_driver MySQL spaced_env) (one_job flaky_job) no_ctx ''default'' ''n1'' (take 2 failing_rounds)
       ((), (sample_db [lone_row], 0))))) = (db', 4) \<and> sql_look db' 1 = Some row' \<and> State row' = StateCompleted \<and> Attempt row' = 2 \<and> length (Errors row') = 1 \<and>
     snd (snd (snd (run (redis_driver spaced_redis) (one_job flaky_job) no_ctx ''default'' ''n1'' (take 2 failing_rounds)
       ((), (lone_store, 0))))) = (st', 4) \<and> redis_look st' 1 = Some v \<and> State v = StateCompleted \<and> Attempt v = 2 \<and> length (Errors v) = 1) \<and>
   (\<exists>db' row' st' v. snd (snd (snd (run (sql_driver MySQL spaced_env) (one_job quiet_job) no_ctx ''default'' ''n1'' failing_rounds
       ((), (sample_db [lone_row], 0))))) = (db', 6) \<and> sql_look db' 1 = Some row' \<and> State row' = StateFailed \<and> length (failed_jobs db') = 1 \<and>
     snd (snd (snd (run (redis_driver spaced_redis) (one_job quiet_job) no_ctx ''default'' ''n1'' failing_rounds
       ((), (lone_store, 0))))) = (st', 6) \<and> redis_look st' 1 = Some v \<and> State v = StateFailed \<and> length (Errors v) = 3)"
proof (rule conjI)
  have len: "length (take 2 failing_rounds) = 2" "length failing_rounds = 3" by (simp_all add: failing_rounds_def)
  have go: "\<forall>r \<in> set (take 2 failing_rounds). \<not> stop_before r" using spaced_rounds(1) by (auto dest: in_set_takeD)
  have flaky: "first_success (one_job flaky_job) (24 * Hour) (Kind lone_row) (Payload lone_row) 2 (MaxAttempts lone_row)"
    unfolding spaced_rounds by (rule flaky_job_succeeds)
  have quiet: "first_success (one_job quiet_job) (24 * Hour) (Kind lone_row) (Payload lone_row) 4 (MaxAttempts lone_row)"
    unfolding spaced_rounds by (rule quiet_job_fails) simp
  have two: "int (length (take 2 failing_rounds)) = min 2 (MaxAttempts lone_row) - Attempt lone_row" "take 2 failing_rounds \<noteq> []"
    and three: "int (length failing_rounds) = min 4 (MaxAttempts lone_row) - Attempt lone_row" "failing_rounds \<noteq> []"
    and lim: "MaxAttempts lone_row < 2 ^ 63 - 1" "0 \<le> Attempt lone_row"
    using len by (simp_all add: spaced_rounds failing_rounds_def)
  have apart: "\<forall>j. Suc j < length (take 2 failing_rounds) \<longrightarrow> w_now (round_env (take 2 failing_rounds ! j)) 2 + 24 * Hour \<le> clk (spaced_env (0 + 2 * Suc j)) 0"
    "\<forall>j. Suc j < length (take 2 failing_rounds) \<longrightarrow> w_now (round_env (take 2 failing_rounds ! j)) 2 + 24 * Hour \<le> r_clk (spaced_redis (0 + 2 * Suc j)) 0"
    "\<forall>j. Suc j < length failing_rounds \<longrightarrow> w_now (round_env (failing_rounds ! j)) 2 + 24 * Hour \<le> clk (spaced_env (0 + 2 * Suc j)) 0"
    "\<forall>j. Suc j < length failing_rounds \<longrightarrow> w_now (round_env (failing_rounds ! j)) 2 + 24 * Hour \<le> r_clk (spaced_redis (0 + 2 * Suc j)) 0"
    using spaced_rounds(4,5) [of 2] spaced_rounds(4,5) [of 3] by (simp_all add: len)
  note both = lone_row_alone lone_store_alone
  show "\<exists>db' row' st' v. snd (snd (snd (run (sql_driver MySQL spaced_env) (one_job flaky_job) no_ctx ''default'' ''n1'' (take 2 failing_rounds)
       ((), (sample_db [lone_row], 0))))) = (db', 4) \<and> sql_look db' 1 = Some row' \<and> State row' = StateCompleted \<and> Attempt row' = 2 \<and> length (Errors row') = 1 \<and>
     snd (snd (snd (run (redis_driver spaced_redis) (one_job flaky_job) no_ctx ''default'' ''n1'' (take 2 failing_rounds)
       ((), (lone_store, 0))))) = (st', 4) \<and> redis_look st' 1 = Some v \<and> State v = StateCompleted \<and> Attempt v = 2 \<and> length (Errors v) = 1"
    using retries_end_at_success_or_limit [where envs = spaced_env and renvs = spaced_redis and k = 0 and i = 0, OF both flaky spaced_rounds(8) lim(2) two lim(1)
        spaced_rounds(6,7,2,3) go apart(1,2), of MySQL no_ctx "''n1''" "()"]
    by (simp add: len spaced_rounds) (elim conjE exE; simp)
  show "\<exists>db' row' st' v. snd (snd (snd (run (sql_driver MySQL spaced_env) (one_job quiet_job) no_ctx ''default'' ''n1'' failing_rounds
       ((), (sample_db [lone_row], 0))))) = (db', 6) \<and> sql_look db' 1 = Some row' \<and> State row' = StateFailed \<and> length (failed_jobs db') = 1 \<and>
     snd (snd (snd (run (redis_driver spaced_redis) (one_job quiet_job) no_ctx ''default'' ''n1'' failing_rounds
       ((), (lone_store, 0))))) = (st', 6) \<and> redis_look st' 1 = Some v \<and> State v = StateFailed \<and> length (Errors v) = 3"
    using retries_end_at_success_or_limit [where envs = spaced_env and renvs = spaced_redis and k = 0 and i = 0, OF both quiet spaced_rounds(8) lim(2) three lim(1)
        spaced_rounds(6,7,2,3,1) apart(3,4), of MySQL no_ctx "''n1''" "()"]
    by (simp add: len spaced_rounds) (elim conjE exE; simp add: sample_db_def)
qed

text \<open>
  Property C17. A job that runs longer than the re-queue timeout is executed twice, on either driver: \<^verbatim>\<open>RequeueStale\<close> looks at the time of the claim only, so it makes the running job
  available, the next claim hands it out again as its next attempt, and the first worker's report, which names the job and not the attempt, then completes the second attempt while that
  still runs.\<close>

theorem long_running_job_runs_twice:
  assumes "alone q row db" and "State row = StateRunning" and "AttemptedAt row = Some t" and "t < clk env1 0 - timeout"
    and "Attempt row < MaxAttempts row" and "clk env1 0 \<le> clk env2 0" and "faultless env1" and "faultless env2" and "faultless env3"
    and "redis_alone q row st" and "t \<le> r_clk renv1 0 - timeout" and "r_clk renv1 0 \<le> r_clk renv2 0"
    and "redis_calls renv1" and "redis_calls renv2" and "redis_calls renv3"
  shows "(\<exists>again. fst (sql_Claim d env2 q n 1 (snd (sql_RequeueStale env1 timeout db))) = Inr [again] \<and>
      ID again = ID row \<and> State again = StateRunning \<and> Attempt again = Attempt row + 1 \<and>
      (\<exists>db'. sql_Complete env3 (ID row) out (snd (sql_Claim d env2 q n 1 (snd (sql_RequeueStale env1 timeout db)))) = (None, db') \<and>
         (\<exists>fin. sql_look db' (ID row) = Some fin \<and> State fin = StateCompleted \<and> Attempt fin = Attempt again))) \<and>
    (\<exists>again. fst (redis_Claim renv2 q n 1 (snd (redis_RequeueStale renv1 timeout st))) = Inr [again] \<and>
      ID again = ID row \<and> State again = StateRunning \<and> Attempt again = Attempt row + 1 \<and>
      (\<exists>st'. redis_Complete renv3 (ID row) out (snd (redis_Claim renv2 q n 1 (snd (redis_RequeueStale renv1 timeout st)))) = (None, st') \<and>
         (\<exists>fin. redis_look st' (ID row) = Some fin \<and> State fin = StateCompleted \<and> Attempt fin = Attempt again)))"
  using sql_runs_twice [OF assms(1-9), of d n out] redis_runs_twice [OF assms(10,2,3,11,5,12-15), of n out] by (rule conjI)

lemma long_running_job_runs_twice_witness:
  "(\<exists>again. fst (sql_Claim Postgres calm ''default'' ''n2'' 1 (snd (sql_RequeueStale calm 60 (sample_db [sql_claim_row MySQL 6 ''n1'' lone_row])))) = Inr [again] \<and>
     ID again = 1 \<and> Attempt again = 2) \<and>
   (\<exists>again. fst (redis_Claim redis_calm ''default'' ''n2'' 1 (snd (redis_RequeueStale redis_calm 60 claimed_store))) = Inr [again] \<and> ID again = 1 \<and> Attempt again = 2)"
proof -
  let ?row = "sql_claim_row MySQL 6 ''n1'' lone_row"
  have row: "alone ''default'' ?row (sample_db [?row])" "State ?row = StateRunning" "AttemptedAt ?row = Some 6" "6 < clk calm 0 - 60"
    "Attempt ?row < MaxAttempts ?row" "clk calm 0 \<le> clk calm 0" "faultless calm"
    "6 \<le> r_clk redis_calm 0 - 60" "r_clk redis_calm 0 \<le> r_clk redis_calm 0" "redis_calls redis_calm"
    by (simp_all add: alone_def sql_inv_def sql_look_def lone_row_def sample_simps faultless_def sql_claim_row_def redis_calls_def redis_calm_def)
  from long_running_job_runs_twice [OF row(1-7) row(7,7) claimed_store_alone row(8-10) row(10,10), of Postgres "''n2''" None]
  show ?thesis by (auto simp: sql_claim_row_def lone_row_def sample_simps)
qed

end
